theory Spec2Isabelle
  imports Main "HOL-Library.Word"
begin

section \<open>AgentEscrow: the bonded commit-reveal escrow of contracts/AgentEscrow.sol\<close>

text \<open>
  The contract is embedded function by function. A call either reverts, and then
  nothing it did persists, or returns the updated world: every external function is a
  HOL function into \<open>error + state\<close>, where \<open>Inl e\<close> is the revert and the state
  is left as it was. The world is the contract's storage (\<open>tasks\<close>, \<open>nextTaskId\<close>), the
  state of the token contract \<open>mnee\<close> and the log of emitted events.

  Solidity 0.8 arithmetic on \<open>uint256\<close> is checked: an overflowing \<open>+\<close> or \<open>*\<close> and
  an underflowing \<open>-\<close> revert with a panic. The three operations are written out as
  \<open>checked_add\<close>, \<open>checked_mul\<close> and \<open>checked_sub\<close>.
\<close>

subsection \<open>Basic types\<close>

type_synonym uint256 = "256 word"

type_synonym address = "160 word"

type_synonym bytes32 = "256 word"

type_synonym bytes = "8 word list"

definition checked_add :: "uint256 \<Rightarrow> uint256 \<Rightarrow> uint256 option" where
  "checked_add a b = (if unat a + unat b < 2 ^ 256 then Some (a + b) else None)"

definition checked_sub :: "uint256 \<Rightarrow> uint256 \<Rightarrow> uint256 option" where
  "checked_sub a b = (if unat b \<le> unat a then Some (a - b) else None)"

definition checked_mul :: "uint256 \<Rightarrow> uint256 \<Rightarrow> uint256 option" where
  "checked_mul a b = (if unat a * unat b < 2 ^ 256 then Some (a * b) else None)"

subsection \<open>Constants\<close>

definition REVEAL_WINDOW :: uint256 where
  "REVEAL_WINDOW = 600"

definition MIN_BOND_BPS :: uint256 where
  "MIN_BOND_BPS = 1000"

definition MAX_INPUT_SIZE :: uint256 where
  "MAX_INPUT_SIZE = 4096"

definition MAX_OUTPUT_SIZE :: uint256 where
  "MAX_OUTPUT_SIZE = 4096"

subsection \<open>Types of the contract\<close>

datatype TaskState = OPEN | COMMITTED | COMPLETED | REFUNDED

record Task =
  requester :: address
  inputHash :: bytes32
  expectedOutputHash :: bytes32
  specHash :: bytes32
  amount :: uint256
  bondAmount :: uint256
  deadline :: uint256
  state :: TaskState
  committedWorker :: address
  commitHash :: bytes32
  revealDeadline :: uint256

text \<open>A storage slot that was never written reads as zero in every field; the enum's
  zero is its first constructor, \<open>OPEN\<close>.\<close>

definition empty_task :: Task where
  "empty_task = \<lparr>requester = 0, inputHash = 0, expectedOutputHash = 0, specHash = 0,
     amount = 0, bondAmount = 0, deadline = 0, state = OPEN, committedWorker = 0,
     commitHash = 0, revealDeadline = 0\<rparr>"

datatype event =
    TaskCreated uint256 address bytes bytes32 bytes32 bytes32 uint256 uint256 uint256
  | TaskCommitted uint256 address bytes32 uint256 uint256
  | TaskCompleted uint256 address bytes
  | TaskRefunded uint256 address uint256 uint256
  | CommitExpired uint256 address uint256

text \<open>The custom errors of the contract, the arithmetic panic of checked arithmetic, and
  the revert of a token call that SafeERC20 propagates.\<close>

datatype error =
    InvalidAmount | InvalidBondAmount | InvalidDeadline | InputTooLarge | OutputTooLarge
  | TaskNotOpen | TaskNotCommitted | TaskAlreadyFinalized | CommitWindowClosed
  | RevealWindowExpired | RevealWindowActive | DeadlineNotPassed | NotCommittedWorker
  | InvalidCommitHash | OutputHashMismatch
  | Panic | TokenReverted

subsection \<open>The environment of a deployment\<close>

text \<open>
  The token is the constructor's argument: the contract works with whatever ERC-20 it is
  deployed with, so the token is a parameter of the model. \<open>'l\<close> is the token
  contract's own state. \<open>transfer c to v\<close> is \<open>transfer(to, v)\<close> called by \<open>c\<close>;
  \<open>transferFrom c from to v\<close> is \<open>transferFrom(from, to, v)\<close> called by \<open>c\<close>.
  \<open>None\<close> is a call that reverts or returns false, which \<open>safeTransfer\<close> and
  \<open>safeTransferFrom\<close> turn into a revert. The token cannot call back into the escrow:
  every external function is \<open>nonReentrant\<close>.

  \<open>keccak256\<close> is the EVM's hash, \<open>escrowAddress\<close> is \<open>address(this)\<close>.
\<close>

record 'l token =
  transfer :: "address \<Rightarrow> address \<Rightarrow> uint256 \<Rightarrow> 'l \<Rightarrow> 'l option"
  transferFrom :: "address \<Rightarrow> address \<Rightarrow> address \<Rightarrow> uint256 \<Rightarrow> 'l \<Rightarrow> 'l option"

record 'l deployment =
  mnee :: "'l token"
  escrowAddress :: address
  keccak256 :: "bytes \<Rightarrow> bytes32"

text \<open>\<open>msg.sender\<close> and \<open>block.timestamp\<close> of one call.\<close>

record msg =
  sender :: address
  timestamp :: uint256

record 'l escrow =
  tasks :: "uint256 \<Rightarrow> Task"
  nextTaskId :: uint256
  ledger :: 'l
  events :: "event list"

text \<open>\<open>abi.encode(bytes32, bytes32)\<close>: the two words, 32 big-endian bytes each.\<close>

definition bytes32_to_bytes :: "bytes32 \<Rightarrow> bytes" where
  "bytes32_to_bytes w = map (\<lambda>i. ucast (drop_bit (8 * (31 - i)) w)) [0..<32]"

definition abi_encode :: "bytes32 \<Rightarrow> bytes32 \<Rightarrow> bytes" where
  "abi_encode a b = bytes32_to_bytes a @ bytes32_to_bytes b"

subsection \<open>External functions\<close>

definition createTask ::
  "'l deployment \<Rightarrow> msg \<Rightarrow> bytes \<Rightarrow> bytes32 \<Rightarrow> bytes32 \<Rightarrow> uint256 \<Rightarrow> uint256 \<Rightarrow> uint256
     \<Rightarrow> 'l escrow \<Rightarrow> error + (uint256 \<times> 'l escrow)" where
  "createTask d m inputBytes expectedOutputHash' specHash' amount' bondAmount' deadline' s =
    (if unat MAX_INPUT_SIZE < length inputBytes then Inl InputTooLarge
     else if amount' = 0 then Inl InvalidAmount
     else (case checked_mul amount' MIN_BOND_BPS of
       None \<Rightarrow> Inl Panic
     | Some scaled \<Rightarrow>
       if bondAmount' < scaled div 10000 then Inl InvalidBondAmount
       else (case checked_add (timestamp m) REVEAL_WINDOW of
         None \<Rightarrow> Inl Panic
       | Some earliest \<Rightarrow>
         if deadline' \<le> earliest then Inl InvalidDeadline
         else (case checked_add (nextTaskId s) 1 of
           None \<Rightarrow> Inl Panic
         | Some next \<Rightarrow>
           (let taskId = nextTaskId s;
                inputHash' = keccak256 d inputBytes;
                task = \<lparr>requester = sender m, inputHash = inputHash',
                  expectedOutputHash = expectedOutputHash', specHash = specHash',
                  amount = amount', bondAmount = bondAmount', deadline = deadline',
                  state = OPEN, committedWorker = 0, commitHash = 0, revealDeadline = 0\<rparr>
            in (case transferFrom (mnee d) (escrowAddress d) (sender m) (escrowAddress d)
                      amount' (ledger s) of
              None \<Rightarrow> Inl TokenReverted
            | Some l \<Rightarrow> Inr (taskId,
                s\<lparr>nextTaskId := next, tasks := (tasks s)(taskId := task), ledger := l,
                  events := events s @ [TaskCreated taskId (sender m) inputBytes inputHash'
                    expectedOutputHash' specHash' amount' bondAmount' deadline']\<rparr>)))))))"

definition commit ::
  "'l deployment \<Rightarrow> msg \<Rightarrow> uint256 \<Rightarrow> bytes32 \<Rightarrow> 'l escrow \<Rightarrow> error + 'l escrow" where
  "commit d m taskId commitHash' s =
    (let task = tasks s taskId in
     if state task \<noteq> OPEN then Inl TaskNotOpen
     else (case checked_sub (deadline task) REVEAL_WINDOW of
       None \<Rightarrow> Inl Panic
     | Some cutoff \<Rightarrow>
       if cutoff \<le> timestamp m then Inl CommitWindowClosed
       else (case checked_add (timestamp m) REVEAL_WINDOW of
         None \<Rightarrow> Inl Panic
       | Some revealDeadline' \<Rightarrow>
         (let task' = task\<lparr>state := COMMITTED, committedWorker := sender m,
                        commitHash := commitHash', revealDeadline := revealDeadline'\<rparr>
          in (case transferFrom (mnee d) (escrowAddress d) (sender m) (escrowAddress d)
                    (bondAmount task') (ledger s) of
            None \<Rightarrow> Inl TokenReverted
          | Some l \<Rightarrow> Inr (s\<lparr>tasks := (tasks s)(taskId := task'), ledger := l,
              events := events s @ [TaskCommitted taskId (sender m) commitHash'
                (bondAmount task') revealDeadline']\<rparr>))))))"

definition reveal ::
  "'l deployment \<Rightarrow> msg \<Rightarrow> uint256 \<Rightarrow> bytes \<Rightarrow> bytes32 \<Rightarrow> 'l escrow \<Rightarrow> error + 'l escrow" where
  "reveal d m taskId outputBytes salt s =
    (let task = tasks s taskId in
     if unat MAX_OUTPUT_SIZE < length outputBytes then Inl OutputTooLarge
     else if state task \<noteq> COMMITTED then Inl TaskNotCommitted
     else if sender m \<noteq> committedWorker task then Inl NotCommittedWorker
     else if revealDeadline task < timestamp m then Inl RevealWindowExpired
     else (let outputHash = keccak256 d outputBytes;
               expectedCommitHash = keccak256 d (abi_encode outputHash salt)
       in if expectedCommitHash \<noteq> commitHash task then Inl InvalidCommitHash
          else if outputHash \<noteq> expectedOutputHash task then Inl OutputHashMismatch
          else (let task' = task\<lparr>state := COMPLETED\<rparr>
            in (case checked_add (amount task') (bondAmount task') of
              None \<Rightarrow> Inl Panic
            | Some totalPayout \<Rightarrow>
              (case transfer (mnee d) (escrowAddress d) (sender m) totalPayout (ledger s) of
                None \<Rightarrow> Inl TokenReverted
              | Some l \<Rightarrow> Inr (s\<lparr>tasks := (tasks s)(taskId := task'), ledger := l,
                  events := events s @ [TaskCompleted taskId (sender m) outputBytes]\<rparr>))))))"

definition expireCommit ::
  "'l deployment \<Rightarrow> msg \<Rightarrow> uint256 \<Rightarrow> 'l escrow \<Rightarrow> error + 'l escrow" where
  "expireCommit d m taskId s =
    (let task = tasks s taskId in
     if state task \<noteq> COMMITTED then Inl TaskNotCommitted
     else if timestamp m \<le> revealDeadline task then Inl RevealWindowActive
     else if deadline task < timestamp m then Inl DeadlineNotPassed
     else (let expiredWorker = committedWorker task;
               slashedBond = bondAmount task;
               task' = task\<lparr>state := OPEN, committedWorker := 0, commitHash := 0,
                         revealDeadline := 0\<rparr>
       in (case transfer (mnee d) (escrowAddress d) (requester task') slashedBond (ledger s) of
            None \<Rightarrow> Inl TokenReverted
          | Some l \<Rightarrow> Inr (s\<lparr>tasks := (tasks s)(taskId := task'), ledger := l,
              events := events s @ [CommitExpired taskId expiredWorker slashedBond]\<rparr>))))"

definition claimTimeout ::
  "'l deployment \<Rightarrow> msg \<Rightarrow> uint256 \<Rightarrow> 'l escrow \<Rightarrow> error + 'l escrow" where
  "claimTimeout d m taskId s =
    (let task = tasks s taskId in
     if state task = COMPLETED \<or> state task = REFUNDED then Inl TaskAlreadyFinalized
     else if timestamp m \<le> deadline task then Inl DeadlineNotPassed
     else if state task = COMMITTED \<and> timestamp m \<le> revealDeadline task
       then Inl RevealWindowActive
     else (let refundAmount = amount task;
               slashedBond = (if state task = COMMITTED then bondAmount task else 0);
               task' = task\<lparr>state := REFUNDED\<rparr>;
               total = (if 0 < slashedBond then checked_add refundAmount slashedBond
                        else Some refundAmount)
       in (case total of
            None \<Rightarrow> Inl Panic
          | Some payout \<Rightarrow>
            (case transfer (mnee d) (escrowAddress d) (requester task') payout (ledger s) of
              None \<Rightarrow> Inl TokenReverted
            | Some l \<Rightarrow> Inr (s\<lparr>tasks := (tasks s)(taskId := task'), ledger := l,
                events := events s @ [TaskRefunded taskId (requester task') refundAmount
                  slashedBond]\<rparr>)))))"

definition getTask :: "'l escrow \<Rightarrow> uint256 \<Rightarrow> Task" where
  "getTask s taskId = tasks s taskId"

subsection \<open>Transactions\<close>

text \<open>
  A transaction is one external call with its \<open>msg.sender\<close> and \<open>block.timestamp\<close>.
  Transactions are executed one after the other, and a transaction that reverts leaves the
  world as it was. Between two calls of the escrow anything may happen to the token
  (approvals, transfers between other accounts, minting): \<open>TokenActivity f\<close> replaces
  the token's state by \<open>f\<close> of it and leaves the escrow's storage alone.
\<close>

datatype 'l call =
    CreateTask bytes bytes32 bytes32 uint256 uint256 uint256
  | Commit uint256 bytes32
  | Reveal uint256 bytes bytes32
  | ExpireCommit uint256
  | ClaimTimeout uint256
  | TokenActivity "'l \<Rightarrow> 'l"

fun exec :: "'l deployment \<Rightarrow> msg \<Rightarrow> 'l call \<Rightarrow> 'l escrow \<Rightarrow> error + 'l escrow" where
  "exec d m (CreateTask inputBytes expectedOutputHash' specHash' amount' bondAmount' deadline') s =
     (case createTask d m inputBytes expectedOutputHash' specHash' amount' bondAmount'
             deadline' s of
        Inl e \<Rightarrow> Inl e
      | Inr (taskId, s') \<Rightarrow> Inr s')"
| "exec d m (Commit taskId commitHash') s = commit d m taskId commitHash' s"
| "exec d m (Reveal taskId outputBytes salt) s = reveal d m taskId outputBytes salt s"
| "exec d m (ExpireCommit taskId) s = expireCommit d m taskId s"
| "exec d m (ClaimTimeout taskId) s = claimTimeout d m taskId s"
| "exec d m (TokenActivity f) s = Inr (s\<lparr>ledger := f (ledger s)\<rparr>)"

definition step :: "'l deployment \<Rightarrow> msg \<times> 'l call \<Rightarrow> 'l escrow \<Rightarrow> 'l escrow" where
  "step d x s = (case exec d (fst x) (snd x) s of Inl e \<Rightarrow> s | Inr s' \<Rightarrow> s')"

fun run :: "'l deployment \<Rightarrow> (msg \<times> 'l call) list \<Rightarrow> 'l escrow \<Rightarrow> 'l escrow" where
  "run d [] s = s"
| "run d (x # xs) s = run d xs (step d x s)"

text \<open>The contract right after its constructor: no task, \<open>nextTaskId = 0\<close>, and the
  token in whatever state it is.\<close>

definition init :: "'l \<Rightarrow> 'l escrow" where
  "init l = \<lparr>tasks = (\<lambda>taskId. empty_task), nextTaskId = 0, ledger = l, events = []\<rparr>"

text \<open>What a call leaves in one task's record: the error when it reverts.\<close>

definition task_after :: "error + 'l escrow \<Rightarrow> uint256 \<Rightarrow> error + Task" where
  "task_after r taskId = (case r of Inl e \<Rightarrow> Inl e | Inr s' \<Rightarrow> Inr (tasks s' taskId))"

text \<open>
  A transaction settles the commitment on a task when it is a successful \<open>reveal\<close>,
  \<open>expireCommit\<close> or \<open>claimTimeout\<close> of that task made while the task is COMMITTED:
  these are the calls that pay the locked bond out. \<open>settlements\<close> counts them along
  a sequence of transactions.
\<close>

fun succeeds :: "error + 'a \<Rightarrow> bool" where
  "succeeds (Inr v) = True"
| "succeeds (Inl e) = False"

fun targets :: "'l call \<Rightarrow> uint256 \<Rightarrow> bool" where
  "targets (Reveal taskId outputBytes salt) i = (taskId = i)"
| "targets (ExpireCommit taskId) i = (taskId = i)"
| "targets (ClaimTimeout taskId) i = (taskId = i)"
| "targets c i = False"

fun is_commit_on :: "uint256 \<Rightarrow> msg \<times> 'l call \<Rightarrow> bool" where
  "is_commit_on i (m, Commit taskId commitHash') = (taskId = i)"
| "is_commit_on i (m, c) = False"

definition settles :: "'l deployment \<Rightarrow> uint256 \<Rightarrow> msg \<times> 'l call \<Rightarrow> 'l escrow \<Rightarrow> bool" where
  "settles d i x s =
     (state (tasks s i) = COMMITTED \<and> targets (snd x) i \<and> succeeds (exec d (fst x) (snd x) s))"

fun settlements ::
  "'l deployment \<Rightarrow> uint256 \<Rightarrow> (msg \<times> 'l call) list \<Rightarrow> 'l escrow \<Rightarrow> nat" where
  "settlements d i [] s = 0"
| "settlements d i (x # xs) s =
     (if settles d i x s then 1 else 0) + settlements d i xs (step d x s)"

text \<open>
  What the registry looks like after any history, used as an induction invariant below.
  A slot at or beyond \<open>nextTaskId\<close> was never written by \<open>createTask\<close>: it still reads
  as the empty record, unless a \<open>claimTimeout\<close> on it went through and marked it
  REFUNDED. A created task keeps the deadline it was created with, which is beyond 600.
  A COMMITTED task has its reveal deadline strictly before its deadline, and an OPEN task
  has no commitment fields set.
\<close>

definition registry_ok :: "'l escrow \<Rightarrow> bool" where
  "registry_ok s = (\<forall>i.
     (unat (nextTaskId s) \<le> unat i \<longrightarrow>
        tasks s i = empty_task \<or> tasks s i = empty_task\<lparr>state := REFUNDED\<rparr>) \<and>
     (unat i < unat (nextTaskId s) \<longrightarrow> 600 < unat (deadline (tasks s i))) \<and>
     (state (tasks s i) = COMMITTED \<longrightarrow>
        600 \<le> unat (revealDeadline (tasks s i)) \<and>
        unat (revealDeadline (tasks s i)) < unat (deadline (tasks s i))) \<and>
     (state (tasks s i) = OPEN \<longrightarrow>
        committedWorker (tasks s i) = 0 \<and> commitHash (tasks s i) = 0 \<and>
        revealDeadline (tasks s i) = 0))"

subsection \<open>A token for the scenarios\<close>

text \<open>
  Modelled from the spec: the ERC-20 behind \<open>mnee\<close> (the \<open>IERC20\<close> interface, \<open>SafeERC20\<close>
  and the \<open>ERC20\<close> base that contracts/mocks/MockMNEE.sol extends) is an imported library
  and not part of the sources. The spec describes the collaborator as a standard
  fungible-balance ledger with transfer/approve semantics, with atomic debits and credits
  keyed by account: moving funds in fails if the payer has insufficient balance or
  authorization, moving funds out fails if the balance does not cover it.
  The general results below hold for every token; this one is used where a scenario
  speaks of balances.
\<close>

record ledger_state =
  balanceOf :: "address \<Rightarrow> nat"
  allowance :: "address \<Rightarrow> address \<Rightarrow> nat"

definition move :: "address \<Rightarrow> address \<Rightarrow> nat \<Rightarrow> (address \<Rightarrow> nat) \<Rightarrow> address \<Rightarrow> nat" where
  "move from to v b = (let b' = b(from := b from - v) in b'(to := b' to + v))"

definition ledger_transfer ::
  "address \<Rightarrow> address \<Rightarrow> uint256 \<Rightarrow> ledger_state \<Rightarrow> ledger_state option" where
  "ledger_transfer c to v l =
     (if balanceOf l c < unat v then None
      else Some (l\<lparr>balanceOf := move c to (unat v) (balanceOf l)\<rparr>))"

definition ledger_transferFrom ::
  "address \<Rightarrow> address \<Rightarrow> address \<Rightarrow> uint256 \<Rightarrow> ledger_state \<Rightarrow> ledger_state option" where
  "ledger_transferFrom c from to v l =
     (if allowance l from c < unat v then None
      else if balanceOf l from < unat v then None
      else Some (l\<lparr>balanceOf := move from to (unat v) (balanceOf l),
                   allowance := (allowance l)(from := (allowance l from)(c :=
                     allowance l from c - unat v))\<rparr>))"

definition simple_ledger :: "ledger_state token" where
  "simple_ledger = \<lparr>transfer = ledger_transfer, transferFrom = ledger_transferFrom\<rparr>"



text \<open>
  What the escrow owes: the payment of every created task that is OPEN, and the payment
  and the bond of every created task that is COMMITTED. \<open>escrowed\<close> is the sum over
  the created tasks.
\<close>

definition held :: "Task \<Rightarrow> nat" where
  "held t = (case state t of
      OPEN \<Rightarrow> unat (amount t)
    | COMMITTED \<Rightarrow> unat (amount t) + unat (bondAmount t)
    | COMPLETED \<Rightarrow> 0
    | REFUNDED \<Rightarrow> 0)"

definition escrowed :: "'l escrow \<Rightarrow> nat" where
  "escrowed s = sum (\<lambda>i. held (tasks s i)) {i. unat i < unat (nextTaskId s)}"

text \<open>
  The histories in which the escrow's own balance is only moved by the escrow: the escrow
  contract sends no transaction of its own, so it is never the caller of \<open>createTask\<close>
  or \<open>commit\<close>, and it approves nobody, so whatever else happens on the ledger does not
  lower its balance.
\<close>

fun admissible :: "ledger_state deployment \<Rightarrow> msg \<times> ledger_state call \<Rightarrow> bool" where
  "admissible d (m, CreateTask inputBytes expectedOutputHash' specHash' amount' bondAmount'
      deadline') = (sender m \<noteq> escrowAddress d)"
| "admissible d (m, Commit taskId commitHash') = (sender m \<noteq> escrowAddress d)"
| "admissible d (m, TokenActivity f) =
     (\<forall>l. balanceOf l (escrowAddress d) \<le> balanceOf (f l) (escrowAddress d))"
| "admissible d (m, c) = True"

subsection \<open>Concrete parties and values for the scenarios\<close>

text \<open>A stand-in for the hash in concrete evaluations; nothing proved in general depends
  on it.\<close>

definition toy_keccak :: "bytes \<Rightarrow> bytes32" where
  "toy_keccak bs = foldl (\<lambda>h b. 31 * h + ucast b + 1) 7 bs"

definition alice :: address where
  "alice = 1"

definition bob :: address where
  "bob = 2"

definition mallory :: address where
  "mallory = 3"

definition escrow_addr :: address where
  "escrow_addr = 100"

definition funded :: ledger_state where
  "funded = \<lparr>balanceOf = (\<lambda>a. if a = alice \<or> a = bob \<or> a = mallory then 1000 else 0),
     allowance = (\<lambda>a c. if c = escrow_addr then 1000 else 0)\<rparr>"

definition demo :: "ledger_state deployment" where
  "demo = \<lparr>mnee = simple_ledger, escrowAddress = escrow_addr, keccak256 = toy_keccak\<rparr>"


definition at :: "address \<Rightarrow> uint256 \<Rightarrow> msg" where
  "at a t = \<lparr>sender = a, timestamp = t\<rparr>"

text \<open>The output \<open>X\<close> and the salt of the scenarios, and the commitment to them.\<close>

definition output_X :: bytes where
  "output_X = [88]"

definition salt_S :: bytes32 where
  "salt_S = 83"

definition commitment_XS :: bytes32 where
  "commitment_XS = toy_keccak (abi_encode (toy_keccak output_X) salt_S)"

text \<open>A task of amount 10 and bond 1 created by alice at time 1000 with deadline
  4600, and bob's commitment to it at time 1010.\<close>

definition created :: "ledger_state escrow" where
  "created = run demo [(at alice 1000, CreateTask [1, 2, 3] (toy_keccak output_X) 5 10 1 4600)]
     (init funded)"

definition committed :: "ledger_state escrow" where
  "committed = run demo [(at bob 1010, Commit 0 commitment_XS)] created"

definition completed :: "ledger_state escrow" where
  "completed = run demo [(at bob 1020, Reveal 0 output_X salt_S)] committed"

text \<open>The other ways out of the commitment: anyone expires it at time 1700, or anyone
  claims the timeout at time 5000.\<close>

definition expired :: "ledger_state escrow" where
  "expired = run demo [(at mallory 1700, ExpireCommit 0)] committed"

definition refunded :: "ledger_state escrow" where
  "refunded = run demo [(at mallory 5000, ClaimTimeout 0)] committed"

text \<open>After the expiry mallory commits to the reopened task at time 1800; and the
  timeout of the task when nobody ever committed.\<close>

definition recommitted :: "ledger_state escrow" where
  "recommitted = run demo [(at mallory 1800, Commit 0 7)] expired"

definition timed_out :: "ledger_state escrow" where
  "timed_out = run demo [(at mallory 5000, ClaimTimeout 0)] created"

text \<open>The requester as the worker of her own task: alice commits at time 1010 to the task
  she created, and the commitment is expired at time 1700 or timed out at time 5000.\<close>

definition self_committed :: "ledger_state escrow" where
  "self_committed = run demo [(at alice 1010, Commit 0 commitment_XS)] created"

definition self_expired :: "ledger_state escrow" where
  "self_expired = run demo [(at mallory 1700, ExpireCommit 0)] self_committed"

definition self_refunded :: "ledger_state escrow" where
  "self_refunded = run demo [(at mallory 5000, ClaimTimeout 0)] self_committed"


section \<open>Auxiliary facts\<close>

subsection \<open>Checked arithmetic\<close>

lemma unat_REVEAL_WINDOW: "unat REVEAL_WINDOW = 600"
  by (simp add: REVEAL_WINDOW_def)

lemma unat_MAX_OUTPUT_SIZE: "unat MAX_OUTPUT_SIZE = 4096"
  by (simp add: MAX_OUTPUT_SIZE_def)

lemma unat_MAX_INPUT_SIZE: "unat MAX_INPUT_SIZE = 4096"
  by (simp add: MAX_INPUT_SIZE_def)

lemma unat_MIN_BOND_BPS: "unat MIN_BOND_BPS = 1000"
  by (simp add: MIN_BOND_BPS_def)

lemma checked_add_Some:
  "checked_add a b = Some c \<longleftrightarrow> unat a + unat b < 2 ^ 256 \<and> c = a + b"
  by (auto simp: checked_add_def)

lemma checked_add_None: "checked_add a b = None \<longleftrightarrow> 2 ^ 256 \<le> unat a + unat b"
  by (auto simp: checked_add_def)

lemma unat_plus_no_wrap:
  fixes a b :: uint256
  assumes "unat a + unat b < 2 ^ 256"
  shows "unat (a + b) = unat a + unat b"
  using assms by (simp add: unat_word_ariths)

lemma checked_sub_Some:
  "checked_sub a b = Some c \<longleftrightarrow> unat b \<le> unat a \<and> c = a - b"
  by (auto simp: checked_sub_def)

lemma unat_minus_no_wrap:
  fixes a b :: uint256
  assumes "unat b \<le> unat a"
  shows "unat (a - b) = unat a - unat b"
  using assms by (simp add: unat_sub word_le_nat_alt)

lemma checked_mul_Some:
  "checked_mul a b = Some c \<longleftrightarrow> unat a * unat b < 2 ^ 256 \<and> c = a * b"
  by (auto simp: checked_mul_def)

lemma unat_times_no_wrap:
  fixes a b :: uint256
  assumes "unat a * unat b < 2 ^ 256"
  shows "unat (a * b) = unat a * unat b"
  using assms by (simp add: unat_word_ariths)

lemma unat_bond_floor:
  fixes a :: uint256
  assumes "unat a * 1000 < 2 ^ 256"
  shows "unat ((a * MIN_BOND_BPS) div 10000) = unat a div 10"
proof -
  have "unat (a * MIN_BOND_BPS) = unat a * 1000"
    using assms by (simp add: unat_times_no_wrap unat_MIN_BOND_BPS)
  then have "unat ((a * MIN_BOND_BPS) div 10000) = (unat a * 1000) div 10000"
    by (simp add: unat_div)
  then show ?thesis by simp
qed

subsection \<open>When a call succeeds, and what it leaves\<close>

lemma unat_lt_max: "unat (a :: uint256) < 2 ^ 256"
  using unsigned_less [of a, where 'a = nat] by simp

lemma commit_window:
  fixes dl now :: uint256
  shows "(unat REVEAL_WINDOW \<le> unat dl \<and> \<not> dl - REVEAL_WINDOW \<le> now) \<longleftrightarrow> unat now + 600 < unat dl"
proof (cases "unat REVEAL_WINDOW \<le> unat dl")
  case True
  then have "unat (dl - REVEAL_WINDOW) = unat dl - 600"
    by (simp add: unat_minus_no_wrap unat_REVEAL_WINDOW)
  with True show ?thesis
    by (auto simp: word_le_nat_alt unat_REVEAL_WINDOW)
next
  case False
  then show ?thesis by (simp add: unat_REVEAL_WINDOW)
qed

lemma commit_Inr_iff:
  "commit d m i h s = Inr s' \<longleftrightarrow>
     state (tasks s i) = OPEN \<and> unat (timestamp m) + 600 < unat (deadline (tasks s i)) \<and>
     (\<exists>l. transferFrom (mnee d) (escrowAddress d) (sender m) (escrowAddress d)
             (bondAmount (tasks s i)) (ledger s) = Some l \<and>
          s' = s\<lparr>tasks := (tasks s)(i := (tasks s i)\<lparr>state := COMMITTED,
                  committedWorker := sender m, commitHash := h,
                  revealDeadline := timestamp m + REVEAL_WINDOW\<rparr>),
                ledger := l,
                events := events s @ [TaskCommitted i (sender m) h (bondAmount (tasks s i))
                  (timestamp m + REVEAL_WINDOW)]\<rparr>)"
proof -
  have add_ok: "unat (timestamp m) + 600 < unat (deadline (tasks s i)) \<Longrightarrow>
      checked_add (timestamp m) REVEAL_WINDOW = Some (timestamp m + REVEAL_WINDOW)"
    using unat_lt_max [of "deadline (tasks s i)"]
    by (simp add: checked_add_def unat_REVEAL_WINDOW)
  show ?thesis
  proof (cases "unat (timestamp m) + 600 < unat (deadline (tasks s i))")
    case True
    then have w: "unat REVEAL_WINDOW \<le> unat (deadline (tasks s i))"
      "\<not> deadline (tasks s i) - REVEAL_WINDOW \<le> timestamp m"
      using commit_window [of "deadline (tasks s i)" "timestamp m"] by auto
    show ?thesis
      using True w add_ok [OF True]
      by (auto simp: commit_def Let_def checked_sub_def split: option.splits)
  next
    case False
    then have "\<not> (unat REVEAL_WINDOW \<le> unat (deadline (tasks s i)) \<and>
       \<not> deadline (tasks s i) - REVEAL_WINDOW \<le> timestamp m)"
      using commit_window [of "deadline (tasks s i)" "timestamp m"] by simp
    with False show ?thesis
      by (auto simp: commit_def Let_def checked_sub_def split: option.splits)
  qed
qed

lemma reveal_Inr_iff:
  "reveal d m i out salt s = Inr s' \<longleftrightarrow>
     length out \<le> 4096 \<and> state (tasks s i) = COMMITTED \<and>
     sender m = committedWorker (tasks s i) \<and> timestamp m \<le> revealDeadline (tasks s i) \<and>
     keccak256 d (abi_encode (keccak256 d out) salt) = commitHash (tasks s i) \<and>
     keccak256 d out = expectedOutputHash (tasks s i) \<and>
     unat (amount (tasks s i)) + unat (bondAmount (tasks s i)) < 2 ^ 256 \<and>
     (\<exists>l. transfer (mnee d) (escrowAddress d) (sender m)
             (amount (tasks s i) + bondAmount (tasks s i)) (ledger s) = Some l \<and>
          s' = s\<lparr>tasks := (tasks s)(i := (tasks s i)\<lparr>state := COMPLETED\<rparr>), ledger := l,
                events := events s @ [TaskCompleted i (sender m) out]\<rparr>)"
  by (auto simp: reveal_def Let_def checked_add_def unat_MAX_OUTPUT_SIZE
      split: option.splits)

lemma expireCommit_Inr_iff:
  "expireCommit d m i s = Inr s' \<longleftrightarrow>
     state (tasks s i) = COMMITTED \<and> revealDeadline (tasks s i) < timestamp m \<and>
     timestamp m \<le> deadline (tasks s i) \<and>
     (\<exists>l. transfer (mnee d) (escrowAddress d) (requester (tasks s i))
             (bondAmount (tasks s i)) (ledger s) = Some l \<and>
          s' = s\<lparr>tasks := (tasks s)(i := (tasks s i)\<lparr>state := OPEN, committedWorker := 0,
                  commitHash := 0, revealDeadline := 0\<rparr>), ledger := l,
                events := events s @ [CommitExpired i (committedWorker (tasks s i))
                  (bondAmount (tasks s i))]\<rparr>)"
  by (auto simp: expireCommit_def Let_def split: option.splits)

lemma claimTimeout_Inr_iff:
  "claimTimeout d m i s = Inr s' \<longleftrightarrow>
     (state (tasks s i) = OPEN \<or> state (tasks s i) = COMMITTED) \<and>
     deadline (tasks s i) < timestamp m \<and>
     (state (tasks s i) = COMMITTED \<longrightarrow> revealDeadline (tasks s i) < timestamp m) \<and>
     (state (tasks s i) = COMMITTED \<longrightarrow>
        unat (amount (tasks s i)) + unat (bondAmount (tasks s i)) < 2 ^ 256) \<and>
     (\<exists>l. transfer (mnee d) (escrowAddress d) (requester (tasks s i))
             (if state (tasks s i) = COMMITTED
              then amount (tasks s i) + bondAmount (tasks s i) else amount (tasks s i))
             (ledger s) = Some l \<and>
          s' = s\<lparr>tasks := (tasks s)(i := (tasks s i)\<lparr>state := REFUNDED\<rparr>), ledger := l,
                events := events s @ [TaskRefunded i (requester (tasks s i))
                  (amount (tasks s i))
                  (if state (tasks s i) = COMMITTED then bondAmount (tasks s i) else 0)]\<rparr>)"
proof (cases "state (tasks s i)")
  case OPEN
  then show ?thesis
    by (auto simp: claimTimeout_def Let_def split: option.splits)
next
  case COMMITTED
  show ?thesis
  proof (cases "bondAmount (tasks s i) = 0")
    case True
    with COMMITTED show ?thesis
      using unat_lt_max [of "amount (tasks s i)"]
      by (auto simp: claimTimeout_def Let_def split: option.splits)
  next
    case False
    then have "0 < bondAmount (tasks s i)" by (simp add: word_greater_zero_iff)
    with COMMITTED show ?thesis
      by (auto simp: claimTimeout_def Let_def checked_add_def split: option.splits)
  qed
next
  case COMPLETED
  then show ?thesis by (simp add: claimTimeout_def)
next
  case REFUNDED
  then show ?thesis by (simp add: claimTimeout_def)
qed

lemma createTask_Inr_iff:
  "createTask d m inp eoh sph a b dl s = Inr (tid, s') \<longleftrightarrow>
     length inp \<le> 4096 \<and> a \<noteq> 0 \<and> unat a * 1000 < 2 ^ 256 \<and> unat a div 10 \<le> unat b \<and>
     unat (timestamp m) + 600 < unat dl \<and>
     unat (nextTaskId s) + 1 < 2 ^ 256 \<and> tid = nextTaskId s \<and>
     (\<exists>l. transferFrom (mnee d) (escrowAddress d) (sender m) (escrowAddress d) a (ledger s)
             = Some l \<and>
          s' = s\<lparr>nextTaskId := nextTaskId s + 1,
                tasks := (tasks s)(nextTaskId s := \<lparr>requester = sender m,
                  inputHash = keccak256 d inp, expectedOutputHash = eoh, specHash = sph,
                  amount = a, bondAmount = b, deadline = dl, state = OPEN,
                  committedWorker = 0, commitHash = 0, revealDeadline = 0\<rparr>),
                ledger := l,
                events := events s @ [TaskCreated (nextTaskId s) (sender m) inp
                  (keccak256 d inp) eoh sph a b dl]\<rparr>)"
proof (cases "unat a * 1000 < 2 ^ 256")
  case mul_ok: True
  then have fl: "unat ((a * MIN_BOND_BPS) div 10000) = unat a div 10"
    by (rule unat_bond_floor)
  have bond: "b < (a * MIN_BOND_BPS) div 10000 \<longleftrightarrow> unat b < unat a div 10"
    by (simp add: word_less_nat_alt fl)
  show ?thesis
  proof (cases "unat (timestamp m) + 600 < 2 ^ 256")
    case add_ok: True
    then have "unat (timestamp m + REVEAL_WINDOW) = unat (timestamp m) + 600"
      by (simp add: unat_plus_no_wrap unat_REVEAL_WINDOW)
    then have dlc: "dl \<le> timestamp m + REVEAL_WINDOW \<longleftrightarrow> unat dl \<le> unat (timestamp m) + 600"
      by (simp add: word_le_nat_alt)
    show ?thesis
      using mul_ok add_ok bond dlc
      by (auto simp: createTask_def Let_def checked_add_def checked_mul_def
          unat_MAX_INPUT_SIZE unat_MIN_BOND_BPS unat_REVEAL_WINDOW split: option.splits)
  next
    case False
    moreover have "unat dl < 2 ^ 256" by (rule unat_lt_max)
    ultimately show ?thesis
      using mul_ok
      by (auto simp: createTask_def Let_def checked_add_def checked_mul_def
          unat_MAX_INPUT_SIZE unat_MIN_BOND_BPS unat_REVEAL_WINDOW split: option.splits)
  qed
next
  case False
  then show ?thesis
    by (auto simp: createTask_def Let_def checked_mul_def unat_MIN_BOND_BPS)
qed

subsection \<open>The registry invariant\<close>

lemma empty_task_fields:
  "state empty_task = OPEN" "deadline empty_task = 0" "requester empty_task = 0"
  "amount empty_task = 0" "bondAmount empty_task = 0" "revealDeadline empty_task = 0"
  "committedWorker empty_task = 0" "commitHash empty_task = 0"
  by (simp_all add: empty_task_def)

lemma registry_ok_init: "registry_ok (init l)"
  by (simp add: registry_ok_def init_def empty_task_def)

lemma unat_eq_iff: "(a :: uint256) = b \<longleftrightarrow> unat a = unat b"
  by (simp add: word_unat_eq_iff)

lemma unat_succ:
  fixes n :: uint256
  assumes "unat n + 1 < 2 ^ 256"
  shows "unat (n + 1) = unat n + 1"
  using assms by (simp add: unat_word_ariths)

lemma registry_ok_createTask:
  assumes "createTask d m inp eoh sph a b dl s = Inr (tid, s')" and "registry_ok s"
  shows "registry_ok s'"
proof -
  from assms(1) obtain l where
    dl: "unat (timestamp m) + 600 < unat dl" and
    nx: "unat (nextTaskId s) + 1 < 2 ^ 256" and
    s': "s' = s\<lparr>nextTaskId := nextTaskId s + 1,
                tasks := (tasks s)(nextTaskId s := \<lparr>requester = sender m,
                  inputHash = keccak256 d inp, expectedOutputHash = eoh, specHash = sph,
                  amount = a, bondAmount = b, deadline = dl, state = OPEN,
                  committedWorker = 0, commitHash = 0, revealDeadline = 0\<rparr>),
                ledger := l,
                events := events s @ [TaskCreated (nextTaskId s) (sender m) inp
                  (keccak256 d inp) eoh sph a b dl]\<rparr>"
    unfolding createTask_Inr_iff by blast
  have nx': "unat (nextTaskId s + 1) = unat (nextTaskId s) + 1"
    using nx by (rule unat_succ)
  show ?thesis
    unfolding registry_ok_def
  proof (intro allI)
    fix i
    show "(unat (nextTaskId s') \<le> unat i \<longrightarrow>
        tasks s' i = empty_task \<or> tasks s' i = empty_task\<lparr>state := REFUNDED\<rparr>) \<and>
     (unat i < unat (nextTaskId s') \<longrightarrow> 600 < unat (deadline (tasks s' i))) \<and>
     (state (tasks s' i) = COMMITTED \<longrightarrow>
        600 \<le> unat (revealDeadline (tasks s' i)) \<and>
        unat (revealDeadline (tasks s' i)) < unat (deadline (tasks s' i))) \<and>
     (state (tasks s' i) = OPEN \<longrightarrow>
        committedWorker (tasks s' i) = 0 \<and> commitHash (tasks s' i) = 0 \<and>
        revealDeadline (tasks s' i) = 0)"
    proof (cases "i = nextTaskId s")
      case True
      then show ?thesis using dl nx' by (simp add: s')
    next
      case False
      then have "unat i \<noteq> unat (nextTaskId s)" by (simp add: unat_eq_iff)
      with False assms(2) [unfolded registry_ok_def, rule_format, of i] show ?thesis
        using nx' by (auto simp: s')
    qed
  qed
qed

lemma registry_ok_update:
  assumes ok: "registry_ok s"
    and upd: "tasks s' = (tasks s)(i := t)" "nextTaskId s' = nextTaskId s"
    and fresh: "unat (nextTaskId s) \<le> unat i \<Longrightarrow>
                  t = empty_task \<or> t = empty_task\<lparr>state := REFUNDED\<rparr>"
    and dl: "deadline t = deadline (tasks s i)"
    and com: "state t = COMMITTED \<Longrightarrow>
                600 \<le> unat (revealDeadline t) \<and> unat (revealDeadline t) < unat (deadline t)"
    and opn: "state t = OPEN \<Longrightarrow>
                committedWorker t = 0 \<and> commitHash t = 0 \<and> revealDeadline t = 0"
  shows "registry_ok s'"
  unfolding registry_ok_def
proof (intro allI)
  fix j
  show "(unat (nextTaskId s') \<le> unat j \<longrightarrow>
        tasks s' j = empty_task \<or> tasks s' j = empty_task\<lparr>state := REFUNDED\<rparr>) \<and>
     (unat j < unat (nextTaskId s') \<longrightarrow> 600 < unat (deadline (tasks s' j))) \<and>
     (state (tasks s' j) = COMMITTED \<longrightarrow>
        600 \<le> unat (revealDeadline (tasks s' j)) \<and>
        unat (revealDeadline (tasks s' j)) < unat (deadline (tasks s' j))) \<and>
     (state (tasks s' j) = OPEN \<longrightarrow>
        committedWorker (tasks s' j) = 0 \<and> commitHash (tasks s' j) = 0 \<and>
        revealDeadline (tasks s' j) = 0)"
  proof (cases "j = i")
    case True
    with ok [unfolded registry_ok_def, rule_format, of i] fresh dl com opn
    show ?thesis by (simp add: upd)
  next
    case False
    with ok [unfolded registry_ok_def, rule_format, of j]
    show ?thesis by (simp add: upd)
  qed
qed

lemma fresh_slot_not_committed:
  assumes "registry_ok s" and "unat (nextTaskId s) \<le> unat i"
  shows "state (tasks s i) \<noteq> COMMITTED" and "deadline (tasks s i) = 0"
    and "amount (tasks s i) = 0" and "bondAmount (tasks s i) = 0"
    and "requester (tasks s i) = 0"
  using assms(1) [unfolded registry_ok_def, rule_format, of i] assms(2)
  by (auto simp: empty_task_def)

lemma registry_ok_commit:
  assumes "commit d m i h s = Inr s'" and ok: "registry_ok s"
  shows "registry_ok s'"
proof -
  from assms(1) obtain l where
    win: "unat (timestamp m) + 600 < unat (deadline (tasks s i))" and
    s': "s' = s\<lparr>tasks := (tasks s)(i := (tasks s i)\<lparr>state := COMMITTED,
                  committedWorker := sender m, commitHash := h,
                  revealDeadline := timestamp m + REVEAL_WINDOW\<rparr>),
                ledger := l,
                events := events s @ [TaskCommitted i (sender m) h (bondAmount (tasks s i))
                  (timestamp m + REVEAL_WINDOW)]\<rparr>"
    unfolding commit_Inr_iff by blast
  have created: "\<not> unat (nextTaskId s) \<le> unat i"
    using fresh_slot_not_committed(2) [OF ok, of i] win by auto
  have "unat (timestamp m) + 600 < 2 ^ 256"
    using win unat_lt_max [of "deadline (tasks s i)"] by simp
  then have rd: "unat (timestamp m + REVEAL_WINDOW) = unat (timestamp m) + 600"
    by (simp add: unat_plus_no_wrap unat_REVEAL_WINDOW)
  show ?thesis
    by (rule registry_ok_update [OF ok, where i = i and t = "(tasks s i)\<lparr>state := COMMITTED,
                  committedWorker := sender m, commitHash := h,
                  revealDeadline := timestamp m + REVEAL_WINDOW\<rparr>"])
      (use created win rd in \<open>simp_all add: s'\<close>)
qed

lemma registry_ok_reveal:
  assumes "reveal d m i out salt s = Inr s'" and ok: "registry_ok s"
  shows "registry_ok s'"
proof -
  from assms(1) obtain l where
    st: "state (tasks s i) = COMMITTED" and
    s': "s' = s\<lparr>tasks := (tasks s)(i := (tasks s i)\<lparr>state := COMPLETED\<rparr>), ledger := l,
                events := events s @ [TaskCompleted i (sender m) out]\<rparr>"
    unfolding reveal_Inr_iff by blast
  have created: "\<not> unat (nextTaskId s) \<le> unat i"
    using fresh_slot_not_committed(1) [OF ok, of i] st by auto
  show ?thesis
    by (rule registry_ok_update [OF ok, where i = i and t = "(tasks s i)\<lparr>state := COMPLETED\<rparr>"])
      (use created in \<open>simp_all add: s'\<close>)
qed

lemma registry_ok_expireCommit:
  assumes "expireCommit d m i s = Inr s'" and ok: "registry_ok s"
  shows "registry_ok s'"
proof -
  from assms(1) obtain l where
    st: "state (tasks s i) = COMMITTED" and
    s': "s' = s\<lparr>tasks := (tasks s)(i := (tasks s i)\<lparr>state := OPEN, committedWorker := 0,
                  commitHash := 0, revealDeadline := 0\<rparr>), ledger := l,
                events := events s @ [CommitExpired i (committedWorker (tasks s i))
                  (bondAmount (tasks s i))]\<rparr>"
    unfolding expireCommit_Inr_iff by blast
  have created: "\<not> unat (nextTaskId s) \<le> unat i"
    using fresh_slot_not_committed(1) [OF ok, of i] st by auto
  show ?thesis
    by (rule registry_ok_update [OF ok, where i = i and t = "(tasks s i)\<lparr>state := OPEN,
          committedWorker := 0, commitHash := 0, revealDeadline := 0\<rparr>"])
      (use created in \<open>simp_all add: s'\<close>)
qed

lemma registry_ok_claimTimeout:
  assumes "claimTimeout d m i s = Inr s'" and ok: "registry_ok s"
  shows "registry_ok s'"
proof -
  from assms(1) obtain l where
    st: "state (tasks s i) = OPEN \<or> state (tasks s i) = COMMITTED" and
    s': "s' = s\<lparr>tasks := (tasks s)(i := (tasks s i)\<lparr>state := REFUNDED\<rparr>), ledger := l,
                events := events s @ [TaskRefunded i (requester (tasks s i))
                  (amount (tasks s i))
                  (if state (tasks s i) = COMMITTED then bondAmount (tasks s i) else 0)]\<rparr>"
    unfolding claimTimeout_Inr_iff by blast
  have fresh: "unat (nextTaskId s) \<le> unat i \<Longrightarrow> tasks s i = empty_task"
    using ok [unfolded registry_ok_def, rule_format, of i] st by auto
  show ?thesis
    by (rule registry_ok_update [OF ok, where i = i and t = "(tasks s i)\<lparr>state := REFUNDED\<rparr>"])
      (use fresh in \<open>simp_all add: s'\<close>)
qed

lemma registry_ok_step:
  assumes "registry_ok s"
  shows "registry_ok (step d x s)"
proof (cases "exec d (fst x) (snd x) s")
  case (Inl e)
  with assms show ?thesis by (simp add: step_def)
next
  case (Inr s')
  then have eq: "step d x s = s'" by (simp add: step_def)
  show ?thesis
  proof (cases "snd x")
    case (CreateTask inp eoh sph a b dl)
    with Inr obtain tid where "createTask d (fst x) inp eoh sph a b dl s = Inr (tid, s')"
      by (auto split: sum.splits)
    then show ?thesis using assms eq registry_ok_createTask by metis
  next
    case (Commit i h)
    with Inr assms eq show ?thesis by (auto intro: registry_ok_commit)
  next
    case (Reveal i out salt)
    with Inr assms eq show ?thesis by (auto intro: registry_ok_reveal)
  next
    case (ExpireCommit i)
    with Inr assms eq show ?thesis by (auto intro: registry_ok_expireCommit)
  next
    case (ClaimTimeout i)
    with Inr assms eq show ?thesis by (auto intro: registry_ok_claimTimeout)
  next
    case (TokenActivity f)
    with Inr have "s' = s\<lparr>ledger := f (ledger s)\<rparr>" by auto
    with assms eq show ?thesis by (simp add: registry_ok_def)
  qed
qed

lemma registry_ok_run:
  assumes "registry_ok s"
  shows "registry_ok (run d txs s)"
  using assms by (induction txs arbitrary: s) (simp_all add: registry_ok_step)

lemma registry_ok_reachable: "registry_ok (run d txs (init l))"
  by (rule registry_ok_run [OF registry_ok_init])

subsection \<open>Sequences of transactions\<close>

lemma exec_task_cases:
  assumes "exec d m c s = Inr s'"
  shows "tasks s' i = tasks s i
    \<or> (\<exists>inp eoh sph a b dl. c = CreateTask inp eoh sph a b dl \<and> i = nextTaskId s \<and>
          state (tasks s' i) = OPEN)
    \<or> (\<exists>h. c = Commit i h \<and> state (tasks s i) = OPEN \<and>
          unat (timestamp m) + 600 < unat (deadline (tasks s i)) \<and>
          tasks s' i = (tasks s i)\<lparr>state := COMMITTED, committedWorker := sender m,
            commitHash := h, revealDeadline := timestamp m + REVEAL_WINDOW\<rparr>)
    \<or> (\<exists>out salt. c = Reveal i out salt \<and> state (tasks s i) = COMMITTED \<and>
          tasks s' i = (tasks s i)\<lparr>state := COMPLETED\<rparr>)
    \<or> (c = ExpireCommit i \<and> state (tasks s i) = COMMITTED \<and>
          tasks s' i = (tasks s i)\<lparr>state := OPEN, committedWorker := 0, commitHash := 0,
            revealDeadline := 0\<rparr>)
    \<or> (c = ClaimTimeout i \<and> (state (tasks s i) = OPEN \<or> state (tasks s i) = COMMITTED) \<and>
          tasks s' i = (tasks s i)\<lparr>state := REFUNDED\<rparr>)"
proof (cases c)
  case (CreateTask inp eoh sph a b dl)
  with assms obtain tid where "createTask d m inp eoh sph a b dl s = Inr (tid, s')"
    by (auto split: sum.splits)
  then show ?thesis
    using CreateTask unfolding createTask_Inr_iff by (cases "i = nextTaskId s") auto
next
  case (Commit j h)
  with assms have "commit d m j h s = Inr s'" by simp
  then show ?thesis
    using Commit unfolding commit_Inr_iff by (cases "i = j") auto
next
  case (Reveal j out salt)
  with assms have "reveal d m j out salt s = Inr s'" by simp
  then show ?thesis
    using Reveal unfolding reveal_Inr_iff by (cases "i = j") auto
next
  case (ExpireCommit j)
  with assms have "expireCommit d m j s = Inr s'" by simp
  then show ?thesis
    using ExpireCommit unfolding expireCommit_Inr_iff by (cases "i = j") auto
next
  case (ClaimTimeout j)
  with assms have "claimTimeout d m j s = Inr s'" by simp
  then show ?thesis
    using ClaimTimeout unfolding claimTimeout_Inr_iff by (cases "i = j") auto
next
  case (TokenActivity f)
  with assms show ?thesis by auto
qed

lemma exec_nextTaskId:
  assumes "exec d m c s = Inr s'"
  shows "unat (nextTaskId s) \<le> unat (nextTaskId s')"
proof (cases c)
  case (CreateTask inp eoh sph a b dl)
  with assms obtain tid where "createTask d m inp eoh sph a b dl s = Inr (tid, s')"
    by (auto split: sum.splits)
  then show ?thesis
    unfolding createTask_Inr_iff by (auto simp: unat_succ)
next
  case (Commit j h)
  with assms show ?thesis by (auto simp: commit_Inr_iff)
next
  case (Reveal j out salt)
  with assms show ?thesis by (auto simp: reveal_Inr_iff)
next
  case (ExpireCommit j)
  with assms show ?thesis by (auto simp: expireCommit_Inr_iff)
next
  case (ClaimTimeout j)
  with assms show ?thesis by (auto simp: claimTimeout_Inr_iff)
next
  case (TokenActivity f)
  with assms show ?thesis by auto
qed

lemma step_cases:
  obtains (reverted) e where "exec d (fst x) (snd x) s = Inl e" and "step d x s = s"
  | (succeeded) s' where "exec d (fst x) (snd x) s = Inr s'" and "step d x s = s'"
  by (cases "exec d (fst x) (snd x) s") (auto simp: step_def)

lemma terminal_step:
  assumes "unat i < unat (nextTaskId s)"
    and "state (tasks s i) = COMPLETED \<or> state (tasks s i) = REFUNDED"
  shows "tasks (step d x s) i = tasks s i \<and> unat i < unat (nextTaskId (step d x s))"
proof (cases rule: step_cases [of d x s])
  case (reverted e)
  with assms show ?thesis by simp
next
  case (succeeded s')
  have "i \<noteq> nextTaskId s" using assms(1) by auto
  with exec_task_cases [OF succeeded(1), of i] assms(2) have "tasks s' i = tasks s i"
    by auto
  moreover have "unat i < unat (nextTaskId s')"
    using exec_nextTaskId [OF succeeded(1)] assms(1) by simp
  ultimately show ?thesis by (simp add: succeeded(2))
qed

lemma terminal_run:
  assumes "unat i < unat (nextTaskId s)"
    and "state (tasks s i) = COMPLETED \<or> state (tasks s i) = REFUNDED"
  shows "tasks (run d txs s) i = tasks s i \<and> unat i < unat (nextTaskId (run d txs s))"
  using assms
proof (induction txs arbitrary: s)
  case Nil
  then show ?case by simp
next
  case (Cons x xs)
  from terminal_step [OF Cons.prems, of d x]
  have keep: "tasks (step d x s) i = tasks s i" and lt: "unat i < unat (nextTaskId (step d x s))"
    by simp_all
  from Cons.prems(2) keep
  have "state (tasks (step d x s) i) = COMPLETED \<or> state (tasks (step d x s) i) = REFUNDED"
    by simp
  from Cons.IH [OF lt this] keep show ?case by simp
qed

lemma terminal_calls_fail:
  assumes "state (tasks s i) = COMPLETED \<or> state (tasks s i) = REFUNDED"
  shows "reveal d m i out salt s =
           Inl (if 4096 < length out then OutputTooLarge else TaskNotCommitted)"
    and "expireCommit d m i s = Inl TaskNotCommitted"
    and "claimTimeout d m i s = Inl TaskAlreadyFinalized"
    and "commit d m i h s = Inl TaskNotOpen"
  using assms
  by (auto simp: reveal_def expireCommit_def claimTimeout_def commit_def unat_MAX_OUTPUT_SIZE)

lemma not_committed_step:
  assumes "state (tasks s i) \<noteq> COMMITTED" and "\<not> is_commit_on i x"
  shows "state (tasks (step d x s) i) \<noteq> COMMITTED"
proof (cases rule: step_cases [of d x s])
  case (reverted e)
  with assms show ?thesis by simp
next
  case (succeeded s')
  from assms(2) have "\<And>h. snd x \<noteq> Commit i h"
    by (cases x) auto
  with exec_task_cases [OF succeeded(1), of i] assms(1) show ?thesis
    by (auto simp: succeeded(2))
qed

lemma settles_step:
  assumes "settles d i x s"
  shows "state (tasks (step d x s) i) \<noteq> COMMITTED"
proof (cases rule: step_cases [of d x s])
  case (reverted e)
  with assms show ?thesis by (simp add: settles_def)
next
  case (succeeded s')
  from assms have tg: "targets (snd x) i"
    by (simp add: settles_def)
  show ?thesis
  proof (cases "snd x")
    case (Reveal j out salt)
    with tg succeeded show ?thesis by (auto simp: reveal_Inr_iff)
  next
    case (ExpireCommit j)
    with tg succeeded show ?thesis by (auto simp: expireCommit_Inr_iff)
  next
    case (ClaimTimeout j)
    with tg succeeded show ?thesis by (auto simp: claimTimeout_Inr_iff)
  qed (use tg in simp_all)
qed

lemma no_settlement_unless_committed:
  assumes "state (tasks s i) \<noteq> COMMITTED" and "list_all (\<lambda>x. \<not> is_commit_on i x) txs"
  shows "settlements d i txs s = 0"
  using assms
proof (induction txs arbitrary: s)
  case Nil
  then show ?case by simp
next
  case (Cons x xs)
  then have "state (tasks (step d x s) i) \<noteq> COMMITTED"
    by (simp add: not_committed_step)
  with Cons show ?case by (simp add: settles_def)
qed

lemma at_most_one_settlement:
  assumes "list_all (\<lambda>x. \<not> is_commit_on i x) txs"
  shows "settlements d i txs s \<le> 1"
  using assms
proof (induction txs arbitrary: s)
  case Nil
  then show ?case by simp
next
  case (Cons x xs)
  show ?case
  proof (cases "settles d i x s")
    case True
    then have "state (tasks (step d x s) i) \<noteq> COMMITTED" by (rule settles_step)
    with Cons.prems have "settlements d i xs (step d x s) = 0"
      by (simp add: no_settlement_unless_committed)
    with True show ?thesis by simp
  next
    case False
    with Cons show ?thesis by simp
  qed
qed

subsection \<open>Histories: what holds after any sequence of transactions\<close>

lemma run_append: "run d (xs @ ys) s = run d ys (run d xs s)"
  by (induction xs arbitrary: s) simp_all

lemma run_snoc: "run d (xs @ [x]) s = step d x (run d xs s)"
  by (simp add: run_append)

lemma open_task_is_clean:
  assumes "state (tasks (run d txs (init l)) i) = OPEN"
  shows "committedWorker (tasks (run d txs (init l)) i) = 0 \<and>
         commitHash (tasks (run d txs (init l)) i) = 0 \<and>
         revealDeadline (tasks (run d txs (init l)) i) = 0"
  using registry_ok_reachable [of d txs l, unfolded registry_ok_def, rule_format, of i] assms
  by simp

lemma leaving_committed:
  assumes "exec d m c s = Inr s'" and "registry_ok s"
    and "state (tasks s i) = COMMITTED" and "state (tasks s' i) \<noteq> COMMITTED"
  shows "(\<exists>out salt. c = Reveal i out salt) \<and> tasks s' i = (tasks s i)\<lparr>state := COMPLETED\<rparr>
       \<or> c = ExpireCommit i \<and> tasks s' i = (tasks s i)\<lparr>state := OPEN, committedWorker := 0,
            commitHash := 0, revealDeadline := 0\<rparr>
       \<or> c = ClaimTimeout i \<and> tasks s' i = (tasks s i)\<lparr>state := REFUNDED\<rparr>"
proof -
  have "i \<noteq> nextTaskId s"
    using fresh_slot_not_committed(1) [OF assms(2), of i] assms(3) by auto
  with exec_task_cases [OF assms(1), of i] assms(3,4) show ?thesis
    by auto
qed

lemma committed_origin:
  assumes "state (tasks (run d txs (init l)) i) = COMMITTED"
  shows "\<exists>m h. (m, Commit i h) \<in> set txs \<and>
           unat (revealDeadline (tasks (run d txs (init l)) i)) = unat (timestamp m) + 600 \<and>
           committedWorker (tasks (run d txs (init l)) i) = sender m \<and>
           commitHash (tasks (run d txs (init l)) i) = h"
  using assms
proof (induction txs rule: rev_induct)
  case Nil
  then show ?case by (simp add: init_def empty_task_def)
next
  case (snoc x xs)
  let ?s = "run d xs (init l)"
  show ?case
  proof (cases rule: step_cases [of d x ?s])
    case (reverted e)
    with snoc show ?thesis by (auto simp: run_snoc)
  next
    case (succeeded s')
    from snoc.prems have com: "state (tasks s' i) = COMMITTED"
      by (simp add: run_snoc succeeded(2))
    from exec_task_cases [OF succeeded(1), of i] com
    consider (same) "tasks s' i = tasks ?s i"
      | (commit) h where "snd x = Commit i h"
          "unat (timestamp (fst x)) + 600 < unat (deadline (tasks ?s i))"
          "tasks s' i = (tasks ?s i)\<lparr>state := COMMITTED, committedWorker := sender (fst x),
            commitHash := h, revealDeadline := timestamp (fst x) + REVEAL_WINDOW\<rparr>"
      by auto
    then show ?thesis
    proof cases
      case same
      with com snoc.IH show ?thesis
        by (auto simp: run_snoc succeeded(2))
    next
      case (commit h)
      have "unat (timestamp (fst x)) + 600 < 2 ^ 256"
        using commit(2) unat_lt_max [of "deadline (tasks ?s i)"] by simp
      then have "unat (timestamp (fst x) + REVEAL_WINDOW) = unat (timestamp (fst x)) + 600"
        by (simp add: unat_plus_no_wrap unat_REVEAL_WINDOW)
      moreover have "x = (fst x, Commit i h)"
        using commit(1) by (cases x) simp
      ultimately show ?thesis
        using commit(3)
        by (intro exI [of _ "fst x"] exI [of _ h]) (simp add: run_snoc succeeded(2))
    qed
  qed
qed

lemma committed_before_deadline:
  assumes "state (tasks (run d txs (init l)) i) = COMMITTED"
  shows "revealDeadline (tasks (run d txs (init l)) i) < deadline (tasks (run d txs (init l)) i)"
  using registry_ok_reachable [of d txs l, unfolded registry_ok_def, rule_format, of i] assms
  by (simp add: word_less_nat_alt)

lemma created_deadline:
  assumes "unat i < unat (nextTaskId (run d txs (init l)))"
  shows "600 < unat (deadline (tasks (run d txs (init l)) i))"
  using registry_ok_reachable [of d txs l, unfolded registry_ok_def, rule_format, of i] assms
  by simp







lemma step_nextTaskId: "unat (nextTaskId s) \<le> unat (nextTaskId (step d x s))"
proof (cases rule: step_cases [of d x s])
  case (reverted e)
  then show ?thesis by simp
next
  case (succeeded s')
  with exec_nextTaskId [OF succeeded(1)] show ?thesis by simp
qed

lemma run_nextTaskId: "unat (nextTaskId s) \<le> unat (nextTaskId (run d txs s))"
proof (induction txs arbitrary: s)
  case Nil
  then show ?case by simp
next
  case (Cons x xs)
  from step_nextTaskId [of s d x] Cons.IH [of "step d x s"] show ?case by simp
qed




subsection \<open>Single calls\<close>

lemma commit_sets_reveal_deadline:
  assumes "commit d m i h s = Inr s'"
  shows "state (tasks s' i) = COMMITTED"
    and "unat (revealDeadline (tasks s' i)) = unat (timestamp m) + 600"
    and "revealDeadline (tasks s' i) < deadline (tasks s' i)"
proof -
  from assms obtain l where
    win: "unat (timestamp m) + 600 < unat (deadline (tasks s i))" and
    s': "s' = s\<lparr>tasks := (tasks s)(i := (tasks s i)\<lparr>state := COMMITTED,
                  committedWorker := sender m, commitHash := h,
                  revealDeadline := timestamp m + REVEAL_WINDOW\<rparr>),
                ledger := l,
                events := events s @ [TaskCommitted i (sender m) h (bondAmount (tasks s i))
                  (timestamp m + REVEAL_WINDOW)]\<rparr>"
    unfolding commit_Inr_iff by blast
  have "unat (timestamp m) + 600 < 2 ^ 256"
    using win unat_lt_max [of "deadline (tasks s i)"] by simp
  then have rd: "unat (timestamp m + REVEAL_WINDOW) = unat (timestamp m) + 600"
    by (simp add: unat_plus_no_wrap unat_REVEAL_WINDOW)
  show "state (tasks s' i) = COMMITTED" by (simp add: s')
  show "unat (revealDeadline (tasks s' i)) = unat (timestamp m) + 600" by (simp add: s' rd)
  show "revealDeadline (tasks s' i) < deadline (tasks s' i)"
    using win by (simp add: s' rd word_less_nat_alt)
qed

lemma late_commit_rejected:
  assumes "state (tasks s i) = OPEN" and "600 \<le> unat (deadline (tasks s i))"
    and "deadline (tasks s i) - REVEAL_WINDOW \<le> timestamp m"
  shows "commit d m i h s = Inl CommitWindowClosed"
  using assms by (simp add: commit_def checked_sub_def unat_REVEAL_WINDOW)

lemma expireCommit_any_caller: "expireCommit d (m\<lparr>sender := a\<rparr>) i s = expireCommit d m i s"
  by (simp add: expireCommit_def Let_def)

lemma claimTimeout_any_caller: "claimTimeout d (m\<lparr>sender := a\<rparr>) i s = claimTimeout d m i s"
  by (simp add: claimTimeout_def Let_def)

lemma createTask_bond_too_small:
  assumes "length inp \<le> 4096" and "a \<noteq> 0" and "unat a * 1000 < 2 ^ 256"
    and "unat b < unat a div 10"
  shows "createTask d m inp eoh sph a b dl s = Inl InvalidBondAmount"
proof -
  have "unat ((a * MIN_BOND_BPS) div 10000) = unat a div 10"
    using assms(3) by (rule unat_bond_floor)
  with assms(4) have "b < (a * MIN_BOND_BPS) div 10000"
    by (simp add: word_less_nat_alt)
  with assms(1-3) show ?thesis
    by (simp add: createTask_def checked_mul_def unat_MAX_INPUT_SIZE unat_MIN_BOND_BPS)
qed

lemma createTask_deadline_too_close:
  assumes "length inp \<le> 4096" and "a \<noteq> 0" and "unat a * 1000 < 2 ^ 256"
    and "unat a div 10 \<le> unat b" and "unat (timestamp m) + 600 < 2 ^ 256"
    and "unat dl \<le> unat (timestamp m) + 600"
  shows "createTask d m inp eoh sph a b dl s = Inl InvalidDeadline"
proof -
  have "unat ((a * MIN_BOND_BPS) div 10000) = unat a div 10"
    using assms(3) by (rule unat_bond_floor)
  with assms(4) have bond: "\<not> b < (a * MIN_BOND_BPS) div 10000"
    by (simp add: word_less_nat_alt)
  have "unat (timestamp m + REVEAL_WINDOW) = unat (timestamp m) + 600"
    using assms(5) by (simp add: unat_plus_no_wrap unat_REVEAL_WINDOW)
  with assms(6) have "dl \<le> timestamp m + REVEAL_WINDOW"
    by (simp add: word_le_nat_alt)
  with assms(1-3,5) bond show ?thesis
    by (simp add: createTask_def checked_mul_def checked_add_def unat_MAX_INPUT_SIZE
        unat_MIN_BOND_BPS unat_REVEAL_WINDOW)
qed

lemma createTask_amount_overflow:
  assumes "length inp \<le> 4096" and "2 ^ 256 \<le> unat a * 1000"
  shows "createTask d m inp eoh sph a b dl s = Inl Panic"
proof -
  from assms(2) have "a \<noteq> 0" by auto
  with assms show ?thesis
    by (simp add: createTask_def checked_mul_def unat_MAX_INPUT_SIZE unat_MIN_BOND_BPS)
qed

lemma five_percent_is_short:
  fixes n k :: nat
  assumes "20 * n = k" and "k \<noteq> 0"
  shows "n < k div 10"
  using assms by presburger

lemma failed_creation_changes_nothing:
  assumes "createTask d m inp eoh sph a b dl s = Inl e"
  shows "step d (m, CreateTask inp eoh sph a b dl) s = s"
  using assms by (simp add: step_def)



subsection \<open>The balance ledger\<close>

lemma ledger_transfer_balances:
  assumes "ledger_transfer c to v l = Some l'" and "c \<noteq> to"
  shows "balanceOf l' to = balanceOf l to + unat v"
    and "balanceOf l' c + unat v = balanceOf l c"
    and "a \<noteq> c \<Longrightarrow> a \<noteq> to \<Longrightarrow> balanceOf l' a = balanceOf l a"
  using assms by (auto simp: ledger_transfer_def move_def split: if_splits)

lemma ledger_transfer_others:
  assumes "ledger_transfer c to v l = Some l'" and "a \<noteq> to"
  shows "balanceOf l' a \<le> balanceOf l a"
  using assms by (auto simp: ledger_transfer_def move_def split: if_splits)

lemma ledger_transferFrom_others:
  assumes "ledger_transferFrom c from to v l = Some l'" and "a \<noteq> to"
  shows "balanceOf l' a \<le> balanceOf l a"
  using assms by (auto simp: ledger_transferFrom_def move_def split: if_splits)

lemma happy_path:
  assumes tok: "mnee d = simple_ledger"
    and parties: "r \<noteq> w" "r \<noteq> escrowAddress d" "w \<noteq> escrowAddress d"
    and sizes: "length inp \<le> 4096" "length out \<le> 4096"
    and t0: "unat t0 + 3600 < 2 ^ 256"
    and t1: "unat t1 + 600 < unat t0 + 3600"
    and t2: "unat t2 \<le> unat t1 + 600"
    and funds: "10 \<le> balanceOf (ledger s) r" "10 \<le> allowance (ledger s) r (escrowAddress d)"
      "1 \<le> balanceOf (ledger s) w" "1 \<le> allowance (ledger s) w (escrowAddress d)"
    and ids: "unat (nextTaskId s) + 1 < 2 ^ 256"
  shows "\<exists>s1 s2 s3.
    createTask d \<lparr>sender = r, timestamp = t0\<rparr> inp (keccak256 d out) sph 10 1 (t0 + 3600) s
      = Inr (nextTaskId s, s1) \<and>
    commit d \<lparr>sender = w, timestamp = t1\<rparr> (nextTaskId s)
      (keccak256 d (abi_encode (keccak256 d out) salt)) s1 = Inr s2 \<and>
    reveal d \<lparr>sender = w, timestamp = t2\<rparr> (nextTaskId s) out salt s2 = Inr s3 \<and>
    state (tasks s3 (nextTaskId s)) = COMPLETED \<and>
    balanceOf (ledger s3) w = balanceOf (ledger s2) w + 11 \<and>
    balanceOf (ledger s3) w = balanceOf (ledger s) w + 10 \<and>
    balanceOf (ledger s3) r + 10 = balanceOf (ledger s) r"
proof -
  let ?e = "escrowAddress d"
  let ?i = "nextTaskId s"
  let ?h = "keccak256 d (abi_encode (keccak256 d out) salt)"
  have dl: "unat (t0 + 3600) = unat t0 + 3600"
    using t0 by (simp add: unat_plus_no_wrap)
  have rd: "unat (t1 + REVEAL_WINDOW) = unat t1 + 600"
    using t0 t1 by (simp add: unat_plus_no_wrap unat_REVEAL_WINDOW)
  define l1 where "l1 = (ledger s)\<lparr>balanceOf := move r ?e 10 (balanceOf (ledger s)),
      allowance := (allowance (ledger s))(r := (allowance (ledger s) r)(?e :=
        allowance (ledger s) r ?e - 10))\<rparr>"
  define t where "t = \<lparr>requester = r, inputHash = keccak256 d inp,
      expectedOutputHash = keccak256 d out, specHash = sph, amount = 10, bondAmount = 1,
      deadline = t0 + 3600, state = OPEN, committedWorker = 0, commitHash = 0,
      revealDeadline = 0\<rparr>"
  define s1 where "s1 = s\<lparr>nextTaskId := ?i + 1, tasks := (tasks s)(?i := t), ledger := l1,
      events := events s @ [TaskCreated ?i r inp (keccak256 d inp) (keccak256 d out) sph
        10 1 (t0 + 3600)]\<rparr>"
  have pull1: "transferFrom (mnee d) ?e r ?e 10 (ledger s) = Some l1"
    using funds by (simp add: tok simple_ledger_def ledger_transferFrom_def l1_def)
  have c1: "createTask d \<lparr>sender = r, timestamp = t0\<rparr> inp (keccak256 d out) sph 10 1
      (t0 + 3600) s = Inr (?i, s1)"
    unfolding createTask_Inr_iff
    using sizes ids t0 pull1 by (simp add: dl s1_def t_def)
  define t' where "t' = t\<lparr>state := COMMITTED, committedWorker := w, commitHash := ?h,
      revealDeadline := t1 + REVEAL_WINDOW\<rparr>"
  define l2 where "l2 = l1\<lparr>balanceOf := move w ?e 1 (balanceOf l1),
      allowance := (allowance l1)(w := (allowance l1 w)(?e := allowance l1 w ?e - 1))\<rparr>"
  define s2 where "s2 = s1\<lparr>tasks := (tasks s1)(?i := t'), ledger := l2,
      events := events s1 @ [TaskCommitted ?i w ?h 1 (t1 + REVEAL_WINDOW)]\<rparr>"
  have task1: "tasks s1 ?i = t" and led1: "ledger s1 = l1"
    by (simp_all add: s1_def)
  have pull2: "transferFrom (mnee d) ?e w ?e 1 l1 = Some l2"
    using funds parties
    by (simp add: tok simple_ledger_def ledger_transferFrom_def l1_def l2_def move_def)
  have c2: "commit d \<lparr>sender = w, timestamp = t1\<rparr> ?i ?h s1 = Inr s2"
    unfolding commit_Inr_iff
    using t1 pull2 by (simp add: task1 led1 t_def dl s2_def t'_def)
  define l3 where "l3 = l2\<lparr>balanceOf := move ?e w 11 (balanceOf l2)\<rparr>"
  define s3 where "s3 = s2\<lparr>tasks := (tasks s2)(?i := t'\<lparr>state := COMPLETED\<rparr>), ledger := l3,
      events := events s2 @ [TaskCompleted ?i w out]\<rparr>"
  have task2: "tasks s2 ?i = t'" and led2: "ledger s2 = l2"
    by (simp_all add: s2_def)
  have held: "11 \<le> balanceOf l2 ?e"
    using parties by (simp add: l2_def l1_def move_def)
  have pay: "transfer (mnee d) ?e w (10 + 1) l2 = Some l3"
    using held by (simp add: tok simple_ledger_def ledger_transfer_def l3_def)
  have c3: "reveal d \<lparr>sender = w, timestamp = t2\<rparr> ?i out salt s2 = Inr s3"
    unfolding reveal_Inr_iff
    using sizes t2 pay
    by (simp add: task2 led2 t'_def t_def rd word_le_nat_alt s3_def)
  have b1: "balanceOf (ledger s3) w = balanceOf (ledger s2) w + 11"
    using parties by (simp add: s3_def l3_def led2 move_def)
  have b2: "balanceOf (ledger s3) w = balanceOf (ledger s) w + 10"
    using parties funds by (simp add: s3_def l3_def l2_def l1_def move_def)
  have b3: "balanceOf (ledger s3) r + 10 = balanceOf (ledger s) r"
    using parties funds by (simp add: s3_def l3_def l2_def l1_def move_def)
  have st: "state (tasks s3 ?i) = COMPLETED"
    by (simp add: s3_def)
  from c1 c2 c3 st b1 b2 b3 show ?thesis by blast
qed

subsection \<open>Solvency on the balance ledger\<close>

text \<open>
  With the balance ledger as the token, after any admissible history from the fresh
  contract the escrow's balance covers what it owes. So the transfer of a payout is
  never refused, and the three paying functions succeed on their guards alone.
\<close>

lemma created_ids_finite: "finite {i :: uint256. unat i < n}"
  by simp

lemma sum_update_member:
  fixes f :: "uint256 \<Rightarrow> Task"
  assumes "j \<in> A" and "finite A"
  shows "sum (\<lambda>i. held ((f(j := t)) i)) A + held (f j) = sum (\<lambda>i. held (f i)) A + held t"
proof -
  have "sum (\<lambda>i. held ((f(j := t)) i)) A = held t + sum (\<lambda>i. held ((f(j := t)) i)) (A - {j})"
    using assms by (simp add: sum.remove)
  moreover have "sum (\<lambda>i. held ((f(j := t)) i)) (A - {j}) = sum (\<lambda>i. held (f i)) (A - {j})"
    by (rule sum.cong) auto
  moreover have "sum (\<lambda>i. held (f i)) A = held (f j) + sum (\<lambda>i. held (f i)) (A - {j})"
    using assms by (simp add: sum.remove)
  ultimately show ?thesis by simp
qed

lemma sum_update_other:
  fixes f :: "uint256 \<Rightarrow> Task"
  assumes "j \<notin> A"
  shows "sum (\<lambda>i. held ((f(j := t)) i)) A = sum (\<lambda>i. held (f i)) A"
  using assms by (intro sum.cong) auto

lemma escrowed_update_created:
  assumes "unat j < unat (nextTaskId s)"
    and "tasks s' = (tasks s)(j := t)" and "nextTaskId s' = nextTaskId s"
  shows "escrowed s' + held (tasks s j) = escrowed s + held t"
  using sum_update_member [of j "{i. unat i < unat (nextTaskId s)}" "tasks s" t] assms
  by (simp add: escrowed_def)

lemma escrowed_update_fresh:
  assumes "\<not> unat j < unat (nextTaskId s)"
    and "tasks s' = (tasks s)(j := t)" and "nextTaskId s' = nextTaskId s"
  shows "escrowed s' = escrowed s"
  using sum_update_other [of j "{i. unat i < unat (nextTaskId s)}" "tasks s" t] assms
  by (simp add: escrowed_def)

lemma held_le_escrowed:
  assumes "unat j < unat (nextTaskId s)"
  shows "held (tasks s j) \<le> escrowed s"
proof -
  have "held (tasks s j) \<le> sum (\<lambda>i. held (tasks s i)) {i. unat i < unat (nextTaskId s)}"
    using assms by (intro member_le_sum) auto
  then show ?thesis by (simp add: escrowed_def)
qed

lemma escrowed_createTask:
  assumes nx: "unat (nextTaskId s) + 1 < 2 ^ 256"
    and "tasks s' = (tasks s)(nextTaskId s := t)" and "nextTaskId s' = nextTaskId s + 1"
  shows "escrowed s' = escrowed s + held t"
proof -
  let ?n = "nextTaskId s"
  let ?A = "{i :: uint256. unat i < unat ?n}"
  have n': "unat (?n + 1) = unat ?n + 1"
    using nx by (rule unat_succ)
  have set: "{i :: uint256. unat i < unat (?n + 1)} = insert ?n ?A"
    by (auto simp: n' unat_eq_iff)
  have "?n \<notin> ?A" by simp
  then have "sum (\<lambda>i. held (((tasks s)(?n := t)) i)) (insert ?n ?A) =
      held t + sum (\<lambda>i. held (((tasks s)(?n := t)) i)) ?A"
    by simp
  moreover have "sum (\<lambda>i. held (((tasks s)(?n := t)) i)) ?A = sum (\<lambda>i. held (tasks s i)) ?A"
    by (rule sum_update_other) simp
  ultimately show ?thesis
    using assms(2,3) by (simp add: escrowed_def set)
qed


lemma pull_raises_balance:
  assumes "transferFrom simple_ledger c from to v l = Some l'" and "from \<noteq> to"
  shows "balanceOf l' to = balanceOf l to + unat v"
  using assms
  by (auto simp: simple_ledger_def ledger_transferFrom_def move_def split: if_splits)

lemma payout_lowers_balance:
  assumes "transfer simple_ledger c to v l = Some l'"
  shows "balanceOf l c \<le> balanceOf l' c + unat v"
  using assms
  by (auto simp: simple_ledger_def ledger_transfer_def move_def split: if_splits)

lemma payout_possible:
  assumes "unat v \<le> balanceOf l c"
  shows "transfer simple_ledger c to v l = Some (l\<lparr>balanceOf := move c to (unat v) (balanceOf l)\<rparr>)"
  using assms by (simp add: simple_ledger_def ledger_transfer_def)

lemma held_cases:
  "state t = OPEN \<Longrightarrow> held t = unat (amount t)"
  "state t = COMMITTED \<Longrightarrow> held t = unat (amount t) + unat (bondAmount t)"
  "state t = COMPLETED \<Longrightarrow> held t = 0"
  "state t = REFUNDED \<Longrightarrow> held t = 0"
  by (simp_all add: held_def)

lemma created_if_committed:
  assumes "registry_ok s" and "state (tasks s i) = COMMITTED"
  shows "unat i < unat (nextTaskId s)"
  using fresh_slot_not_committed(1) [OF assms(1), of i] assms(2) by (meson not_le)

lemma solvent_createTask:
  assumes tok: "mnee d = simple_ledger"
    and sol: "escrowed s \<le> balanceOf (ledger s) (escrowAddress d)"
    and call: "createTask d m inp eoh sph a b dl s = Inr (tid, s')"
    and other: "sender m \<noteq> escrowAddress d"
  shows "escrowed s' \<le> balanceOf (ledger s') (escrowAddress d)"
proof -
  let ?t = "\<lparr>requester = sender m, inputHash = keccak256 d inp, expectedOutputHash = eoh,
      specHash = sph, amount = a, bondAmount = b, deadline = dl, state = OPEN,
      committedWorker = 0, commitHash = 0, revealDeadline = 0\<rparr>"
  from call obtain l where nx: "unat (nextTaskId s) + 1 < 2 ^ 256"
    and pull: "transferFrom (mnee d) (escrowAddress d) (sender m) (escrowAddress d) a (ledger s)
        = Some l"
    and s': "tasks s' = (tasks s)(nextTaskId s := ?t)" "nextTaskId s' = nextTaskId s + 1"
      "ledger s' = l"
    unfolding createTask_Inr_iff by auto
  have "escrowed s' = escrowed s + held ?t"
    using nx s'(1,2) by (rule escrowed_createTask)
  moreover have "held ?t = unat a" by (simp add: held_def)
  moreover have "balanceOf l (escrowAddress d) = balanceOf (ledger s) (escrowAddress d) + unat a"
    using pull other by (simp add: tok pull_raises_balance)
  ultimately show ?thesis using sol by (simp add: s'(3))
qed

lemma solvent_commit:
  assumes tok: "mnee d = simple_ledger" and ok: "registry_ok s"
    and sol: "escrowed s \<le> balanceOf (ledger s) (escrowAddress d)"
    and call: "commit d m i h s = Inr s'"
    and other: "sender m \<noteq> escrowAddress d"
  shows "escrowed s' \<le> balanceOf (ledger s') (escrowAddress d)"
proof -
  let ?t = "(tasks s i)\<lparr>state := COMMITTED, committedWorker := sender m, commitHash := h,
      revealDeadline := timestamp m + REVEAL_WINDOW\<rparr>"
  from call obtain l where st: "state (tasks s i) = OPEN"
    and win: "unat (timestamp m) + 600 < unat (deadline (tasks s i))"
    and pull: "transferFrom (mnee d) (escrowAddress d) (sender m) (escrowAddress d)
        (bondAmount (tasks s i)) (ledger s) = Some l"
    and s': "tasks s' = (tasks s)(i := ?t)" "nextTaskId s' = nextTaskId s" "ledger s' = l"
    unfolding commit_Inr_iff by auto
  have "unat i < unat (nextTaskId s)"
    using fresh_slot_not_committed(2) [OF ok, of i] win by (cases "unat i < unat (nextTaskId s)") auto
  then have "escrowed s' + held (tasks s i) = escrowed s + held ?t"
    using s'(1,2) by (rule escrowed_update_created)
  moreover have "held (tasks s i) = unat (amount (tasks s i))"
    using st by (simp add: held_def)
  moreover have "held ?t = unat (amount (tasks s i)) + unat (bondAmount (tasks s i))"
    by (simp add: held_def)
  moreover have "balanceOf l (escrowAddress d) =
      balanceOf (ledger s) (escrowAddress d) + unat (bondAmount (tasks s i))"
    using pull other by (simp add: tok pull_raises_balance)
  ultimately show ?thesis using sol by (simp add: s'(3))
qed

lemma solvent_reveal:
  assumes tok: "mnee d = simple_ledger" and ok: "registry_ok s"
    and sol: "escrowed s \<le> balanceOf (ledger s) (escrowAddress d)"
    and call: "reveal d m i out salt s = Inr s'"
  shows "escrowed s' \<le> balanceOf (ledger s') (escrowAddress d)"
proof -
  let ?t = "(tasks s i)\<lparr>state := COMPLETED\<rparr>"
  from call obtain l where st: "state (tasks s i) = COMMITTED"
    and fit: "unat (amount (tasks s i)) + unat (bondAmount (tasks s i)) < 2 ^ 256"
    and pay: "transfer (mnee d) (escrowAddress d) (sender m)
        (amount (tasks s i) + bondAmount (tasks s i)) (ledger s) = Some l"
    and s': "tasks s' = (tasks s)(i := ?t)" "nextTaskId s' = nextTaskId s" "ledger s' = l"
    unfolding reveal_Inr_iff by auto
  have "unat i < unat (nextTaskId s)"
    using ok st by (rule created_if_committed)
  then have "escrowed s' + held (tasks s i) = escrowed s + held ?t"
    using s'(1,2) by (rule escrowed_update_created)
  moreover have "held (tasks s i) = unat (amount (tasks s i)) + unat (bondAmount (tasks s i))"
    using st by (simp add: held_def)
  moreover have "held ?t = 0" by (simp add: held_def)
  moreover have "balanceOf (ledger s) (escrowAddress d) \<le> balanceOf l (escrowAddress d) +
      (unat (amount (tasks s i)) + unat (bondAmount (tasks s i)))"
    using payout_lowers_balance [OF pay [unfolded tok]] fit by (simp add: unat_plus_no_wrap)
  ultimately show ?thesis using sol by (simp add: s'(3))
qed

lemma solvent_expireCommit:
  assumes tok: "mnee d = simple_ledger" and ok: "registry_ok s"
    and sol: "escrowed s \<le> balanceOf (ledger s) (escrowAddress d)"
    and call: "expireCommit d m i s = Inr s'"
  shows "escrowed s' \<le> balanceOf (ledger s') (escrowAddress d)"
proof -
  let ?t = "(tasks s i)\<lparr>state := OPEN, committedWorker := 0, commitHash := 0,
      revealDeadline := 0\<rparr>"
  from call obtain l where st: "state (tasks s i) = COMMITTED"
    and pay: "transfer (mnee d) (escrowAddress d) (requester (tasks s i))
        (bondAmount (tasks s i)) (ledger s) = Some l"
    and s': "tasks s' = (tasks s)(i := ?t)" "nextTaskId s' = nextTaskId s" "ledger s' = l"
    unfolding expireCommit_Inr_iff by auto
  have "unat i < unat (nextTaskId s)"
    using ok st by (rule created_if_committed)
  then have "escrowed s' + held (tasks s i) = escrowed s + held ?t"
    using s'(1,2) by (rule escrowed_update_created)
  moreover have "held (tasks s i) = unat (amount (tasks s i)) + unat (bondAmount (tasks s i))"
    using st by (simp add: held_def)
  moreover have "held ?t = unat (amount (tasks s i))" by (simp add: held_def)
  moreover have "balanceOf (ledger s) (escrowAddress d) \<le> balanceOf l (escrowAddress d) +
      unat (bondAmount (tasks s i))"
    using payout_lowers_balance [OF pay [unfolded tok]] by simp
  ultimately show ?thesis using sol by (simp add: s'(3))
qed

lemma solvent_claimTimeout:
  assumes tok: "mnee d = simple_ledger" and ok: "registry_ok s"
    and sol: "escrowed s \<le> balanceOf (ledger s) (escrowAddress d)"
    and call: "claimTimeout d m i s = Inr s'"
  shows "escrowed s' \<le> balanceOf (ledger s') (escrowAddress d)"
proof -
  let ?t = "(tasks s i)\<lparr>state := REFUNDED\<rparr>"
  let ?v = "if state (tasks s i) = COMMITTED
      then amount (tasks s i) + bondAmount (tasks s i) else amount (tasks s i)"
  from call obtain l where st: "state (tasks s i) = OPEN \<or> state (tasks s i) = COMMITTED"
    and fit: "state (tasks s i) = COMMITTED \<longrightarrow>
        unat (amount (tasks s i)) + unat (bondAmount (tasks s i)) < 2 ^ 256"
    and pay: "transfer (mnee d) (escrowAddress d) (requester (tasks s i)) ?v (ledger s) = Some l"
    and s': "tasks s' = (tasks s)(i := ?t)" "nextTaskId s' = nextTaskId s" "ledger s' = l"
    unfolding claimTimeout_Inr_iff by auto
  have v: "unat ?v = held (tasks s i)"
    using st fit by (auto simp: held_def unat_plus_no_wrap)
  have low: "balanceOf (ledger s) (escrowAddress d) \<le> balanceOf l (escrowAddress d) +
      held (tasks s i)"
    using payout_lowers_balance [OF pay [unfolded tok]] v by simp
  have gone: "held ?t = 0" by (simp add: held_def)
  show ?thesis
  proof (cases "unat i < unat (nextTaskId s)")
    case True
    then have "escrowed s' + held (tasks s i) = escrowed s + held ?t"
      using s'(1,2) by (rule escrowed_update_created)
    with low gone sol show ?thesis by (simp add: s'(3))
  next
    case False
    then have same: "escrowed s' = escrowed s"
      using s'(1,2) by (rule escrowed_update_fresh)
    from False have "held (tasks s i) = 0"
      using fresh_slot_not_committed(3) [OF ok, of i] st
        fresh_slot_not_committed(1) [OF ok, of i]
      by (auto simp: held_def)
    with low same sol show ?thesis by (simp add: s'(3))
  qed
qed

lemma solvent_step:
  assumes tok: "mnee d = simple_ledger" and ok: "registry_ok s"
    and sol: "escrowed s \<le> balanceOf (ledger s) (escrowAddress d)"
    and adm: "admissible d x"
  shows "escrowed (step d x s) \<le> balanceOf (ledger (step d x s)) (escrowAddress d)"
proof (cases rule: step_cases [of d x s])
  case (reverted e)
  with sol show ?thesis by simp
next
  case (succeeded s')
  obtain m c where x: "x = (m, c)" by (cases x)
  show ?thesis
  proof (cases c)
    case (CreateTask inp eoh sph a b dl)
    with succeeded(1) x obtain tid where "createTask d m inp eoh sph a b dl s = Inr (tid, s')"
      by (auto split: sum.splits)
    moreover from adm x CreateTask have "sender m \<noteq> escrowAddress d" by simp
    ultimately show ?thesis
      using solvent_createTask [OF tok sol] by (simp add: succeeded(2))
  next
    case (Commit i h)
    with succeeded(1) x have "commit d m i h s = Inr s'" by simp
    moreover from adm x Commit have "sender m \<noteq> escrowAddress d" by simp
    ultimately show ?thesis
      using solvent_commit [OF tok ok sol] by (simp add: succeeded(2))
  next
    case (Reveal i out salt)
    with succeeded(1) x have "reveal d m i out salt s = Inr s'" by simp
    then show ?thesis
      using solvent_reveal [OF tok ok sol] by (simp add: succeeded(2))
  next
    case (ExpireCommit i)
    with succeeded(1) x have "expireCommit d m i s = Inr s'" by simp
    then show ?thesis
      using solvent_expireCommit [OF tok ok sol] by (simp add: succeeded(2))
  next
    case (ClaimTimeout i)
    with succeeded(1) x have "claimTimeout d m i s = Inr s'" by simp
    then show ?thesis
      using solvent_claimTimeout [OF tok ok sol] by (simp add: succeeded(2))
  next
    case (TokenActivity f)
    with succeeded(1) x have s': "s' = s\<lparr>ledger := f (ledger s)\<rparr>" by auto
    from adm x TokenActivity
    have "balanceOf (ledger s) (escrowAddress d) \<le> balanceOf (f (ledger s)) (escrowAddress d)"
      by simp
    with sol show ?thesis
      by (simp add: succeeded(2) s' escrowed_def)
  qed
qed

lemma solvent_run:
  assumes tok: "mnee d = simple_ledger" and "registry_ok s"
    and "escrowed s \<le> balanceOf (ledger s) (escrowAddress d)"
    and "list_all (admissible d) txs"
  shows "escrowed (run d txs s) \<le> balanceOf (ledger (run d txs s)) (escrowAddress d)"
  using assms(2-)
proof (induction txs arbitrary: s)
  case Nil
  then show ?case by simp
next
  case (Cons x xs)
  from Cons.prems have adm: "admissible d x" and rest: "list_all (admissible d) xs"
    by simp_all
  have "registry_ok (step d x s)"
    using Cons.prems(1) by (rule registry_ok_step)
  moreover have "escrowed (step d x s) \<le> balanceOf (ledger (step d x s)) (escrowAddress d)"
    using tok Cons.prems(1,2) adm by (rule solvent_step)
  ultimately show ?case
    using Cons.IH rest by simp
qed

lemma solvent_reachable:
  assumes "mnee d = simple_ledger" and "list_all (admissible d) txs"
  shows "escrowed (run d txs (init l))
           \<le> balanceOf (ledger (run d txs (init l))) (escrowAddress d)"
proof -
  have "escrowed (init l) = 0"
    by (simp add: escrowed_def init_def)
  then show ?thesis
    using solvent_run [OF assms(1) registry_ok_init _ assms(2), of l] by simp
qed


lemma reveal_on_ledger:
  assumes tok: "mnee d = simple_ledger" and adm: "list_all (admissible d) txs"
    and s: "s = run d txs (init l)"
    and fits: "balanceOf (ledger s) (escrowAddress d) < 2 ^ 256"
    and st: "state (tasks s i) = COMMITTED"
    and guards: "sender m = committedWorker (tasks s i)"
      "timestamp m \<le> revealDeadline (tasks s i)" "length out \<le> 4096"
      "keccak256 d (abi_encode (keccak256 d out) salt) = commitHash (tasks s i)"
      "keccak256 d out = expectedOutputHash (tasks s i)"
  shows "reveal d m i out salt s =
    Inr (s\<lparr>tasks := (tasks s)(i := (tasks s i)\<lparr>state := COMPLETED\<rparr>),
           ledger := (ledger s)\<lparr>balanceOf := move (escrowAddress d) (sender m)
             (unat (amount (tasks s i)) + unat (bondAmount (tasks s i))) (balanceOf (ledger s))\<rparr>,
           events := events s @ [TaskCompleted i (sender m) out]\<rparr>)"
proof -
  have ok: "registry_ok s" unfolding s by (rule registry_ok_reachable)
  have sol: "escrowed s \<le> balanceOf (ledger s) (escrowAddress d)"
    unfolding s using tok adm by (rule solvent_reachable)
  have "held (tasks s i) \<le> escrowed s"
    using created_if_committed [OF ok st] by (rule held_le_escrowed)
  with sol st have cover: "unat (amount (tasks s i)) + unat (bondAmount (tasks s i))
      \<le> balanceOf (ledger s) (escrowAddress d)"
    by (simp add: held_def)
  with fits have fit: "unat (amount (tasks s i)) + unat (bondAmount (tasks s i)) < 2 ^ 256"
    by simp
  then have v: "unat (amount (tasks s i) + bondAmount (tasks s i)) =
      unat (amount (tasks s i)) + unat (bondAmount (tasks s i))"
    by (rule unat_plus_no_wrap)
  have "transfer (mnee d) (escrowAddress d) (sender m)
      (amount (tasks s i) + bondAmount (tasks s i)) (ledger s) =
    Some ((ledger s)\<lparr>balanceOf := move (escrowAddress d) (sender m)
      (unat (amount (tasks s i)) + unat (bondAmount (tasks s i))) (balanceOf (ledger s))\<rparr>)"
    using payout_possible [of "amount (tasks s i) + bondAmount (tasks s i)" "ledger s"
        "escrowAddress d" "sender m"] cover
    by (simp add: tok v)
  with st guards fit show ?thesis
    by (simp add: reveal_Inr_iff)
qed

lemma expireCommit_on_ledger:
  assumes tok: "mnee d = simple_ledger" and adm: "list_all (admissible d) txs"
    and s: "s = run d txs (init l)"
    and st: "state (tasks s i) = COMMITTED"
    and guards: "revealDeadline (tasks s i) < timestamp m" "timestamp m \<le> deadline (tasks s i)"
  shows "expireCommit d m i s =
    Inr (s\<lparr>tasks := (tasks s)(i := (tasks s i)\<lparr>state := OPEN, committedWorker := 0,
             commitHash := 0, revealDeadline := 0\<rparr>),
           ledger := (ledger s)\<lparr>balanceOf := move (escrowAddress d) (requester (tasks s i))
             (unat (bondAmount (tasks s i))) (balanceOf (ledger s))\<rparr>,
           events := events s @ [CommitExpired i (committedWorker (tasks s i))
             (bondAmount (tasks s i))]\<rparr>)"
proof -
  have ok: "registry_ok s" unfolding s by (rule registry_ok_reachable)
  have sol: "escrowed s \<le> balanceOf (ledger s) (escrowAddress d)"
    unfolding s using tok adm by (rule solvent_reachable)
  have "held (tasks s i) \<le> escrowed s"
    using created_if_committed [OF ok st] by (rule held_le_escrowed)
  with sol st have cover: "unat (bondAmount (tasks s i)) \<le> balanceOf (ledger s) (escrowAddress d)"
    by (simp add: held_def)
  have "transfer (mnee d) (escrowAddress d) (requester (tasks s i)) (bondAmount (tasks s i))
      (ledger s) =
    Some ((ledger s)\<lparr>balanceOf := move (escrowAddress d) (requester (tasks s i))
      (unat (bondAmount (tasks s i))) (balanceOf (ledger s))\<rparr>)"
    using payout_possible [OF cover] by (simp add: tok)
  with st guards show ?thesis
    by (simp add: expireCommit_Inr_iff)
qed

lemma claimTimeout_on_ledger:
  assumes tok: "mnee d = simple_ledger" and adm: "list_all (admissible d) txs"
    and s: "s = run d txs (init l)"
    and fits: "balanceOf (ledger s) (escrowAddress d) < 2 ^ 256"
    and st: "state (tasks s i) = OPEN \<or> state (tasks s i) = COMMITTED"
    and late: "deadline (tasks s i) < timestamp m"
    and late': "state (tasks s i) = COMMITTED \<longrightarrow> revealDeadline (tasks s i) < timestamp m"
  shows "claimTimeout d m i s =
    Inr (s\<lparr>tasks := (tasks s)(i := (tasks s i)\<lparr>state := REFUNDED\<rparr>),
           ledger := (ledger s)\<lparr>balanceOf := move (escrowAddress d) (requester (tasks s i))
             (held (tasks s i)) (balanceOf (ledger s))\<rparr>,
           events := events s @ [TaskRefunded i (requester (tasks s i)) (amount (tasks s i))
             (if state (tasks s i) = COMMITTED then bondAmount (tasks s i) else 0)]\<rparr>)"
proof -
  let ?v = "if state (tasks s i) = COMMITTED
      then amount (tasks s i) + bondAmount (tasks s i) else amount (tasks s i)"
  have ok: "registry_ok s" unfolding s by (rule registry_ok_reachable)
  have sol: "escrowed s \<le> balanceOf (ledger s) (escrowAddress d)"
    unfolding s using tok adm by (rule solvent_reachable)
  have cover: "held (tasks s i) \<le> balanceOf (ledger s) (escrowAddress d)"
  proof (cases "unat i < unat (nextTaskId s)")
    case True
    then have "held (tasks s i) \<le> escrowed s" by (rule held_le_escrowed)
    with sol show ?thesis by simp
  next
    case False
    then have "held (tasks s i) = 0"
      using fresh_slot_not_committed(3) [OF ok, of i] st
        fresh_slot_not_committed(1) [OF ok, of i]
      by (auto simp: held_def)
    then show ?thesis by simp
  qed
  with fits have fit: "state (tasks s i) = COMMITTED \<longrightarrow>
      unat (amount (tasks s i)) + unat (bondAmount (tasks s i)) < 2 ^ 256"
    by (auto simp: held_def)
  with st have v: "unat ?v = held (tasks s i)"
    by (auto simp: held_def unat_plus_no_wrap)
  have "transfer (mnee d) (escrowAddress d) (requester (tasks s i)) ?v (ledger s) =
    Some ((ledger s)\<lparr>balanceOf := move (escrowAddress d) (requester (tasks s i))
      (held (tasks s i)) (balanceOf (ledger s))\<rparr>)"
    using payout_possible [of ?v "ledger s" "escrowAddress d" "requester (tasks s i)"] cover v
    by (simp add: tok)
  with st late late' fit show ?thesis
    unfolding claimTimeout_Inr_iff by simp
qed

subsection \<open>The scenario states, evaluated\<close>

lemmas constant_defs = REVEAL_WINDOW_def MIN_BOND_BPS_def MAX_INPUT_SIZE_def MAX_OUTPUT_SIZE_def

lemmas arithmetic_defs = checked_add_def checked_sub_def checked_mul_def

lemmas ledger_defs = simple_ledger_def ledger_transfer_def ledger_transferFrom_def move_def

lemmas party_defs = alice_def bob_def mallory_def escrow_addr_def at_def

lemmas function_defs = createTask_def commit_def reveal_def expireCommit_def claimTimeout_def

lemma length_output_X: "length output_X = 1"
  by (simp add: output_X_def)

lemma created_eq:
  "created = \<lparr>tasks = (\<lambda>taskId. empty_task)(0 := \<lparr>requester = alice,
        inputHash = toy_keccak [1, 2, 3], expectedOutputHash = toy_keccak output_X,
        specHash = 5, amount = 10, bondAmount = 1, deadline = 4600, state = OPEN,
        committedWorker = 0, commitHash = 0, revealDeadline = 0\<rparr>),
      nextTaskId = 1,
      ledger = \<lparr>balanceOf = move alice escrow_addr 10 (balanceOf funded),
        allowance = (allowance funded)(alice := (allowance funded alice)(escrow_addr := 990))\<rparr>,
      events = [TaskCreated 0 alice [1, 2, 3] (toy_keccak [1, 2, 3]) (toy_keccak output_X)
        5 10 1 4600]\<rparr>"
  by (simp add: created_def step_def init_def demo_def funded_def Let_def function_defs
      constant_defs arithmetic_defs ledger_defs party_defs)

lemma committed_eq:
  "committed = created\<lparr>tasks := (tasks created)(0 := \<lparr>requester = alice,
        inputHash = toy_keccak [1, 2, 3], expectedOutputHash = toy_keccak output_X,
        specHash = 5, amount = 10, bondAmount = 1, deadline = 4600, state = COMMITTED,
        committedWorker = bob, commitHash = commitment_XS, revealDeadline = 1610\<rparr>),
      ledger := \<lparr>balanceOf = move bob escrow_addr 1 (balanceOf (ledger created)),
        allowance = (allowance (ledger created))(bob := (allowance (ledger created) bob)(escrow_addr := 999))\<rparr>,
      events := events created @ [TaskCommitted 0 bob commitment_XS 1 1610]\<rparr>"
  by (simp add: committed_def step_def created_eq demo_def funded_def Let_def function_defs
      constant_defs arithmetic_defs ledger_defs party_defs)

lemma committed_task:
  "tasks committed 0 = \<lparr>requester = alice,
        inputHash = toy_keccak [1, 2, 3], expectedOutputHash = toy_keccak output_X,
        specHash = 5, amount = 10, bondAmount = 1, deadline = 4600, state = COMMITTED,
        committedWorker = bob, commitHash = commitment_XS, revealDeadline = 1610\<rparr>"
  by (simp add: committed_eq)

lemma completed_eq:
  "completed = committed\<lparr>tasks := (tasks committed)(0 := (tasks committed 0)\<lparr>state := COMPLETED\<rparr>),
      ledger := (ledger committed)\<lparr>balanceOf := move escrow_addr bob 11 (balanceOf (ledger committed))\<rparr>,
      events := events committed @ [TaskCompleted 0 bob output_X]\<rparr>"
  by (simp add: completed_def step_def reveal_def committed_eq created_eq demo_def funded_def
      Let_def constant_defs arithmetic_defs ledger_defs party_defs length_output_X
      commitment_XS_def)

lemma completed_task:
  "tasks completed 0 = \<lparr>requester = alice,
        inputHash = toy_keccak [1, 2, 3], expectedOutputHash = toy_keccak output_X,
        specHash = 5, amount = 10, bondAmount = 1, deadline = 4600, state = COMPLETED,
        committedWorker = bob, commitHash = commitment_XS, revealDeadline = 1610\<rparr>"
  by (simp add: completed_eq committed_eq created_eq)

lemma completed_next: "nextTaskId completed = 1"
  by (simp add: completed_eq committed_eq created_eq)

lemma expire_then_timeout:
  "settlements demo 0 [(at mallory 1700, ExpireCommit 0), (at mallory 5000, ClaimTimeout 0),
      (at bob 5001, Reveal 0 output_X salt_S)] committed = 1"
  by (simp add: settles_def step_def function_defs committed_eq created_eq demo_def funded_def
      Let_def constant_defs arithmetic_defs ledger_defs party_defs length_output_X)

lemma expired_eq:
  "expired = committed\<lparr>tasks := (tasks committed)(0 := (tasks committed 0)\<lparr>state := OPEN,
        committedWorker := 0, commitHash := 0, revealDeadline := 0\<rparr>),
      ledger := (ledger committed)\<lparr>balanceOf := move escrow_addr alice 1 (balanceOf (ledger committed))\<rparr>,
      events := events committed @ [CommitExpired 0 bob 1]\<rparr>"
  by (simp add: expired_def step_def expireCommit_def committed_eq created_eq demo_def
      funded_def Let_def ledger_defs party_defs)

lemma refunded_eq:
  "refunded = committed\<lparr>tasks := (tasks committed)(0 := (tasks committed 0)\<lparr>state := REFUNDED\<rparr>),
      ledger := (ledger committed)\<lparr>balanceOf := move escrow_addr alice 11 (balanceOf (ledger committed))\<rparr>,
      events := events committed @ [TaskRefunded 0 alice 10 1]\<rparr>"
  by (simp add: refunded_def step_def claimTimeout_def committed_eq created_eq demo_def
      funded_def Let_def arithmetic_defs ledger_defs party_defs)

lemma expireCommit_committed:
  "expireCommit demo (at mallory 1700) 0 committed = Inr expired"
  by (simp add: expired_eq expireCommit_def committed_eq created_eq demo_def
      funded_def Let_def ledger_defs party_defs)

lemma claimTimeout_committed:
  "claimTimeout demo (at mallory 5000) 0 committed = Inr refunded"
  by (simp add: refunded_eq claimTimeout_def committed_eq created_eq demo_def
      funded_def Let_def arithmetic_defs ledger_defs party_defs)

lemma expired_history:
  "run demo [(at alice 1000, CreateTask [1, 2, 3] (toy_keccak output_X) 5 10 1 4600),
     (at bob 1010, Commit 0 commitment_XS), (at mallory 1700, ExpireCommit 0)] (init funded)
   = expired"
  by (simp add: expired_def committed_def created_def)

lemma committed_history:
  "run demo [(at alice 1000, CreateTask [1, 2, 3] (toy_keccak output_X) 5 10 1 4600),
     (at bob 1010, Commit 0 commitment_XS)] (init funded) = committed"
  by (simp add: committed_def created_def)

lemma commit_created:
  "commit demo (at bob 1010) 0 commitment_XS created = Inr committed"
  by (simp add: committed_eq commit_def created_eq demo_def funded_def Let_def
      constant_defs arithmetic_defs ledger_defs party_defs)

lemma created_history:
  "run demo [(at alice 1000, CreateTask [1, 2, 3] (toy_keccak output_X) 5 10 1 4600)]
     (init funded) = created"
  by (simp add: created_def)

lemma created_task:
  "tasks created 0 = \<lparr>requester = alice, inputHash = toy_keccak [1, 2, 3],
     expectedOutputHash = toy_keccak output_X, specHash = 5, amount = 10, bondAmount = 1,
     deadline = 4600, state = OPEN, committedWorker = 0, commitHash = 0,
     revealDeadline = 0\<rparr>"
  by (simp add: created_eq)

lemma created_next: "nextTaskId created = 1"
  by (simp add: created_eq)

lemma reveal_committed:
  "reveal demo (at bob 1020) 0 output_X salt_S committed = Inr completed"
  by (simp add: completed_eq reveal_def committed_eq created_eq demo_def funded_def
      Let_def constant_defs arithmetic_defs ledger_defs party_defs length_output_X
      commitment_XS_def)

lemma createTask_init:
  "createTask demo (at alice 1000) [1, 2, 3] (toy_keccak output_X) 5 10 1 4600 (init funded)
     = Inr (0, created)"
  by (simp add: created_eq createTask_def init_def demo_def funded_def Let_def
      constant_defs arithmetic_defs ledger_defs party_defs)

lemma scenario_balances:
  "balanceOf (ledger (init funded)) alice = 1000"
  "balanceOf (ledger (init funded)) bob = 1000"
  "balanceOf (ledger created) alice = 990"
  "balanceOf (ledger committed) bob = 999"
  "balanceOf (ledger completed) bob = 1010"
  "balanceOf (ledger completed) alice = 990"
  "balanceOf (ledger expired) alice = 991"
  "balanceOf (ledger expired) bob = 999"
  "balanceOf (ledger refunded) alice = 1001"
  "balanceOf (ledger refunded) bob = 999"
  by (simp_all add: completed_eq expired_eq refunded_eq committed_eq created_eq init_def
      funded_def move_def party_defs)

lemma recommitted_eq:
  "recommitted = expired\<lparr>tasks := (tasks expired)(0 := (tasks committed 0)\<lparr>state := COMMITTED,
        committedWorker := mallory, commitHash := 7, revealDeadline := 2400\<rparr>),
      ledger := \<lparr>balanceOf = move mallory escrow_addr 1 (balanceOf (ledger expired)),
        allowance = (allowance (ledger expired))(mallory :=
          (allowance (ledger expired) mallory)(escrow_addr := 999))\<rparr>,
      events := events expired @ [TaskCommitted 0 mallory 7 1 2400]\<rparr>"
  by (simp add: recommitted_def step_def commit_def expired_eq committed_eq created_eq demo_def
      funded_def Let_def constant_defs arithmetic_defs ledger_defs party_defs)

lemma commit_expired:
  "commit demo (at mallory 1800) 0 7 expired = Inr recommitted"
  by (simp add: recommitted_eq commit_def expired_eq committed_eq created_eq demo_def
      funded_def Let_def constant_defs arithmetic_defs ledger_defs party_defs)

lemma timed_out_eq:
  "timed_out = created\<lparr>tasks := (tasks created)(0 := (tasks created 0)\<lparr>state := REFUNDED\<rparr>),
      ledger := (ledger created)\<lparr>balanceOf := move escrow_addr alice 10 (balanceOf (ledger created))\<rparr>,
      events := events created @ [TaskRefunded 0 alice 10 0]\<rparr>"
  by (simp add: timed_out_def step_def claimTimeout_def created_eq demo_def
      funded_def Let_def arithmetic_defs ledger_defs party_defs)

lemma claimTimeout_created:
  "claimTimeout demo (at mallory 5000) 0 created = Inr timed_out"
  by (simp add: timed_out_eq claimTimeout_def created_eq demo_def
      funded_def Let_def arithmetic_defs ledger_defs party_defs)

lemma more_balances:
  "balanceOf (ledger committed) alice = 990"
  "balanceOf (ledger committed) mallory = 1000"
  "balanceOf (ledger expired) mallory = 1000"
  "balanceOf (ledger refunded) mallory = 1000"
  "balanceOf (ledger created) mallory = 1000"
  "balanceOf (ledger timed_out) alice = 1000"
  "balanceOf (ledger timed_out) mallory = 1000"
  "balanceOf (ledger recommitted) mallory = 999"
  by (simp_all add: timed_out_eq recommitted_eq expired_eq refunded_eq committed_eq created_eq
      funded_def move_def party_defs)






lemma escrow_balances:
  "balanceOf (ledger created) (escrowAddress demo) = 10"
  "balanceOf (ledger committed) (escrowAddress demo) = 11"
  by (simp_all add: committed_eq created_eq demo_def funded_def move_def party_defs)

lemma admissible_history:
  "list_all (admissible demo)
     [(at alice 1000, CreateTask [1, 2, 3] (toy_keccak output_X) 5 10 1 4600)]"
  "list_all (admissible demo)
     [(at alice 1000, CreateTask [1, 2, 3] (toy_keccak output_X) 5 10 1 4600),
      (at bob 1010, Commit 0 commitment_XS)]"
  by (simp_all add: demo_def party_defs)

lemma self_committed_eq:
  "self_committed = created\<lparr>tasks := (tasks created)(0 := \<lparr>requester = alice,
        inputHash = toy_keccak [1, 2, 3], expectedOutputHash = toy_keccak output_X,
        specHash = 5, amount = 10, bondAmount = 1, deadline = 4600, state = COMMITTED,
        committedWorker = alice, commitHash = commitment_XS, revealDeadline = 1610\<rparr>),
      ledger := \<lparr>balanceOf = move alice escrow_addr 1 (balanceOf (ledger created)),
        allowance = (allowance (ledger created))(alice := (allowance (ledger created) alice)(escrow_addr := 989))\<rparr>,
      events := events created @ [TaskCommitted 0 alice commitment_XS 1 1610]\<rparr>"
  by (simp add: self_committed_def step_def created_eq demo_def funded_def Let_def function_defs
      constant_defs arithmetic_defs ledger_defs party_defs)

lemma self_committed_task:
  "tasks self_committed 0 = \<lparr>requester = alice,
        inputHash = toy_keccak [1, 2, 3], expectedOutputHash = toy_keccak output_X,
        specHash = 5, amount = 10, bondAmount = 1, deadline = 4600, state = COMMITTED,
        committedWorker = alice, commitHash = commitment_XS, revealDeadline = 1610\<rparr>"
  by (simp add: self_committed_eq)

lemma commit_own_task:
  "commit demo (at alice 1010) 0 commitment_XS created = Inr self_committed"
  by (simp add: self_committed_eq commit_def created_eq demo_def funded_def Let_def
      constant_defs arithmetic_defs ledger_defs party_defs)

lemma self_committed_history:
  "run demo [(at alice 1000, CreateTask [1, 2, 3] (toy_keccak output_X) 5 10 1 4600),
     (at alice 1010, Commit 0 commitment_XS)] (init funded) = self_committed"
  by (simp add: self_committed_def created_def)

lemma self_expired_eq:
  "self_expired = self_committed\<lparr>tasks := (tasks self_committed)(0 := (tasks self_committed 0)\<lparr>state := OPEN,
        committedWorker := 0, commitHash := 0, revealDeadline := 0\<rparr>),
      ledger := (ledger self_committed)\<lparr>balanceOf := move escrow_addr alice 1 (balanceOf (ledger self_committed))\<rparr>,
      events := events self_committed @ [CommitExpired 0 alice 1]\<rparr>"
  by (simp add: self_expired_def step_def expireCommit_def self_committed_eq created_eq demo_def
      funded_def Let_def ledger_defs party_defs)

lemma self_refunded_eq:
  "self_refunded = self_committed\<lparr>tasks := (tasks self_committed)(0 := (tasks self_committed 0)\<lparr>state := REFUNDED\<rparr>),
      ledger := (ledger self_committed)\<lparr>balanceOf := move escrow_addr alice 11 (balanceOf (ledger self_committed))\<rparr>,
      events := events self_committed @ [TaskRefunded 0 alice 10 1]\<rparr>"
  by (simp add: self_refunded_def step_def claimTimeout_def self_committed_eq created_eq demo_def
      funded_def Let_def arithmetic_defs ledger_defs party_defs)

lemma expireCommit_self_committed:
  "expireCommit demo (at mallory 1700) 0 self_committed = Inr self_expired"
  by (simp add: self_expired_eq expireCommit_def self_committed_eq created_eq demo_def
      funded_def Let_def ledger_defs party_defs)

lemma claimTimeout_self_committed:
  "claimTimeout demo (at mallory 5000) 0 self_committed = Inr self_refunded"
  by (simp add: self_refunded_eq claimTimeout_def self_committed_eq created_eq demo_def
      funded_def Let_def arithmetic_defs ledger_defs party_defs)

lemma self_balances:
  "balanceOf (ledger self_committed) alice = 989"
  "balanceOf (ledger self_expired) alice = 990"
  "balanceOf (ledger self_refunded) alice = 1000"
  by (simp_all add: self_expired_eq self_refunded_eq self_committed_eq created_eq
      funded_def move_def party_defs)



section \<open>The claims\<close>

subsection \<open>C1: one settlement per commitment, and terminal states are final\<close>

text \<open>
  Claim C1, as stated, says that on a task in a terminal state every later \<open>reveal\<close>
  fails with \<open>TaskNotCommitted\<close>. The code checks the size of the output before it
  looks at the task: a reveal of 4097 bytes on the completed scenario task fails with
  \<open>OutputTooLarge\<close>.
\<close>

theorem oversized_reveal_on_completed_task:
  "state (tasks completed 0) = COMPLETED \<and>
   reveal demo (at bob 1030) 0 (replicate 4097 0) salt_S completed = Inl OutputTooLarge \<and>
   reveal demo (at bob 1030) 0 (replicate 4097 0) salt_S completed \<noteq> Inl TaskNotCommitted"
  by (simp add: completed_task reveal_def unat_MAX_OUTPUT_SIZE)

text \<open>
  Claim C1, amended. (1) For a given commitment at most one of \<open>reveal\<close>,
  \<open>expireCommit\<close> and \<open>claimTimeout\<close> ever settles it: along any sequence of
  transactions that contains no new \<open>commit\<close> to the task, at most one transaction is a
  successful call of one of the three made while the task is COMMITTED. (After an
  \<open>expireCommit\<close> the task is OPEN again and a later \<open>claimTimeout\<close> can still refund
  the payment, but there is no commitment left for it to settle and no bond for it to
  pay.) (2) Once a created task is COMPLETED or REFUNDED its record never changes again,
  whatever transactions follow, and every later call on it fails: \<open>expireCommit\<close> with
  \<open>TaskNotCommitted\<close>, \<open>claimTimeout\<close> with \<open>TaskAlreadyFinalized\<close>, and \<open>reveal\<close>
  with \<open>TaskNotCommitted\<close> when its output is at most 4096 bytes and with
  \<open>OutputTooLarge\<close> otherwise. So no task pays out twice.
\<close>

theorem settled_once_and_for_all:
  "(list_all (\<lambda>x. \<not> is_commit_on i x) txs \<longrightarrow> settlements d i txs s \<le> 1) \<and>
   (unat i < unat (nextTaskId s) \<and>
    (state (tasks s i) = COMPLETED \<or> state (tasks s i) = REFUNDED) \<longrightarrow>
      tasks (run d txs' s) i = tasks s i \<and>
      reveal d m i outputBytes salt (run d txs' s) =
        Inl (if 4096 < length outputBytes then OutputTooLarge else TaskNotCommitted) \<and>
      expireCommit d m i (run d txs' s) = Inl TaskNotCommitted \<and>
      claimTimeout d m i (run d txs' s) = Inl TaskAlreadyFinalized)"
proof (intro conjI impI)
  assume "list_all (\<lambda>x. \<not> is_commit_on i x) txs"
  then show "settlements d i txs s \<le> 1" by (rule at_most_one_settlement)
next
  assume a: "unat i < unat (nextTaskId s) \<and>
    (state (tasks s i) = COMPLETED \<or> state (tasks s i) = REFUNDED)"
  then have keep: "tasks (run d txs' s) i = tasks s i"
    using terminal_run [of i s d txs'] by simp
  with a have fin: "state (tasks (run d txs' s) i) = COMPLETED \<or>
      state (tasks (run d txs' s) i) = REFUNDED" by simp
  show "tasks (run d txs' s) i = tasks s i" by (rule keep)
  show "reveal d m i outputBytes salt (run d txs' s) =
        Inl (if 4096 < length outputBytes then OutputTooLarge else TaskNotCommitted)"
    by (rule terminal_calls_fail(1) [OF fin])
  show "expireCommit d m i (run d txs' s) = Inl TaskNotCommitted"
    by (rule terminal_calls_fail(2) [OF fin])
  show "claimTimeout d m i (run d txs' s) = Inl TaskAlreadyFinalized"
    by (rule terminal_calls_fail(3) [OF fin])
qed

text \<open>
  The witness: on the committed scenario task, an \<open>expireCommit\<close>, a \<open>claimTimeout\<close> and
  a \<open>reveal\<close> in a row settle the commitment exactly once; and the completed scenario
  task is untouched by a \<open>claimTimeout\<close>, a \<open>commit\<close> and the creation of another task,
  after which all three calls still fail.
\<close>

theorem settled_once_and_for_all_witness:
  "list_all (\<lambda>x. \<not> is_commit_on 0 x)
     [(at mallory 1700, ExpireCommit 0), (at mallory 5000, ClaimTimeout 0),
      (at bob 5001, Reveal 0 output_X salt_S)] \<and>
   settlements demo 0 [(at mallory 1700, ExpireCommit 0), (at mallory 5000, ClaimTimeout 0),
      (at bob 5001, Reveal 0 output_X salt_S)] committed = 1 \<and>
   unat (0 :: uint256) < unat (nextTaskId completed) \<and>
   state (tasks completed 0) = COMPLETED \<and>
   tasks (run demo [(at alice 5000, ClaimTimeout 0), (at mallory 5001, Commit 0 7),
      (at alice 5002, CreateTask [] 0 0 10 1 9000)] completed) 0 = tasks completed 0 \<and>
   reveal demo (at bob 5003) 0 output_X salt_S
     (run demo [(at alice 5000, ClaimTimeout 0), (at mallory 5001, Commit 0 7),
      (at alice 5002, CreateTask [] 0 0 10 1 9000)] completed) = Inl TaskNotCommitted \<and>
   expireCommit demo (at bob 5003) 0
     (run demo [(at alice 5000, ClaimTimeout 0), (at mallory 5001, Commit 0 7),
      (at alice 5002, CreateTask [] 0 0 10 1 9000)] completed) = Inl TaskNotCommitted \<and>
   claimTimeout demo (at bob 5003) 0
     (run demo [(at alice 5000, ClaimTimeout 0), (at mallory 5001, Commit 0 7),
      (at alice 5002, CreateTask [] 0 0 10 1 9000)] completed) = Inl TaskAlreadyFinalized"
proof -
  have a: "list_all (\<lambda>x. \<not> is_commit_on 0 x)
     [(at mallory 1700, ExpireCommit 0), (at mallory 5000, ClaimTimeout 0),
      (at bob 5001, Reveal 0 output_X salt_S)]"
    by simp
  have b: "unat (0 :: uint256) < unat (nextTaskId completed) \<and>
      (state (tasks completed 0) = COMPLETED \<or> state (tasks completed 0) = REFUNDED)"
    by (simp add: completed_task completed_next)
  note inst1 = settled_once_and_for_all [where i = 0 and d = demo and s = committed
      and txs = "[(at mallory 1700, ExpireCommit 0), (at mallory 5000, ClaimTimeout 0),
        (at bob 5001, Reveal 0 output_X salt_S)]"]
  note inst2 = settled_once_and_for_all [where i = 0 and d = demo and s = completed
      and txs' = "[(at alice 5000, ClaimTimeout 0), (at mallory 5001, Commit 0 7),
        (at alice 5002, CreateTask [] 0 0 10 1 9000)]"
      and m = "at bob 5003" and outputBytes = output_X and salt = salt_S]
  from inst1 a have c: "settlements demo 0 [(at mallory 1700, ExpireCommit 0),
      (at mallory 5000, ClaimTimeout 0), (at bob 5001, Reveal 0 output_X salt_S)] committed \<le> 1"
    by blast
  from inst2 b have d: "tasks (run demo [(at alice 5000, ClaimTimeout 0), (at mallory 5001, Commit 0 7),
      (at alice 5002, CreateTask [] 0 0 10 1 9000)] completed) 0 = tasks completed 0 \<and>
   reveal demo (at bob 5003) 0 output_X salt_S
     (run demo [(at alice 5000, ClaimTimeout 0), (at mallory 5001, Commit 0 7),
      (at alice 5002, CreateTask [] 0 0 10 1 9000)] completed) =
       Inl (if 4096 < length output_X then OutputTooLarge else TaskNotCommitted) \<and>
   expireCommit demo (at bob 5003) 0
     (run demo [(at alice 5000, ClaimTimeout 0), (at mallory 5001, Commit 0 7),
      (at alice 5002, CreateTask [] 0 0 10 1 9000)] completed) = Inl TaskNotCommitted \<and>
   claimTimeout demo (at bob 5003) 0
     (run demo [(at alice 5000, ClaimTimeout 0), (at mallory 5001, Commit 0 7),
      (at alice 5002, CreateTask [] 0 0 10 1 9000)] completed) = Inl TaskAlreadyFinalized"
    by blast
  have e: "\<not> 4096 < length output_X"
    by (simp add: length_output_X)
  show ?thesis
    using a b c d e expire_then_timeout by (simp add: completed_task)
qed

subsection \<open>C2: the commitment fields when a task leaves COMMITTED\<close>

text \<open>
  Claim C2, as stated, says that \<open>claimTimeout\<close> on a COMMITTED task resets
  \<open>committedWorker\<close>, \<open>commitHash\<close> and \<open>revealDeadline\<close> to zero. The function only sets
  the state: after the timeout of the committed scenario task the record is REFUNDED and
  still names bob, his commitment and the reveal deadline 1610.
\<close>

theorem timeout_keeps_commitment_fields:
  "state (tasks committed 0) = COMMITTED \<and>
   task_after (claimTimeout demo (at mallory 5000) 0 committed) 0 =
     Inr \<lparr>requester = alice, inputHash = toy_keccak [1, 2, 3],
       expectedOutputHash = toy_keccak output_X, specHash = 5, amount = 10, bondAmount = 1,
       deadline = 4600, state = REFUNDED, committedWorker = bob, commitHash = commitment_XS,
       revealDeadline = 1610\<rparr> \<and>
   bob \<noteq> 0"
  by (simp add: claimTimeout_committed task_after_def refunded_eq committed_task bob_def)

text \<open>
  Claim C2, amended. When a task leaves COMMITTED by \<open>expireCommit\<close> (back to OPEN),
  \<open>committedWorker\<close>, \<open>commitHash\<close> and \<open>revealDeadline\<close> are reset to zero. When it
  leaves by \<open>claimTimeout\<close> (to REFUNDED) only the state changes and the three fields keep
  their values, as they do on completion. These are the only ways out of COMMITTED,
  and after any history a task that is OPEN has all three fields zero: the fields are
  populated only while the task is COMMITTED or in a terminal state reached from it.
\<close>

theorem commitment_fields_on_leaving:
  "(expireCommit d m i s = Inr s' \<longrightarrow>
      state (tasks s i) = COMMITTED \<and>
      tasks s' i = (tasks s i)\<lparr>state := OPEN, committedWorker := 0, commitHash := 0,
        revealDeadline := 0\<rparr>) \<and>
   (claimTimeout d m i s = Inr s' \<longrightarrow> tasks s' i = (tasks s i)\<lparr>state := REFUNDED\<rparr>) \<and>
   (exec d m c (run d txs (init l)) = Inr s' \<and>
    state (tasks (run d txs (init l)) i) = COMMITTED \<and> state (tasks s' i) \<noteq> COMMITTED \<longrightarrow>
      (\<exists>out salt. c = Reveal i out salt) \<and>
        tasks s' i = (tasks (run d txs (init l)) i)\<lparr>state := COMPLETED\<rparr>
      \<or> c = ExpireCommit i \<and>
        tasks s' i = (tasks (run d txs (init l)) i)\<lparr>state := OPEN, committedWorker := 0,
          commitHash := 0, revealDeadline := 0\<rparr>
      \<or> c = ClaimTimeout i \<and>
        tasks s' i = (tasks (run d txs (init l)) i)\<lparr>state := REFUNDED\<rparr>) \<and>
   (state (tasks (run d txs (init l)) i) = OPEN \<longrightarrow>
      committedWorker (tasks (run d txs (init l)) i) = 0 \<and>
      commitHash (tasks (run d txs (init l)) i) = 0 \<and>
      revealDeadline (tasks (run d txs (init l)) i) = 0)"
proof (intro conjI impI)
  assume "expireCommit d m i s = Inr s'"
  then show "state (tasks s i) = COMMITTED"
    and "tasks s' i = (tasks s i)\<lparr>state := OPEN, committedWorker := 0, commitHash := 0,
        revealDeadline := 0\<rparr>"
    by (auto simp: expireCommit_Inr_iff)
next
  assume "claimTimeout d m i s = Inr s'"
  then show "tasks s' i = (tasks s i)\<lparr>state := REFUNDED\<rparr>"
    by (auto simp: claimTimeout_Inr_iff)
next
  assume "exec d m c (run d txs (init l)) = Inr s' \<and>
    state (tasks (run d txs (init l)) i) = COMMITTED \<and> state (tasks s' i) \<noteq> COMMITTED"
  then show "(\<exists>out salt. c = Reveal i out salt) \<and>
        tasks s' i = (tasks (run d txs (init l)) i)\<lparr>state := COMPLETED\<rparr>
      \<or> c = ExpireCommit i \<and>
        tasks s' i = (tasks (run d txs (init l)) i)\<lparr>state := OPEN, committedWorker := 0,
          commitHash := 0, revealDeadline := 0\<rparr>
      \<or> c = ClaimTimeout i \<and>
        tasks s' i = (tasks (run d txs (init l)) i)\<lparr>state := REFUNDED\<rparr>"
    using leaving_committed [OF _ registry_ok_reachable [of d txs l], of d m c s' i] by blast
next
  assume "state (tasks (run d txs (init l)) i) = OPEN"
  then show "committedWorker (tasks (run d txs (init l)) i) = 0"
    and "commitHash (tasks (run d txs (init l)) i) = 0"
    and "revealDeadline (tasks (run d txs (init l)) i) = 0"
    using open_task_is_clean [of d txs l i] by simp_all
qed

text \<open>
  The witness: the committed scenario task, expired at 1700 or timed out at 5000.
\<close>

theorem commitment_fields_on_leaving_witness:
  "expireCommit demo (at mallory 1700) 0 committed = Inr expired \<and>
   state (tasks committed 0) = COMMITTED \<and>
   tasks expired 0 = (tasks committed 0)\<lparr>state := OPEN, committedWorker := 0,
     commitHash := 0, revealDeadline := 0\<rparr> \<and>
   claimTimeout demo (at mallory 5000) 0 committed = Inr refunded \<and>
   tasks refunded 0 = (tasks committed 0)\<lparr>state := REFUNDED\<rparr> \<and>
   committedWorker (tasks refunded 0) = bob \<and>
   exec demo (at mallory 5000) (ClaimTimeout 0)
     (run demo [(at alice 1000, CreateTask [1, 2, 3] (toy_keccak output_X) 5 10 1 4600),
       (at bob 1010, Commit 0 commitment_XS)] (init funded)) = Inr refunded \<and>
   state (tasks refunded 0) \<noteq> COMMITTED \<and>
   tasks refunded 0 =
     (tasks (run demo [(at alice 1000, CreateTask [1, 2, 3] (toy_keccak output_X) 5 10 1 4600),
       (at bob 1010, Commit 0 commitment_XS)] (init funded)) 0)\<lparr>state := REFUNDED\<rparr> \<and>
   state (tasks (run demo [(at alice 1000, CreateTask [1, 2, 3] (toy_keccak output_X) 5 10 1 4600),
     (at bob 1010, Commit 0 commitment_XS), (at mallory 1700, ExpireCommit 0)] (init funded)) 0)
     = OPEN \<and>
   committedWorker (tasks (run demo [(at alice 1000, CreateTask [1, 2, 3] (toy_keccak output_X) 5 10 1 4600),
     (at bob 1010, Commit 0 commitment_XS), (at mallory 1700, ExpireCommit 0)] (init funded)) 0)
     = 0 \<and>
   commitHash (tasks (run demo [(at alice 1000, CreateTask [1, 2, 3] (toy_keccak output_X) 5 10 1 4600),
     (at bob 1010, Commit 0 commitment_XS), (at mallory 1700, ExpireCommit 0)] (init funded)) 0)
     = 0 \<and>
   revealDeadline (tasks (run demo [(at alice 1000, CreateTask [1, 2, 3] (toy_keccak output_X) 5 10 1 4600),
     (at bob 1010, Commit 0 commitment_XS), (at mallory 1700, ExpireCommit 0)] (init funded)) 0)
     = 0"
proof -
  note on_expiry = commitment_fields_on_leaving [where d = demo and m = "at mallory 1700"
      and i = 0 and s = committed and s' = expired, THEN conjunct1, rule_format,
      OF expireCommit_committed]
  note on_timeout = commitment_fields_on_leaving [where d = demo and m = "at mallory 5000"
      and i = 0 and s = committed and s' = refunded, THEN conjunct2, THEN conjunct1,
      rule_format, OF claimTimeout_committed]
  have ex: "exec demo (at mallory 5000) (ClaimTimeout 0)
     (run demo [(at alice 1000, CreateTask [1, 2, 3] (toy_keccak output_X) 5 10 1 4600),
       (at bob 1010, Commit 0 commitment_XS)] (init funded)) = Inr refunded"
    by (simp only: committed_history exec.simps claimTimeout_committed)
  have st: "state (tasks refunded 0) \<noteq> COMMITTED"
    by (simp add: refunded_eq)
  have op: "state (tasks (run demo [(at alice 1000, CreateTask [1, 2, 3] (toy_keccak output_X) 5 10 1 4600),
     (at bob 1010, Commit 0 commitment_XS), (at mallory 1700, ExpireCommit 0)] (init funded)) 0)
     = OPEN"
    by (simp only: expired_history) (simp add: expired_eq)
  note clean = commitment_fields_on_leaving [where d = demo and i = 0 and l = funded
      and txs = "[(at alice 1000, CreateTask [1, 2, 3] (toy_keccak output_X) 5 10 1 4600),
     (at bob 1010, Commit 0 commitment_XS), (at mallory 1700, ExpireCommit 0)]",
      THEN conjunct2, THEN conjunct2, THEN conjunct2, rule_format, OF op]
  have cm: "state (tasks (run demo [(at alice 1000, CreateTask [1, 2, 3] (toy_keccak output_X) 5 10 1 4600),
       (at bob 1010, Commit 0 commitment_XS)] (init funded)) 0) = COMMITTED"
    by (simp only: committed_history) (simp add: committed_task)
  have leave: "tasks refunded 0 =
     (tasks (run demo [(at alice 1000, CreateTask [1, 2, 3] (toy_keccak output_X) 5 10 1 4600),
       (at bob 1010, Commit 0 commitment_XS)] (init funded)) 0)\<lparr>state := REFUNDED\<rparr>"
    using commitment_fields_on_leaving [where d = demo and m = "at mallory 5000"
      and i = 0 and c = "ClaimTimeout 0" and s' = refunded and l = funded
      and txs = "[(at alice 1000, CreateTask [1, 2, 3] (toy_keccak output_X) 5 10 1 4600),
       (at bob 1010, Commit 0 commitment_XS)]", THEN conjunct2, THEN conjunct2,
      THEN conjunct1] ex cm st
    by auto
  have wk: "committedWorker (tasks refunded 0) = bob"
    by (simp add: refunded_eq committed_task)
  show ?thesis
    using on_expiry on_timeout ex st leave op clean wk expireCommit_committed claimTimeout_committed
    by blast
qed

subsection \<open>C3: the reveal deadline of a committed task\<close>

text \<open>
  Claim C3. For every task in state COMMITTED, \<open>revealDeadline\<close> is the time of the commit
  plus 600 seconds and lies strictly before \<open>deadline\<close>, however late the commit was made,
  because \<open>commit\<close> rejects with \<open>CommitWindowClosed\<close> whenever the current time is at
  or after \<open>deadline - REVEAL_WINDOW\<close>. Three parts: (1) every successful \<open>commit\<close>
  leaves the task COMMITTED with \<open>revealDeadline\<close> equal to the current time plus 600,
  without wrap-around, and strictly below \<open>deadline\<close>; (2) after any history from the
  constructor, a task that is COMMITTED carries the sender, the hash and the time plus
  600 of a \<open>commit\<close> transaction of that history, and its \<open>revealDeadline\<close> is strictly
  below its \<open>deadline\<close>; (3) on every created task that is OPEN, a \<open>commit\<close> at or
  after \<open>deadline - REVEAL_WINDOW\<close> is rejected with \<open>CommitWindowClosed\<close> (the
  subtraction does not underflow there: a created task has a deadline beyond 600).
\<close>

theorem reveal_deadline_before_deadline:
  "(commit d m i h s = Inr s' \<longrightarrow>
      state (tasks s' i) = COMMITTED \<and>
      unat (revealDeadline (tasks s' i)) = unat (timestamp m) + 600 \<and>
      revealDeadline (tasks s' i) < deadline (tasks s' i)) \<and>
   (state (tasks (run d txs (init l)) i) = COMMITTED \<longrightarrow>
      (\<exists>m' h'. (m', Commit i h') \<in> set txs \<and>
         unat (revealDeadline (tasks (run d txs (init l)) i)) = unat (timestamp m') + 600 \<and>
         committedWorker (tasks (run d txs (init l)) i) = sender m' \<and>
         commitHash (tasks (run d txs (init l)) i) = h') \<and>
      revealDeadline (tasks (run d txs (init l)) i) < deadline (tasks (run d txs (init l)) i)) \<and>
   (unat i < unat (nextTaskId (run d txs (init l))) \<and>
    state (tasks (run d txs (init l)) i) = OPEN \<and>
    deadline (tasks (run d txs (init l)) i) - REVEAL_WINDOW \<le> timestamp m \<longrightarrow>
      commit d m i h (run d txs (init l)) = Inl CommitWindowClosed)"
proof (intro conjI impI)
  assume "commit d m i h s = Inr s'"
  then show "state (tasks s' i) = COMMITTED"
    and "unat (revealDeadline (tasks s' i)) = unat (timestamp m) + 600"
    and "revealDeadline (tasks s' i) < deadline (tasks s' i)"
    by (rule commit_sets_reveal_deadline)+
next
  assume "state (tasks (run d txs (init l)) i) = COMMITTED"
  then show "\<exists>m' h'. (m', Commit i h') \<in> set txs \<and>
         unat (revealDeadline (tasks (run d txs (init l)) i)) = unat (timestamp m') + 600 \<and>
         committedWorker (tasks (run d txs (init l)) i) = sender m' \<and>
         commitHash (tasks (run d txs (init l)) i) = h'"
    and "revealDeadline (tasks (run d txs (init l)) i) < deadline (tasks (run d txs (init l)) i)"
    by (rule committed_origin, rule committed_before_deadline)
next
  assume a: "unat i < unat (nextTaskId (run d txs (init l))) \<and>
    state (tasks (run d txs (init l)) i) = OPEN \<and>
    deadline (tasks (run d txs (init l)) i) - REVEAL_WINDOW \<le> timestamp m"
  then have "600 \<le> unat (deadline (tasks (run d txs (init l)) i))"
    using created_deadline [of i d txs l] by simp
  with a show "commit d m i h (run d txs (init l)) = Inl CommitWindowClosed"
    by (simp add: late_commit_rejected)
qed

text \<open>
  The witness: the scenario task with deadline 4600. Bob's commit at 1010 sets the reveal
  deadline 1610; a commit at 4000, which is \<open>4600 - 600\<close>, is rejected.
\<close>

theorem reveal_deadline_before_deadline_witness:
  "commit demo (at bob 1010) 0 commitment_XS created = Inr committed \<and>
   state (tasks committed 0) = COMMITTED \<and>
   unat (revealDeadline (tasks committed 0)) = unat (timestamp (at bob 1010)) + 600 \<and>
   revealDeadline (tasks committed 0) = 1610 \<and>
   revealDeadline (tasks committed 0) < deadline (tasks committed 0) \<and>
   state (tasks (run demo [(at alice 1000, CreateTask [1, 2, 3] (toy_keccak output_X) 5 10 1 4600),
     (at bob 1010, Commit 0 commitment_XS)] (init funded)) 0) = COMMITTED \<and>
   revealDeadline (tasks (run demo [(at alice 1000, CreateTask [1, 2, 3] (toy_keccak output_X) 5 10 1 4600),
     (at bob 1010, Commit 0 commitment_XS)] (init funded)) 0)
   < deadline (tasks (run demo [(at alice 1000, CreateTask [1, 2, 3] (toy_keccak output_X) 5 10 1 4600),
     (at bob 1010, Commit 0 commitment_XS)] (init funded)) 0) \<and>
   unat (0 :: uint256) < unat (nextTaskId (run demo
     [(at alice 1000, CreateTask [1, 2, 3] (toy_keccak output_X) 5 10 1 4600)] (init funded))) \<and>
   state (tasks (run demo
     [(at alice 1000, CreateTask [1, 2, 3] (toy_keccak output_X) 5 10 1 4600)] (init funded)) 0)
     = OPEN \<and>
   deadline (tasks (run demo
     [(at alice 1000, CreateTask [1, 2, 3] (toy_keccak output_X) 5 10 1 4600)] (init funded)) 0)
     - REVEAL_WINDOW \<le> timestamp (at bob 4000) \<and>
   commit demo (at bob 4000) 0 commitment_XS (run demo
     [(at alice 1000, CreateTask [1, 2, 3] (toy_keccak output_X) 5 10 1 4600)] (init funded))
     = Inl CommitWindowClosed"
proof -
  note after_commit = reveal_deadline_before_deadline [where d = demo and m = "at bob 1010"
      and i = 0 and h = commitment_XS and s = created and s' = committed, THEN conjunct1,
      rule_format, OF commit_created]
  have cm: "state (tasks (run demo [(at alice 1000, CreateTask [1, 2, 3] (toy_keccak output_X) 5 10 1 4600),
     (at bob 1010, Commit 0 commitment_XS)] (init funded)) 0) = COMMITTED"
    by (simp only: committed_history) (simp add: committed_task)
  note in_history = reveal_deadline_before_deadline [where d = demo and i = 0 and l = funded
      and txs = "[(at alice 1000, CreateTask [1, 2, 3] (toy_keccak output_X) 5 10 1 4600),
     (at bob 1010, Commit 0 commitment_XS)]", THEN conjunct2, THEN conjunct1, rule_format,
      OF cm]
  have late: "unat (0 :: uint256) < unat (nextTaskId (run demo
     [(at alice 1000, CreateTask [1, 2, 3] (toy_keccak output_X) 5 10 1 4600)] (init funded))) \<and>
   state (tasks (run demo
     [(at alice 1000, CreateTask [1, 2, 3] (toy_keccak output_X) 5 10 1 4600)] (init funded)) 0)
     = OPEN \<and>
   deadline (tasks (run demo
     [(at alice 1000, CreateTask [1, 2, 3] (toy_keccak output_X) 5 10 1 4600)] (init funded)) 0)
     - REVEAL_WINDOW \<le> timestamp (at bob 4000)"
    by (simp only: created_history) (simp add: created_task created_next REVEAL_WINDOW_def at_def)
  note rejected = reveal_deadline_before_deadline [where d = demo and m = "at bob 4000"
      and i = 0 and h = commitment_XS and l = funded
      and txs = "[(at alice 1000, CreateTask [1, 2, 3] (toy_keccak output_X) 5 10 1 4600)]",
      THEN conjunct2, THEN conjunct2, rule_format, OF late]
  have rd: "revealDeadline (tasks committed 0) = 1610"
    by (simp add: committed_task)
  show ?thesis
    using after_commit in_history late rejected rd cm commit_created by blast
qed

subsection \<open>C4: a matching reveal pays the worker\<close>

text \<open>
  Claim C4, as stated, ends with: \<open>reveal\<close> is the only operation that ever returns the
  bond to the worker. \<open>commit\<close> does not compare its caller with the requester of the
  task, so the requester can be the committed worker of their own task, and
  \<open>expireCommit\<close> and \<open>claimTimeout\<close> pay the bond to the recorded requester. The
  counterexample: alice commits at time 1010 to the task she created with bond 1, which
  leaves her 989. When mallory expires the commitment at time 1700 alice, the committed
  worker, has 990; when mallory claims the timeout at time 5000 instead, alice has 1000.
\<close>

theorem bond_returns_to_requester_as_worker:
  "self_committed = run demo
     [(at alice 1000, CreateTask [1, 2, 3] (toy_keccak output_X) 5 10 1 4600),
      (at alice 1010, Commit 0 commitment_XS)] (init funded) \<and>
   state (tasks self_committed 0) = COMMITTED \<and>
   committedWorker (tasks self_committed 0) = alice \<and>
   bondAmount (tasks self_committed 0) = 1 \<and>
   balanceOf (ledger self_committed) alice = 989 \<and>
   expireCommit demo (at mallory 1700) 0 self_committed = Inr self_expired \<and>
   balanceOf (ledger self_expired) alice = 990 \<and>
   claimTimeout demo (at mallory 5000) 0 self_committed = Inr self_refunded \<and>
   balanceOf (ledger self_refunded) alice = 1000"
  using self_committed_history [symmetric] expireCommit_self_committed
    claimTimeout_self_committed
  by (simp add: self_committed_task self_balances)

text \<open>
  Claim C4, amended. For a task in state COMMITTED, if the caller is \<open>committedWorker\<close>,
  the current time is at most \<open>revealDeadline\<close>, the output is at most 4096 bytes, the
  hash of the output's hash and the salt is \<open>commitHash\<close> and the output's hash is
  \<open>expectedOutputHash\<close>, then \<open>reveal\<close> makes the task COMPLETED and transfers
  \<open>amount + bondAmount\<close> to the worker in one transfer. \<open>reveal\<close> is the only operation
  that pays the committed worker as such: \<open>expireCommit\<close> and \<open>claimTimeout\<close> pay the
  recorded requester, and \<open>commit\<close> and \<open>createTask\<close> pay nobody. So the bond returns
  to a worker who is not the requester of the task by \<open>reveal\<close> only; a requester who
  committed to their own task, which \<open>commit\<close> allows, gets the bond back from
  \<open>expireCommit\<close> and \<open>claimTimeout\<close> as well.

  The first conjunct is the success of \<open>reveal\<close>: the new world is the old one with the
  task COMPLETED, the completion event, and the token state that one
  \<open>transfer(worker, amount + bondAmount)\<close> from the escrow leads to. The transfer is the
  token's to perform and the sum is computed in checked arithmetic, so the statement
  takes the token's answer \<open>Some l\<close> and the absence of overflow as given; an escrow that
  holds both amounts in an ERC-20 satisfies them.
  The next five conjuncts list the one token call that each successful function makes:
  \<open>reveal\<close> pays the committed worker; \<open>expireCommit\<close> and \<open>claimTimeout\<close> pay the
  recorded requester; \<open>commit\<close> and \<open>createTask\<close> pull funds from the caller into the
  escrow. So the bond goes to the worker in \<open>reveal\<close> only.
  The last conjunct is the concrete scenario on the balance ledger: on any world, with
  enough balance and allowance, creating a task of amount 10 and bond 1 with deadline
  3600 from now, committing to it within the window and revealing the matching output in
  time completes the task, raises the worker's balance by 11 over what it was after the
  commit (by 10 over what it was at the start) and lowers the requester's by 10.
  The closing conjunct discharges the two assumptions of the first one on the balance
  ledger: in a world reached from the fresh contract by an admissible history, where the
  escrow's balance fits 256 bits (as every balance of an ERC-20 does), the guards of the
  claim alone make \<open>reveal\<close> succeed, and \<open>amount + bondAmount\<close> moves from the
  escrow to the worker.
  The remaining conjuncts are about who gets the bond otherwise. \<open>commit\<close> succeeds for
  the requester of the task as for any other caller, and records the requester as the
  committed worker. On the balance ledger a successful \<open>expireCommit\<close> or \<open>claimTimeout\<close>
  does not raise the balance of a committed worker who is not the requester, and a
  successful \<open>commit\<close> or \<open>createTask\<close> raises no balance but the escrow's; when the
  committed worker is the requester, \<open>expireCommit\<close> raises that account's balance by the
  bond and \<open>claimTimeout\<close> by the amount and the bond.
\<close>

theorem reveal_pays_worker:
  "(state (tasks s i) = COMMITTED \<and> sender m = committedWorker (tasks s i) \<and>
    timestamp m \<le> revealDeadline (tasks s i) \<and> length outputBytes \<le> 4096 \<and>
    keccak256 d (abi_encode (keccak256 d outputBytes) salt) = commitHash (tasks s i) \<and>
    keccak256 d outputBytes = expectedOutputHash (tasks s i) \<and>
    unat (amount (tasks s i)) + unat (bondAmount (tasks s i)) < 2 ^ 256 \<and>
    transfer (mnee d) (escrowAddress d) (sender m)
      (amount (tasks s i) + bondAmount (tasks s i)) (ledger s) = Some l \<longrightarrow>
      reveal d m i outputBytes salt s =
        Inr (s\<lparr>tasks := (tasks s)(i := (tasks s i)\<lparr>state := COMPLETED\<rparr>), ledger := l,
               events := events s @ [TaskCompleted i (sender m) outputBytes]\<rparr>)) \<and>
   (reveal d m i outputBytes salt s = Inr s' \<longrightarrow>
      sender m = committedWorker (tasks s i) \<and>
      transfer (mnee d) (escrowAddress d) (committedWorker (tasks s i))
        (amount (tasks s i) + bondAmount (tasks s i)) (ledger s) = Some (ledger s')) \<and>
   (expireCommit d m i s = Inr s' \<longrightarrow>
      transfer (mnee d) (escrowAddress d) (requester (tasks s i)) (bondAmount (tasks s i))
        (ledger s) = Some (ledger s')) \<and>
   (claimTimeout d m i s = Inr s' \<longrightarrow>
      transfer (mnee d) (escrowAddress d) (requester (tasks s i))
        (if state (tasks s i) = COMMITTED then amount (tasks s i) + bondAmount (tasks s i)
         else amount (tasks s i)) (ledger s) = Some (ledger s')) \<and>
   (commit d m i h s = Inr s' \<longrightarrow>
      transferFrom (mnee d) (escrowAddress d) (sender m) (escrowAddress d)
        (bondAmount (tasks s i)) (ledger s) = Some (ledger s')) \<and>
   (createTask d m inputBytes eoh sph a b dl s = Inr (i, s') \<longrightarrow>
      transferFrom (mnee d) (escrowAddress d) (sender m) (escrowAddress d) a (ledger s)
        = Some (ledger s')) \<and>
   (mnee d = simple_ledger \<and> r \<noteq> w \<and> r \<noteq> escrowAddress d \<and> w \<noteq> escrowAddress d \<and>
    length inputBytes \<le> 4096 \<and> length outputBytes \<le> 4096 \<and>
    unat t0 + 3600 < 2 ^ 256 \<and> unat t1 + 600 < unat t0 + 3600 \<and> unat t2 \<le> unat t1 + 600 \<and>
    10 \<le> balanceOf (ledger s) r \<and> 10 \<le> allowance (ledger s) r (escrowAddress d) \<and>
    1 \<le> balanceOf (ledger s) w \<and> 1 \<le> allowance (ledger s) w (escrowAddress d) \<and>
    unat (nextTaskId s) + 1 < 2 ^ 256 \<longrightarrow>
      (\<exists>s1 s2 s3.
        createTask d \<lparr>sender = r, timestamp = t0\<rparr> inputBytes (keccak256 d outputBytes) sph
          10 1 (t0 + 3600) s = Inr (nextTaskId s, s1) \<and>
        commit d \<lparr>sender = w, timestamp = t1\<rparr> (nextTaskId s)
          (keccak256 d (abi_encode (keccak256 d outputBytes) salt)) s1 = Inr s2 \<and>
        reveal d \<lparr>sender = w, timestamp = t2\<rparr> (nextTaskId s) outputBytes salt s2 = Inr s3 \<and>
        state (tasks s3 (nextTaskId s)) = COMPLETED \<and>
        balanceOf (ledger s3) w = balanceOf (ledger s2) w + 11 \<and>
        balanceOf (ledger s3) w = balanceOf (ledger s) w + 10 \<and>
        balanceOf (ledger s3) r + 10 = balanceOf (ledger s) r)) \<and>
   (mnee d = simple_ledger \<and> list_all (admissible d) txs \<and> s = run d txs (init l0) \<and>
    balanceOf (ledger s) (escrowAddress d) < 2 ^ 256 \<and>
    state (tasks s i) = COMMITTED \<and> sender m = committedWorker (tasks s i) \<and>
    timestamp m \<le> revealDeadline (tasks s i) \<and> length outputBytes \<le> 4096 \<and>
    keccak256 d (abi_encode (keccak256 d outputBytes) salt) = commitHash (tasks s i) \<and>
    keccak256 d outputBytes = expectedOutputHash (tasks s i) \<longrightarrow>
      reveal d m i outputBytes salt s =
        Inr (s\<lparr>tasks := (tasks s)(i := (tasks s i)\<lparr>state := COMPLETED\<rparr>),
               ledger := (ledger s)\<lparr>balanceOf := move (escrowAddress d) (sender m)
                 (unat (amount (tasks s i)) + unat (bondAmount (tasks s i)))
                 (balanceOf (ledger s))\<rparr>,
               events := events s @ [TaskCompleted i (sender m) outputBytes]\<rparr>)) \<and>
   (state (tasks s i) = OPEN \<and> sender m = requester (tasks s i) \<and>
    unat (timestamp m) + 600 < unat (deadline (tasks s i)) \<and>
    transferFrom (mnee d) (escrowAddress d) (sender m) (escrowAddress d)
      (bondAmount (tasks s i)) (ledger s) = Some l \<longrightarrow>
      commit d m i h s =
        Inr (s\<lparr>tasks := (tasks s)(i := (tasks s i)\<lparr>state := COMMITTED,
                 committedWorker := requester (tasks s i), commitHash := h,
                 revealDeadline := timestamp m + REVEAL_WINDOW\<rparr>),
               ledger := l,
               events := events s @ [TaskCommitted i (requester (tasks s i)) h
                 (bondAmount (tasks s i)) (timestamp m + REVEAL_WINDOW)]\<rparr>)) \<and>
   (mnee d = simple_ledger \<and> expireCommit d m i s = Inr s' \<and>
    committedWorker (tasks s i) \<noteq> requester (tasks s i) \<longrightarrow>
      balanceOf (ledger s') (committedWorker (tasks s i)) \<le>
        balanceOf (ledger s) (committedWorker (tasks s i))) \<and>
   (mnee d = simple_ledger \<and> claimTimeout d m i s = Inr s' \<and>
    committedWorker (tasks s i) \<noteq> requester (tasks s i) \<longrightarrow>
      balanceOf (ledger s') (committedWorker (tasks s i)) \<le>
        balanceOf (ledger s) (committedWorker (tasks s i))) \<and>
   (mnee d = simple_ledger \<and> commit d m i h s = Inr s' \<and> acc \<noteq> escrowAddress d \<longrightarrow>
      balanceOf (ledger s') acc \<le> balanceOf (ledger s) acc) \<and>
   (mnee d = simple_ledger \<and> createTask d m inputBytes eoh sph a b dl s = Inr (i, s') \<and>
    acc \<noteq> escrowAddress d \<longrightarrow>
      balanceOf (ledger s') acc \<le> balanceOf (ledger s) acc) \<and>
   (mnee d = simple_ledger \<and> expireCommit d m i s = Inr s' \<and>
    committedWorker (tasks s i) = requester (tasks s i) \<and>
    requester (tasks s i) \<noteq> escrowAddress d \<longrightarrow>
      balanceOf (ledger s') (committedWorker (tasks s i)) =
        balanceOf (ledger s) (committedWorker (tasks s i)) + unat (bondAmount (tasks s i))) \<and>
   (mnee d = simple_ledger \<and> claimTimeout d m i s = Inr s' \<and>
    state (tasks s i) = COMMITTED \<and>
    committedWorker (tasks s i) = requester (tasks s i) \<and>
    requester (tasks s i) \<noteq> escrowAddress d \<longrightarrow>
      balanceOf (ledger s') (committedWorker (tasks s i)) =
        balanceOf (ledger s) (committedWorker (tasks s i)) +
        unat (amount (tasks s i)) + unat (bondAmount (tasks s i)))"
proof (intro conjI impI)
  assume "state (tasks s i) = COMMITTED \<and> sender m = committedWorker (tasks s i) \<and>
    timestamp m \<le> revealDeadline (tasks s i) \<and> length outputBytes \<le> 4096 \<and>
    keccak256 d (abi_encode (keccak256 d outputBytes) salt) = commitHash (tasks s i) \<and>
    keccak256 d outputBytes = expectedOutputHash (tasks s i) \<and>
    unat (amount (tasks s i)) + unat (bondAmount (tasks s i)) < 2 ^ 256 \<and>
    transfer (mnee d) (escrowAddress d) (sender m)
      (amount (tasks s i) + bondAmount (tasks s i)) (ledger s) = Some l"
  then show "reveal d m i outputBytes salt s =
        Inr (s\<lparr>tasks := (tasks s)(i := (tasks s i)\<lparr>state := COMPLETED\<rparr>), ledger := l,
               events := events s @ [TaskCompleted i (sender m) outputBytes]\<rparr>)"
    by (auto simp: reveal_Inr_iff)
next
  assume "reveal d m i outputBytes salt s = Inr s'"
  then show "sender m = committedWorker (tasks s i)"
    and "transfer (mnee d) (escrowAddress d) (committedWorker (tasks s i))
        (amount (tasks s i) + bondAmount (tasks s i)) (ledger s) = Some (ledger s')"
    by (auto simp: reveal_Inr_iff)
next
  assume "expireCommit d m i s = Inr s'"
  then show "transfer (mnee d) (escrowAddress d) (requester (tasks s i))
      (bondAmount (tasks s i)) (ledger s) = Some (ledger s')"
    by (auto simp: expireCommit_Inr_iff)
next
  assume "claimTimeout d m i s = Inr s'"
  then show "transfer (mnee d) (escrowAddress d) (requester (tasks s i))
        (if state (tasks s i) = COMMITTED then amount (tasks s i) + bondAmount (tasks s i)
         else amount (tasks s i)) (ledger s) = Some (ledger s')"
    unfolding claimTimeout_Inr_iff by auto
next
  assume "commit d m i h s = Inr s'"
  then show "transferFrom (mnee d) (escrowAddress d) (sender m) (escrowAddress d)
        (bondAmount (tasks s i)) (ledger s) = Some (ledger s')"
    by (auto simp: commit_Inr_iff)
next
  assume "createTask d m inputBytes eoh sph a b dl s = Inr (i, s')"
  then show "transferFrom (mnee d) (escrowAddress d) (sender m) (escrowAddress d) a (ledger s)
        = Some (ledger s')"
    unfolding createTask_Inr_iff by auto
next
  assume "mnee d = simple_ledger \<and> r \<noteq> w \<and> r \<noteq> escrowAddress d \<and> w \<noteq> escrowAddress d \<and>
    length inputBytes \<le> 4096 \<and> length outputBytes \<le> 4096 \<and>
    unat t0 + 3600 < 2 ^ 256 \<and> unat t1 + 600 < unat t0 + 3600 \<and> unat t2 \<le> unat t1 + 600 \<and>
    10 \<le> balanceOf (ledger s) r \<and> 10 \<le> allowance (ledger s) r (escrowAddress d) \<and>
    1 \<le> balanceOf (ledger s) w \<and> 1 \<le> allowance (ledger s) w (escrowAddress d) \<and>
    unat (nextTaskId s) + 1 < 2 ^ 256"
  then show "\<exists>s1 s2 s3.
        createTask d \<lparr>sender = r, timestamp = t0\<rparr> inputBytes (keccak256 d outputBytes) sph
          10 1 (t0 + 3600) s = Inr (nextTaskId s, s1) \<and>
        commit d \<lparr>sender = w, timestamp = t1\<rparr> (nextTaskId s)
          (keccak256 d (abi_encode (keccak256 d outputBytes) salt)) s1 = Inr s2 \<and>
        reveal d \<lparr>sender = w, timestamp = t2\<rparr> (nextTaskId s) outputBytes salt s2 = Inr s3 \<and>
        state (tasks s3 (nextTaskId s)) = COMPLETED \<and>
        balanceOf (ledger s3) w = balanceOf (ledger s2) w + 11 \<and>
        balanceOf (ledger s3) w = balanceOf (ledger s) w + 10 \<and>
        balanceOf (ledger s3) r + 10 = balanceOf (ledger s) r"
    using happy_path [of d r w inputBytes outputBytes t0 t1 t2 s sph salt] by blast
next
  assume "mnee d = simple_ledger \<and> list_all (admissible d) txs \<and> s = run d txs (init l0) \<and>
    balanceOf (ledger s) (escrowAddress d) < 2 ^ 256 \<and>
    state (tasks s i) = COMMITTED \<and> sender m = committedWorker (tasks s i) \<and>
    timestamp m \<le> revealDeadline (tasks s i) \<and> length outputBytes \<le> 4096 \<and>
    keccak256 d (abi_encode (keccak256 d outputBytes) salt) = commitHash (tasks s i) \<and>
    keccak256 d outputBytes = expectedOutputHash (tasks s i)"
  then show "reveal d m i outputBytes salt s =
        Inr (s\<lparr>tasks := (tasks s)(i := (tasks s i)\<lparr>state := COMPLETED\<rparr>),
               ledger := (ledger s)\<lparr>balanceOf := move (escrowAddress d) (sender m)
                 (unat (amount (tasks s i)) + unat (bondAmount (tasks s i)))
                 (balanceOf (ledger s))\<rparr>,
               events := events s @ [TaskCompleted i (sender m) outputBytes]\<rparr>)"
    using reveal_on_ledger [of d txs s l0 i m outputBytes salt] by blast
next
  assume "state (tasks s i) = OPEN \<and> sender m = requester (tasks s i) \<and>
    unat (timestamp m) + 600 < unat (deadline (tasks s i)) \<and>
    transferFrom (mnee d) (escrowAddress d) (sender m) (escrowAddress d)
      (bondAmount (tasks s i)) (ledger s) = Some l"
  then show "commit d m i h s =
        Inr (s\<lparr>tasks := (tasks s)(i := (tasks s i)\<lparr>state := COMMITTED,
                 committedWorker := requester (tasks s i), commitHash := h,
                 revealDeadline := timestamp m + REVEAL_WINDOW\<rparr>),
               ledger := l,
               events := events s @ [TaskCommitted i (requester (tasks s i)) h
                 (bondAmount (tasks s i)) (timestamp m + REVEAL_WINDOW)]\<rparr>)"
    by (auto simp: commit_Inr_iff)
next
  assume a: "mnee d = simple_ledger \<and> expireCommit d m i s = Inr s' \<and>
    committedWorker (tasks s i) \<noteq> requester (tasks s i)"
  show "balanceOf (ledger s') (committedWorker (tasks s i)) \<le>
        balanceOf (ledger s) (committedWorker (tasks s i))"
  proof -
    from a have "ledger_transfer (escrowAddress d) (requester (tasks s i))
        (bondAmount (tasks s i)) (ledger s) = Some (ledger s')"
      by (auto simp: expireCommit_Inr_iff simple_ledger_def)
    from ledger_transfer_others [OF this] a show ?thesis by blast
  qed
next
  assume a: "mnee d = simple_ledger \<and> claimTimeout d m i s = Inr s' \<and>
    committedWorker (tasks s i) \<noteq> requester (tasks s i)"
  show "balanceOf (ledger s') (committedWorker (tasks s i)) \<le>
        balanceOf (ledger s) (committedWorker (tasks s i))"
  proof -
    from a have "ledger_transfer (escrowAddress d) (requester (tasks s i))
        (if state (tasks s i) = COMMITTED then amount (tasks s i) + bondAmount (tasks s i)
         else amount (tasks s i)) (ledger s) = Some (ledger s')"
      unfolding claimTimeout_Inr_iff by (auto simp: simple_ledger_def)
    from ledger_transfer_others [OF this] a show ?thesis by blast
  qed
next
  assume a: "mnee d = simple_ledger \<and> commit d m i h s = Inr s' \<and> acc \<noteq> escrowAddress d"
  show "balanceOf (ledger s') acc \<le> balanceOf (ledger s) acc"
  proof -
    from a have "ledger_transferFrom (escrowAddress d) (sender m) (escrowAddress d)
        (bondAmount (tasks s i)) (ledger s) = Some (ledger s')"
      by (auto simp: commit_Inr_iff simple_ledger_def)
    from ledger_transferFrom_others [OF this] a show ?thesis by blast
  qed
next
  assume a: "mnee d = simple_ledger \<and> createTask d m inputBytes eoh sph a b dl s = Inr (i, s') \<and>
    acc \<noteq> escrowAddress d"
  show "balanceOf (ledger s') acc \<le> balanceOf (ledger s) acc"
  proof -
    from a have "ledger_transferFrom (escrowAddress d) (sender m) (escrowAddress d) a
        (ledger s) = Some (ledger s')"
      unfolding createTask_Inr_iff by (auto simp: simple_ledger_def)
    from ledger_transferFrom_others [OF this] a show ?thesis by blast
  qed
next
  assume a: "mnee d = simple_ledger \<and> expireCommit d m i s = Inr s' \<and>
    committedWorker (tasks s i) = requester (tasks s i) \<and>
    requester (tasks s i) \<noteq> escrowAddress d"
  show "balanceOf (ledger s') (committedWorker (tasks s i)) =
        balanceOf (ledger s) (committedWorker (tasks s i)) + unat (bondAmount (tasks s i))"
  proof -
    from a have "ledger_transfer (escrowAddress d) (requester (tasks s i))
        (bondAmount (tasks s i)) (ledger s) = Some (ledger s')"
      by (auto simp: expireCommit_Inr_iff simple_ledger_def)
    from ledger_transfer_balances(1) [OF this] a show ?thesis by auto
  qed
next
  assume a: "mnee d = simple_ledger \<and> claimTimeout d m i s = Inr s' \<and>
    state (tasks s i) = COMMITTED \<and>
    committedWorker (tasks s i) = requester (tasks s i) \<and>
    requester (tasks s i) \<noteq> escrowAddress d"
  show "balanceOf (ledger s') (committedWorker (tasks s i)) =
        balanceOf (ledger s) (committedWorker (tasks s i)) +
        unat (amount (tasks s i)) + unat (bondAmount (tasks s i))"
  proof -
    from a have tr: "ledger_transfer (escrowAddress d) (requester (tasks s i))
        (amount (tasks s i) + bondAmount (tasks s i)) (ledger s) = Some (ledger s')"
      and ov: "unat (amount (tasks s i)) + unat (bondAmount (tasks s i)) < 2 ^ 256"
      unfolding claimTimeout_Inr_iff by (auto simp: simple_ledger_def)
    have "unat (amount (tasks s i) + bondAmount (tasks s i)) =
        unat (amount (tasks s i)) + unat (bondAmount (tasks s i))"
      using ov by (simp add: unat_plus_no_wrap)
    with ledger_transfer_balances(1) [OF tr] a show ?thesis by auto
  qed
qed

text \<open>
  The witness: alice's task, bob's commitment at 1010 and his reveal at 1020, with
  the balances 1000, 999 and 1010 of bob and 1000 and 990 of alice; the expiry and the
  timeout of bob's commitment, which leave bob's balance where it was; and alice's
  commitment to her own task, with its expiry and its timeout.
\<close>

theorem reveal_pays_worker_witness:
  "state (tasks committed 0) = COMMITTED \<and>
   sender (at bob 1020) = committedWorker (tasks committed 0) \<and>
   timestamp (at bob 1020) \<le> revealDeadline (tasks committed 0) \<and>
   length output_X \<le> 4096 \<and>
   keccak256 demo (abi_encode (keccak256 demo output_X) salt_S) = commitHash (tasks committed 0) \<and>
   keccak256 demo output_X = expectedOutputHash (tasks committed 0) \<and>
   unat (amount (tasks committed 0)) + unat (bondAmount (tasks committed 0)) < 2 ^ 256 \<and>
   transfer (mnee demo) (escrowAddress demo) (sender (at bob 1020))
     (amount (tasks committed 0) + bondAmount (tasks committed 0)) (ledger committed)
     = Some (ledger completed) \<and>
   reveal demo (at bob 1020) 0 output_X salt_S committed =
     Inr (committed\<lparr>tasks := (tasks committed)(0 := (tasks committed 0)\<lparr>state := COMPLETED\<rparr>),
       ledger := ledger completed,
       events := events committed @ [TaskCompleted 0 (sender (at bob 1020)) output_X]\<rparr>) \<and>
   reveal demo (at bob 1020) 0 output_X salt_S committed = Inr completed \<and>
   expireCommit demo (at mallory 1700) 0 committed = Inr expired \<and>
   transfer (mnee demo) (escrowAddress demo) (requester (tasks committed 0))
     (bondAmount (tasks committed 0)) (ledger committed) = Some (ledger expired) \<and>
   claimTimeout demo (at mallory 5000) 0 committed = Inr refunded \<and>
   transfer (mnee demo) (escrowAddress demo) (requester (tasks committed 0))
     (amount (tasks committed 0) + bondAmount (tasks committed 0)) (ledger committed)
     = Some (ledger refunded) \<and>
   commit demo (at bob 1010) 0 commitment_XS created = Inr committed \<and>
   transferFrom (mnee demo) (escrowAddress demo) (sender (at bob 1010)) (escrowAddress demo)
     (bondAmount (tasks created 0)) (ledger created) = Some (ledger committed) \<and>
   createTask demo (at alice 1000) [1, 2, 3] (toy_keccak output_X) 5 10 1 4600 (init funded)
     = Inr (0, created) \<and>
   transferFrom (mnee demo) (escrowAddress demo) (sender (at alice 1000)) (escrowAddress demo)
     10 (ledger (init funded)) = Some (ledger created) \<and>
   (\<exists>s1 s2 s3.
      createTask demo \<lparr>sender = alice, timestamp = 1000\<rparr> [1, 2, 3] (keccak256 demo output_X) 5
        10 1 (1000 + 3600) (init funded) = Inr (nextTaskId (init funded), s1) \<and>
      commit demo \<lparr>sender = bob, timestamp = 1010\<rparr> (nextTaskId (init funded))
        (keccak256 demo (abi_encode (keccak256 demo output_X) salt_S)) s1 = Inr s2 \<and>
      reveal demo \<lparr>sender = bob, timestamp = 1020\<rparr> (nextTaskId (init funded)) output_X salt_S
        s2 = Inr s3 \<and>
      state (tasks s3 (nextTaskId (init funded))) = COMPLETED \<and>
      balanceOf (ledger s3) bob = balanceOf (ledger s2) bob + 11 \<and>
      balanceOf (ledger s3) bob = balanceOf (ledger (init funded)) bob + 10 \<and>
      balanceOf (ledger s3) alice + 10 = balanceOf (ledger (init funded)) alice) \<and>
   state (tasks completed 0) = COMPLETED \<and>
   balanceOf (ledger (init funded)) bob = 1000 \<and>
   balanceOf (ledger committed) bob = 999 \<and>
   balanceOf (ledger completed) bob = 1010 \<and>
   balanceOf (ledger (init funded)) alice = 1000 \<and>
   balanceOf (ledger completed) alice = 990 \<and>
   list_all (admissible demo)
     [(at alice 1000, CreateTask [1, 2, 3] (toy_keccak output_X) 5 10 1 4600),
      (at bob 1010, Commit 0 commitment_XS)] \<and>
   committed = run demo
     [(at alice 1000, CreateTask [1, 2, 3] (toy_keccak output_X) 5 10 1 4600),
      (at bob 1010, Commit 0 commitment_XS)] (init funded) \<and>
   balanceOf (ledger committed) (escrowAddress demo) < 2 ^ 256 \<and>
   reveal demo (at bob 1020) 0 output_X salt_S committed =
     Inr (committed\<lparr>tasks := (tasks committed)(0 := (tasks committed 0)\<lparr>state := COMPLETED\<rparr>),
       ledger := (ledger committed)\<lparr>balanceOf := move (escrowAddress demo)
         (sender (at bob 1020))
         (unat (amount (tasks committed 0)) + unat (bondAmount (tasks committed 0)))
         (balanceOf (ledger committed))\<rparr>,
       events := events committed @ [TaskCompleted 0 (sender (at bob 1020)) output_X]\<rparr>) \<and>
   state (tasks created 0) = OPEN \<and> sender (at alice 1010) = requester (tasks created 0) \<and>
   unat (timestamp (at alice 1010)) + 600 < unat (deadline (tasks created 0)) \<and>
   transferFrom (mnee demo) (escrowAddress demo) (sender (at alice 1010)) (escrowAddress demo)
     (bondAmount (tasks created 0)) (ledger created) = Some (ledger self_committed) \<and>
   commit demo (at alice 1010) 0 commitment_XS created =
     Inr (created\<lparr>tasks := (tasks created)(0 := (tasks created 0)\<lparr>state := COMMITTED,
              committedWorker := requester (tasks created 0), commitHash := commitment_XS,
              revealDeadline := timestamp (at alice 1010) + REVEAL_WINDOW\<rparr>),
            ledger := ledger self_committed,
            events := events created @ [TaskCommitted 0 (requester (tasks created 0)) commitment_XS
              (bondAmount (tasks created 0)) (timestamp (at alice 1010) + REVEAL_WINDOW)]\<rparr>) \<and>
   mnee demo = simple_ledger \<and> expireCommit demo (at mallory 1700) 0 committed = Inr expired \<and>
   committedWorker (tasks committed 0) \<noteq> requester (tasks committed 0) \<and>
   balanceOf (ledger expired) (committedWorker (tasks committed 0)) \<le>
     balanceOf (ledger committed) (committedWorker (tasks committed 0)) \<and>
   mnee demo = simple_ledger \<and> claimTimeout demo (at mallory 5000) 0 committed = Inr refunded \<and>
   committedWorker (tasks committed 0) \<noteq> requester (tasks committed 0) \<and>
   balanceOf (ledger refunded) (committedWorker (tasks committed 0)) \<le>
     balanceOf (ledger committed) (committedWorker (tasks committed 0)) \<and>
   mnee demo = simple_ledger \<and> commit demo (at bob 1010) 0 commitment_XS created = Inr committed \<and> alice \<noteq> escrowAddress demo \<and>
   balanceOf (ledger committed) alice \<le> balanceOf (ledger created) alice \<and>
   mnee demo = simple_ledger \<and>
   createTask demo (at alice 1000) [1, 2, 3] (toy_keccak output_X) 5 10 1 4600 (init funded)
     = Inr (0, created) \<and>
   bob \<noteq> escrowAddress demo \<and>
   balanceOf (ledger created) bob \<le> balanceOf (ledger (init funded)) bob \<and>
   mnee demo = simple_ledger \<and> expireCommit demo (at mallory 1700) 0 self_committed = Inr self_expired \<and>
   committedWorker (tasks self_committed 0) = requester (tasks self_committed 0) \<and>
   requester (tasks self_committed 0) \<noteq> escrowAddress demo \<and>
   balanceOf (ledger self_expired) (committedWorker (tasks self_committed 0)) =
     balanceOf (ledger self_committed) (committedWorker (tasks self_committed 0)) + unat (bondAmount (tasks self_committed 0)) \<and>
   mnee demo = simple_ledger \<and> claimTimeout demo (at mallory 5000) 0 self_committed = Inr self_refunded \<and>
   state (tasks self_committed 0) = COMMITTED \<and>
   committedWorker (tasks self_committed 0) = requester (tasks self_committed 0) \<and>
   requester (tasks self_committed 0) \<noteq> escrowAddress demo \<and>
   balanceOf (ledger self_refunded) (committedWorker (tasks self_committed 0)) =
     balanceOf (ledger self_committed) (committedWorker (tasks self_committed 0)) +
     unat (amount (tasks self_committed 0)) + unat (bondAmount (tasks self_committed 0))"
proof -
  have guards: "state (tasks committed 0) = COMMITTED \<and>
    sender (at bob 1020) = committedWorker (tasks committed 0) \<and>
    timestamp (at bob 1020) \<le> revealDeadline (tasks committed 0) \<and>
    length output_X \<le> 4096 \<and>
    keccak256 demo (abi_encode (keccak256 demo output_X) salt_S) = commitHash (tasks committed 0) \<and>
    keccak256 demo output_X = expectedOutputHash (tasks committed 0) \<and>
    unat (amount (tasks committed 0)) + unat (bondAmount (tasks committed 0)) < 2 ^ 256 \<and>
    transfer (mnee demo) (escrowAddress demo) (sender (at bob 1020))
      (amount (tasks committed 0) + bondAmount (tasks committed 0)) (ledger committed)
      = Some (ledger completed)"
    by (simp add: committed_task at_def length_output_X demo_def commitment_XS_def)
      (simp add: completed_eq committed_eq created_eq funded_def ledger_defs party_defs)
  note pays = reveal_pays_worker [where d = demo and m = "at bob 1020" and i = 0
      and s = committed and outputBytes = output_X and salt = salt_S
      and l = "ledger completed", THEN conjunct1, rule_format, OF guards]
  note by_reveal = reveal_pays_worker [where d = demo and m = "at bob 1020" and i = 0
      and s = committed and s' = completed and outputBytes = output_X and salt = salt_S, THEN conjunct2,
      THEN conjunct1, rule_format, OF reveal_committed]
  note by_expiry = reveal_pays_worker [where d = demo and m = "at mallory 1700" and i = 0
      and s = committed and s' = expired, THEN conjunct2, THEN conjunct2, THEN conjunct1, rule_format,
      OF expireCommit_committed]
  note by_timeout = reveal_pays_worker [where d = demo and m = "at mallory 5000" and i = 0
      and s = committed and s' = refunded, THEN conjunct2, THEN conjunct2, THEN conjunct2, THEN conjunct1,
      rule_format, OF claimTimeout_committed]
  note by_commit = reveal_pays_worker [where d = demo and m = "at bob 1010" and i = 0 and h = commitment_XS
      and s = created and s' = committed, THEN conjunct2, THEN conjunct2, THEN conjunct2, THEN conjunct2,
      THEN conjunct1, rule_format, OF commit_created]
  note by_create = reveal_pays_worker [where d = demo and m = "at alice 1000" and i = 0
      and s = "init funded" and s' = created and inputBytes = "[1, 2, 3]"
      and eoh = "toy_keccak output_X" and sph = 5 and a = 10 and b = 1 and dl = 4600, THEN conjunct2,
      THEN conjunct2, THEN conjunct2, THEN conjunct2, THEN conjunct2, THEN conjunct1,
      rule_format, OF createTask_init]
  have prem: "mnee demo = simple_ledger \<and> alice \<noteq> bob \<and> alice \<noteq> escrowAddress demo \<and>
    bob \<noteq> escrowAddress demo \<and> length [1, 2, 3 :: 8 word] \<le> 4096 \<and> length output_X \<le> 4096 \<and>
    unat (1000 :: uint256) + 3600 < 2 ^ 256 \<and>
    unat (1010 :: uint256) + 600 < unat (1000 :: uint256) + 3600 \<and>
    unat (1020 :: uint256) \<le> unat (1010 :: uint256) + 600 \<and>
    10 \<le> balanceOf (ledger (init funded)) alice \<and>
    10 \<le> allowance (ledger (init funded)) alice (escrowAddress demo) \<and>
    1 \<le> balanceOf (ledger (init funded)) bob \<and>
    1 \<le> allowance (ledger (init funded)) bob (escrowAddress demo) \<and>
    unat (nextTaskId (init funded)) + 1 < 2 ^ 256"
    by (simp add: demo_def party_defs length_output_X init_def funded_def)
  note scenario = reveal_pays_worker [where d = demo and r = alice and w = bob and s = "init funded"
      and inputBytes = "[1, 2, 3]" and outputBytes = output_X and salt = salt_S and sph = 5
      and ?t0.0 = 1000 and ?t1.0 = 1010 and ?t2.0 = 1020, THEN conjunct2,
      THEN conjunct2, THEN conjunct2, THEN conjunct2, THEN conjunct2, THEN conjunct2,
      THEN conjunct1, rule_format, OF prem]
  have solvent: "mnee demo = simple_ledger \<and>
    list_all (admissible demo)
      [(at alice 1000, CreateTask [1, 2, 3] (toy_keccak output_X) 5 10 1 4600),
       (at bob 1010, Commit 0 commitment_XS)] \<and>
    committed = run demo
      [(at alice 1000, CreateTask [1, 2, 3] (toy_keccak output_X) 5 10 1 4600),
       (at bob 1010, Commit 0 commitment_XS)] (init funded) \<and>
    balanceOf (ledger committed) (escrowAddress demo) < 2 ^ 256 \<and>
    state (tasks committed 0) = COMMITTED \<and>
    sender (at bob 1020) = committedWorker (tasks committed 0) \<and>
    timestamp (at bob 1020) \<le> revealDeadline (tasks committed 0) \<and>
    length output_X \<le> 4096 \<and>
    keccak256 demo (abi_encode (keccak256 demo output_X) salt_S) = commitHash (tasks committed 0) \<and>
    keccak256 demo output_X = expectedOutputHash (tasks committed 0)"
  proof -
    have "mnee demo = simple_ledger"
      by (simp add: demo_def)
    moreover have "balanceOf (ledger committed) (escrowAddress demo) < 2 ^ 256"
      by (simp add: escrow_balances)
    ultimately show ?thesis
      using guards admissible_history(2) committed_history [symmetric] by blast
  qed
  note unaided = reveal_pays_worker [where d = demo and m = "at bob 1020" and i = 0
      and s = committed and outputBytes = output_X and salt = salt_S and l0 = funded
      and txs = "[(at alice 1000, CreateTask [1, 2, 3] (toy_keccak output_X) 5 10 1 4600),
        (at bob 1010, Commit 0 commitment_XS)]",
      THEN conjunct2, THEN conjunct2, THEN conjunct2, THEN conjunct2, THEN conjunct2,
      THEN conjunct2, THEN conjunct2, THEN conjunct1, rule_format, OF solvent]
  have own_hyp: "state (tasks created 0) = OPEN \<and> sender (at alice 1010) = requester (tasks created 0) \<and>
    unat (timestamp (at alice 1010)) + 600 < unat (deadline (tasks created 0)) \<and>
    transferFrom (mnee demo) (escrowAddress demo) (sender (at alice 1010)) (escrowAddress demo)
      (bondAmount (tasks created 0)) (ledger created) = Some (ledger self_committed)"
    by (simp add: created_task at_def alice_def)
      (simp add: self_committed_eq created_eq demo_def funded_def ledger_defs party_defs)
  note own = reveal_pays_worker [where d = demo and m = "at alice 1010" and i = 0 and h = commitment_XS and s = created
      and l = "ledger self_committed",
      THEN conjunct2, THEN conjunct2, THEN conjunct2, THEN conjunct2, THEN conjunct2, THEN conjunct2, THEN conjunct2, THEN conjunct2, THEN conjunct1, rule_format, OF own_hyp]
  have expiry_hyp: "mnee demo = simple_ledger \<and> expireCommit demo (at mallory 1700) 0 committed = Inr expired \<and>
    committedWorker (tasks committed 0) \<noteq> requester (tasks committed 0)"
    using expireCommit_committed by (simp add: committed_task demo_def party_defs)
  note expiry = reveal_pays_worker [where d = demo and m = "at mallory 1700" and i = 0 and s = committed and s' = expired,
      THEN conjunct2, THEN conjunct2, THEN conjunct2, THEN conjunct2, THEN conjunct2, THEN conjunct2, THEN conjunct2, THEN conjunct2, THEN conjunct2, THEN conjunct1, rule_format, OF expiry_hyp]
  have timeout_hyp: "mnee demo = simple_ledger \<and> claimTimeout demo (at mallory 5000) 0 committed = Inr refunded \<and>
    committedWorker (tasks committed 0) \<noteq> requester (tasks committed 0)"
    using claimTimeout_committed by (simp add: committed_task demo_def party_defs)
  note timeout = reveal_pays_worker [where d = demo and m = "at mallory 5000" and i = 0 and s = committed and s' = refunded,
      THEN conjunct2, THEN conjunct2, THEN conjunct2, THEN conjunct2, THEN conjunct2, THEN conjunct2, THEN conjunct2, THEN conjunct2, THEN conjunct2, THEN conjunct2, THEN conjunct1, rule_format, OF timeout_hyp]
  have pull_hyp: "mnee demo = simple_ledger \<and> commit demo (at bob 1010) 0 commitment_XS created = Inr committed \<and> alice \<noteq> escrowAddress demo"
    using commit_created by (simp add: demo_def party_defs)
  note pull = reveal_pays_worker [where d = demo and m = "at bob 1010" and i = 0 and h = commitment_XS and s = created
      and s' = committed and acc = alice,
      THEN conjunct2, THEN conjunct2, THEN conjunct2, THEN conjunct2, THEN conjunct2, THEN conjunct2, THEN conjunct2, THEN conjunct2, THEN conjunct2, THEN conjunct2, THEN conjunct2, THEN conjunct1, rule_format, OF pull_hyp]
  have fund_hyp: "mnee demo = simple_ledger \<and>
    createTask demo (at alice 1000) [1, 2, 3] (toy_keccak output_X) 5 10 1 4600 (init funded)
      = Inr (0, created) \<and>
    bob \<noteq> escrowAddress demo"
    using createTask_init by (simp add: demo_def party_defs)
  note fund = reveal_pays_worker [where d = demo and m = "at alice 1000" and i = 0 and s = "init funded" and s' = created
      and inputBytes = "[1, 2, 3]" and eoh = "toy_keccak output_X" and sph = 5 and a = 10
      and b = 1 and dl = 4600 and acc = bob,
      THEN conjunct2, THEN conjunct2, THEN conjunct2, THEN conjunct2, THEN conjunct2, THEN conjunct2, THEN conjunct2, THEN conjunct2, THEN conjunct2, THEN conjunct2, THEN conjunct2, THEN conjunct2, THEN conjunct1, rule_format, OF fund_hyp]
  have own_expiry_hyp: "mnee demo = simple_ledger \<and> expireCommit demo (at mallory 1700) 0 self_committed = Inr self_expired \<and>
    committedWorker (tasks self_committed 0) = requester (tasks self_committed 0) \<and>
    requester (tasks self_committed 0) \<noteq> escrowAddress demo"
    using expireCommit_self_committed by (simp add: self_committed_task demo_def party_defs)
  note own_expiry = reveal_pays_worker [where d = demo and m = "at mallory 1700" and i = 0 and s = self_committed
      and s' = self_expired,
      THEN conjunct2, THEN conjunct2, THEN conjunct2, THEN conjunct2, THEN conjunct2, THEN conjunct2, THEN conjunct2, THEN conjunct2, THEN conjunct2, THEN conjunct2, THEN conjunct2, THEN conjunct2, THEN conjunct2, THEN conjunct1, rule_format, OF own_expiry_hyp]
  have own_timeout_hyp: "mnee demo = simple_ledger \<and> claimTimeout demo (at mallory 5000) 0 self_committed = Inr self_refunded \<and>
    state (tasks self_committed 0) = COMMITTED \<and>
    committedWorker (tasks self_committed 0) = requester (tasks self_committed 0) \<and>
    requester (tasks self_committed 0) \<noteq> escrowAddress demo"
    using claimTimeout_self_committed by (simp add: self_committed_task demo_def party_defs)
  note own_timeout = reveal_pays_worker [where d = demo and m = "at mallory 5000" and i = 0 and s = self_committed
      and s' = self_refunded,
      THEN conjunct2, THEN conjunct2, THEN conjunct2, THEN conjunct2, THEN conjunct2, THEN conjunct2, THEN conjunct2, THEN conjunct2, THEN conjunct2, THEN conjunct2, THEN conjunct2, THEN conjunct2, THEN conjunct2, THEN conjunct2, rule_format, OF own_timeout_hyp]
  have by_timeout': "transfer (mnee demo) (escrowAddress demo) (requester (tasks committed 0))
     (amount (tasks committed 0) + bondAmount (tasks committed 0)) (ledger committed)
     = Some (ledger refunded)"
    using by_timeout by (simp add: committed_task)
  have fin: "state (tasks completed 0) = COMPLETED"
    by (simp add: completed_task)
  show ?thesis
    using guards pays reveal_committed by_reveal expireCommit_committed by_expiry
      claimTimeout_committed by_timeout' commit_created by_commit createTask_init by_create
      scenario fin scenario_balances(1,2,4,5,6) solvent unaided
      own_hyp own expiry_hyp expiry timeout_hyp timeout pull_hyp pull fund_hyp fund own_expiry_hyp own_expiry own_timeout_hyp own_timeout
    by (intro conjI) blast+
qed

subsection \<open>C5: a reveal by anyone but the committed worker\<close>

text \<open>
  Claim C5. For every task in state COMMITTED, a reveal called by any identity other than
  \<open>committedWorker\<close> fails with \<open>NotCommittedWorker\<close> and leaves the task unchanged,
  even when the caller supplies the very output (of at most 4096 bytes) and salt that
  the committed worker would use. The statement holds for every output and salt, so in
  particular for the worker's own; the reverted call leaves the whole world, and with it
  the task, as it was. The witness replays the attack on the committed scenario task:
  bob's reveal of \<open>X\<close> and \<open>S\<close> would succeed, mallory's reveal of the same bytes fails.
\<close>

theorem front_running_fails:
  assumes "state (tasks s i) = COMMITTED"
    and "sender m \<noteq> committedWorker (tasks s i)"
    and "length outputBytes \<le> 4096"
  shows "reveal d m i outputBytes salt s = Inl NotCommittedWorker \<and>
         step d (m, Reveal i outputBytes salt) s = s"
  using assms by (simp add: reveal_def step_def unat_MAX_OUTPUT_SIZE)

theorem front_running_fails_witness:
  "state (tasks committed 0) = COMMITTED \<and>
   sender (at mallory 1015) \<noteq> committedWorker (tasks committed 0) \<and>
   length output_X \<le> 4096 \<and>
   succeeds (reveal demo (at bob 1015) 0 output_X salt_S committed) \<and>
   reveal demo (at mallory 1015) 0 output_X salt_S committed = Inl NotCommittedWorker \<and>
   step demo (at mallory 1015, Reveal 0 output_X salt_S) committed = committed"
proof -
  have a: "state (tasks committed 0) = COMMITTED"
    by (simp add: committed_task)
  have b: "sender (at mallory 1015) \<noteq> committedWorker (tasks committed 0)"
    by (simp add: committed_task party_defs)
  have c: "length output_X \<le> 4096"
    by (simp add: length_output_X)
  have w: "succeeds (reveal demo (at bob 1015) 0 output_X salt_S committed)"
    by (simp add: reveal_def committed_eq created_eq demo_def funded_def Let_def
        constant_defs arithmetic_defs ledger_defs party_defs length_output_X commitment_XS_def)
  show ?thesis
    using a b c w front_running_fails [OF a b c, of demo salt_S] by simp
qed

subsection \<open>C6: expiring a stale commitment\<close>

text \<open>
  Claim C6. \<open>expireCommit\<close> can be called by anyone; for a task in state COMMITTED, at a
  time strictly after \<open>revealDeadline\<close> and at most \<open>deadline\<close>, it clears
  \<open>committedWorker\<close>, \<open>commitHash\<close> and \<open>revealDeadline\<close>, puts the task back to OPEN
  and transfers the whole \<open>bondAmount\<close> to the task's recorded requester, not to the
  caller; afterwards a new worker may commit to the same task.

  The conjuncts: (1) under the two timing conditions the call succeeds, for a token that
  performs the transfer of the bond to the requester, and the new world is the old one
  with the task reopened and cleared, the expiry event and the token state after that
  one transfer; (2) the caller plays no part: the call gives the same result whoever
  sends it; (3) on the balance ledger the requester's balance grows by the bond and the
  caller's balance does not move; (4) after the expiry, any caller whose bond the token
  lets the escrow pull, at a time still inside the commit window, commits successfully
  to the same task; (5) on the balance ledger, in a world reached from the fresh
  contract by an admissible history, the transfer is never refused: the state and the
  two timing conditions alone make the call succeed, and the bond moves from the escrow
  to the requester.
\<close>

theorem expiry_slashes_and_reopens:
  "(state (tasks s i) = COMMITTED \<and> revealDeadline (tasks s i) < timestamp m \<and>
    timestamp m \<le> deadline (tasks s i) \<and>
    transfer (mnee d) (escrowAddress d) (requester (tasks s i)) (bondAmount (tasks s i))
      (ledger s) = Some l \<longrightarrow>
      expireCommit d m i s =
        Inr (s\<lparr>tasks := (tasks s)(i := (tasks s i)\<lparr>state := OPEN, committedWorker := 0,
                 commitHash := 0, revealDeadline := 0\<rparr>),
               ledger := l,
               events := events s @ [CommitExpired i (committedWorker (tasks s i))
                 (bondAmount (tasks s i))]\<rparr>)) \<and>
   expireCommit d (m\<lparr>sender := a\<rparr>) i s = expireCommit d m i s \<and>
   (mnee d = simple_ledger \<and> expireCommit d m i s = Inr s' \<and>
    requester (tasks s i) \<noteq> escrowAddress d \<and> sender m \<noteq> escrowAddress d \<and>
    sender m \<noteq> requester (tasks s i) \<longrightarrow>
      balanceOf (ledger s') (requester (tasks s i)) =
        balanceOf (ledger s) (requester (tasks s i)) + unat (bondAmount (tasks s i)) \<and>
      balanceOf (ledger s') (sender m) = balanceOf (ledger s) (sender m)) \<and>
   (expireCommit d m i s = Inr s' \<and>
    unat (timestamp m') + 600 < unat (deadline (tasks s i)) \<and>
    transferFrom (mnee d) (escrowAddress d) (sender m') (escrowAddress d)
      (bondAmount (tasks s i)) (ledger s') = Some l' \<longrightarrow>
      commit d m' i h s' =
        Inr (s'\<lparr>tasks := (tasks s')(i := (tasks s i)\<lparr>state := COMMITTED,
                  committedWorker := sender m', commitHash := h,
                  revealDeadline := timestamp m' + REVEAL_WINDOW\<rparr>),
                ledger := l',
                events := events s' @ [TaskCommitted i (sender m') h (bondAmount (tasks s i))
                  (timestamp m' + REVEAL_WINDOW)]\<rparr>)) \<and>
   (mnee d = simple_ledger \<and> list_all (admissible d) txs \<and> s = run d txs (init l0) \<and>
    state (tasks s i) = COMMITTED \<and> revealDeadline (tasks s i) < timestamp m \<and>
    timestamp m \<le> deadline (tasks s i) \<longrightarrow>
      expireCommit d m i s =
        Inr (s\<lparr>tasks := (tasks s)(i := (tasks s i)\<lparr>state := OPEN, committedWorker := 0,
                 commitHash := 0, revealDeadline := 0\<rparr>),
               ledger := (ledger s)\<lparr>balanceOf := move (escrowAddress d)
                 (requester (tasks s i)) (unat (bondAmount (tasks s i)))
                 (balanceOf (ledger s))\<rparr>,
               events := events s @ [CommitExpired i (committedWorker (tasks s i))
                 (bondAmount (tasks s i))]\<rparr>))"
proof (intro conjI impI)
  assume "state (tasks s i) = COMMITTED \<and> revealDeadline (tasks s i) < timestamp m \<and>
    timestamp m \<le> deadline (tasks s i) \<and>
    transfer (mnee d) (escrowAddress d) (requester (tasks s i)) (bondAmount (tasks s i))
      (ledger s) = Some l"
  then show "expireCommit d m i s =
        Inr (s\<lparr>tasks := (tasks s)(i := (tasks s i)\<lparr>state := OPEN, committedWorker := 0,
                 commitHash := 0, revealDeadline := 0\<rparr>),
               ledger := l,
               events := events s @ [CommitExpired i (committedWorker (tasks s i))
                 (bondAmount (tasks s i))]\<rparr>)"
    by (auto simp: expireCommit_Inr_iff)
next
  show "expireCommit d (m\<lparr>sender := a\<rparr>) i s = expireCommit d m i s"
    by (rule expireCommit_any_caller)
next
  assume a: "mnee d = simple_ledger \<and> expireCommit d m i s = Inr s' \<and>
    requester (tasks s i) \<noteq> escrowAddress d \<and> sender m \<noteq> escrowAddress d \<and>
    sender m \<noteq> requester (tasks s i)"
  then have "ledger_transfer (escrowAddress d) (requester (tasks s i)) (bondAmount (tasks s i))
      (ledger s) = Some (ledger s')"
    by (auto simp: expireCommit_Inr_iff simple_ledger_def)
  from ledger_transfer_balances [OF this] a
  show "balanceOf (ledger s') (requester (tasks s i)) =
        balanceOf (ledger s) (requester (tasks s i)) + unat (bondAmount (tasks s i))"
    and "balanceOf (ledger s') (sender m) = balanceOf (ledger s) (sender m)"
    by auto
next
  assume a: "expireCommit d m i s = Inr s' \<and>
    unat (timestamp m') + 600 < unat (deadline (tasks s i)) \<and>
    transferFrom (mnee d) (escrowAddress d) (sender m') (escrowAddress d)
      (bondAmount (tasks s i)) (ledger s') = Some l'"
  then have t: "tasks s' i = (tasks s i)\<lparr>state := OPEN, committedWorker := 0,
      commitHash := 0, revealDeadline := 0\<rparr>"
    by (auto simp: expireCommit_Inr_iff)
  with a show "commit d m' i h s' =
        Inr (s'\<lparr>tasks := (tasks s')(i := (tasks s i)\<lparr>state := COMMITTED,
                  committedWorker := sender m', commitHash := h,
                  revealDeadline := timestamp m' + REVEAL_WINDOW\<rparr>),
                ledger := l',
                events := events s' @ [TaskCommitted i (sender m') h (bondAmount (tasks s i))
                  (timestamp m' + REVEAL_WINDOW)]\<rparr>)"
    by (simp add: commit_Inr_iff)
next
  assume "mnee d = simple_ledger \<and> list_all (admissible d) txs \<and> s = run d txs (init l0) \<and>
    state (tasks s i) = COMMITTED \<and> revealDeadline (tasks s i) < timestamp m \<and>
    timestamp m \<le> deadline (tasks s i)"
  then show "expireCommit d m i s =
        Inr (s\<lparr>tasks := (tasks s)(i := (tasks s i)\<lparr>state := OPEN, committedWorker := 0,
                 commitHash := 0, revealDeadline := 0\<rparr>),
               ledger := (ledger s)\<lparr>balanceOf := move (escrowAddress d)
                 (requester (tasks s i)) (unat (bondAmount (tasks s i)))
                 (balanceOf (ledger s))\<rparr>,
               events := events s @ [CommitExpired i (committedWorker (tasks s i))
                 (bondAmount (tasks s i))]\<rparr>)"
    using expireCommit_on_ledger [of d txs s l0 i m] by blast
qed

text \<open>
  The witness: bob's commitment lapses at 1610; mallory expires it at 1700, alice
  receives the bond, and mallory commits to the task herself at 1800.
\<close>

theorem expiry_slashes_and_reopens_witness:
  "state (tasks committed 0) = COMMITTED \<and>
   revealDeadline (tasks committed 0) < timestamp (at mallory 1700) \<and>
   timestamp (at mallory 1700) \<le> deadline (tasks committed 0) \<and>
   transfer (mnee demo) (escrowAddress demo) (requester (tasks committed 0))
     (bondAmount (tasks committed 0)) (ledger committed) = Some (ledger expired) \<and>
   expireCommit demo (at mallory 1700) 0 committed =
     Inr (committed\<lparr>tasks := (tasks committed)(0 := (tasks committed 0)\<lparr>state := OPEN,
              committedWorker := 0, commitHash := 0, revealDeadline := 0\<rparr>),
            ledger := ledger expired,
            events := events committed @ [CommitExpired 0 (committedWorker (tasks committed 0))
              (bondAmount (tasks committed 0))]\<rparr>) \<and>
   expireCommit demo (at mallory 1700) 0 committed = Inr expired \<and>
   expireCommit demo ((at mallory 1700)\<lparr>sender := alice\<rparr>) 0 committed =
     expireCommit demo (at mallory 1700) 0 committed \<and>
   mnee demo = simple_ledger \<and>
   requester (tasks committed 0) \<noteq> escrowAddress demo \<and>
   sender (at mallory 1700) \<noteq> escrowAddress demo \<and>
   sender (at mallory 1700) \<noteq> requester (tasks committed 0) \<and>
   balanceOf (ledger expired) (requester (tasks committed 0)) =
     balanceOf (ledger committed) (requester (tasks committed 0)) +
     unat (bondAmount (tasks committed 0)) \<and>
   balanceOf (ledger expired) (sender (at mallory 1700)) =
     balanceOf (ledger committed) (sender (at mallory 1700)) \<and>
   balanceOf (ledger committed) alice = 990 \<and> balanceOf (ledger expired) alice = 991 \<and>
   unat (timestamp (at mallory 1800)) + 600 < unat (deadline (tasks committed 0)) \<and>
   transferFrom (mnee demo) (escrowAddress demo) (sender (at mallory 1800)) (escrowAddress demo)
     (bondAmount (tasks committed 0)) (ledger expired) = Some (ledger recommitted) \<and>
   commit demo (at mallory 1800) 0 7 expired =
     Inr (expired\<lparr>tasks := (tasks expired)(0 := (tasks committed 0)\<lparr>state := COMMITTED,
              committedWorker := sender (at mallory 1800), commitHash := 7,
              revealDeadline := timestamp (at mallory 1800) + REVEAL_WINDOW\<rparr>),
            ledger := ledger recommitted,
            events := events expired @ [TaskCommitted 0 (sender (at mallory 1800)) 7
              (bondAmount (tasks committed 0)) (timestamp (at mallory 1800) + REVEAL_WINDOW)]\<rparr>) \<and>
   commit demo (at mallory 1800) 0 7 expired = Inr recommitted \<and>
   list_all (admissible demo)
     [(at alice 1000, CreateTask [1, 2, 3] (toy_keccak output_X) 5 10 1 4600),
      (at bob 1010, Commit 0 commitment_XS)] \<and>
   committed = run demo
     [(at alice 1000, CreateTask [1, 2, 3] (toy_keccak output_X) 5 10 1 4600),
      (at bob 1010, Commit 0 commitment_XS)] (init funded) \<and>
   expireCommit demo (at mallory 1700) 0 committed =
     Inr (committed\<lparr>tasks := (tasks committed)(0 := (tasks committed 0)\<lparr>state := OPEN,
              committedWorker := 0, commitHash := 0, revealDeadline := 0\<rparr>),
            ledger := (ledger committed)\<lparr>balanceOf := move (escrowAddress demo)
              (requester (tasks committed 0)) (unat (bondAmount (tasks committed 0)))
              (balanceOf (ledger committed))\<rparr>,
            events := events committed @ [CommitExpired 0 (committedWorker (tasks committed 0))
              (bondAmount (tasks committed 0))]\<rparr>)"
proof -
  have pay: "transfer (mnee demo) (escrowAddress demo) (requester (tasks committed 0))
     (bondAmount (tasks committed 0)) (ledger committed) = Some (ledger expired)"
    by (simp add: expired_eq committed_eq created_eq demo_def funded_def ledger_defs party_defs)
  have guards: "state (tasks committed 0) = COMMITTED \<and>
    revealDeadline (tasks committed 0) < timestamp (at mallory 1700) \<and>
    timestamp (at mallory 1700) \<le> deadline (tasks committed 0) \<and>
    transfer (mnee demo) (escrowAddress demo) (requester (tasks committed 0))
      (bondAmount (tasks committed 0)) (ledger committed) = Some (ledger expired)"
    using pay by (simp add: committed_task at_def)
  note expires = expiry_slashes_and_reopens [where d = demo and m = "at mallory 1700"
      and i = 0 and s = committed and l = "ledger expired", THEN conjunct1, rule_format,
      OF guards]
  note anyone = expiry_slashes_and_reopens [where d = demo and m = "at mallory 1700"
      and i = 0 and s = committed and a = alice, THEN conjunct2, THEN conjunct1]
  have roles: "mnee demo = simple_ledger \<and>
    expireCommit demo (at mallory 1700) 0 committed = Inr expired \<and>
    requester (tasks committed 0) \<noteq> escrowAddress demo \<and>
    sender (at mallory 1700) \<noteq> escrowAddress demo \<and>
    sender (at mallory 1700) \<noteq> requester (tasks committed 0)"
    using expireCommit_committed by (simp add: committed_task demo_def party_defs)
  note slashed = expiry_slashes_and_reopens [where d = demo and m = "at mallory 1700"
      and i = 0 and s = committed and s' = expired, THEN conjunct2, THEN conjunct2,
      THEN conjunct1, rule_format, OF roles]
  have pull: "transferFrom (mnee demo) (escrowAddress demo) (sender (at mallory 1800))
     (escrowAddress demo) (bondAmount (tasks committed 0)) (ledger expired)
     = Some (ledger recommitted)"
    by (simp add: recommitted_eq expired_eq committed_eq created_eq demo_def funded_def
        ledger_defs party_defs)
  have again: "expireCommit demo (at mallory 1700) 0 committed = Inr expired \<and>
    unat (timestamp (at mallory 1800)) + 600 < unat (deadline (tasks committed 0)) \<and>
    transferFrom (mnee demo) (escrowAddress demo) (sender (at mallory 1800))
      (escrowAddress demo) (bondAmount (tasks committed 0)) (ledger expired)
      = Some (ledger recommitted)"
    using pull expireCommit_committed by (simp add: committed_task at_def)
  note reopened = expiry_slashes_and_reopens [where d = demo and m = "at mallory 1700"
      and i = 0 and s = committed and s' = expired and m' = "at mallory 1800" and h = 7
      and l' = "ledger recommitted", THEN conjunct2, THEN conjunct2, THEN conjunct2,
      THEN conjunct1, rule_format, OF again]
  have solvent: "mnee demo = simple_ledger \<and>
    list_all (admissible demo)
      [(at alice 1000, CreateTask [1, 2, 3] (toy_keccak output_X) 5 10 1 4600),
      (at bob 1010, Commit 0 commitment_XS)] \<and>
    committed = run demo
      [(at alice 1000, CreateTask [1, 2, 3] (toy_keccak output_X) 5 10 1 4600),
      (at bob 1010, Commit 0 commitment_XS)] (init funded) \<and>
    state (tasks committed 0) = COMMITTED \<and>
    revealDeadline (tasks committed 0) < timestamp (at mallory 1700) \<and>
    timestamp (at mallory 1700) \<le> deadline (tasks committed 0)"
    using guards roles admissible_history(2) committed_history [symmetric] by blast
  note unaided = expiry_slashes_and_reopens [where d = demo and m = "at mallory 1700"
      and i = 0 and s = committed and l0 = funded
      and txs = "[(at alice 1000, CreateTask [1, 2, 3] (toy_keccak output_X) 5 10 1 4600),
      (at bob 1010, Commit 0 commitment_XS)]",
      THEN conjunct2, THEN conjunct2, THEN conjunct2, THEN conjunct2, rule_format, OF solvent]
  show ?thesis
    using guards expires expireCommit_committed anyone roles slashed scenario_balances(7)
      more_balances(1) again reopened commit_expired solvent unaided
    by (intro conjI) blast+
qed

subsection \<open>C7: the timeout refund\<close>

text \<open>
  Claim C7. For a task that is not terminal, at a time strictly after \<open>deadline\<close> (and,
  if the task is COMMITTED, strictly after \<open>revealDeadline\<close>), \<open>claimTimeout\<close> makes the
  task REFUNDED and transfers the escrowed \<open>amount\<close> to the task's recorded requester,
  together with \<open>bondAmount\<close> when the task was COMMITTED; the funds go to the recorded
  requester and never to the caller.

  The conjuncts: (1) the call succeeds, for a token that performs the transfer to the
  requester of \<open>amount\<close>, or of \<open>amount + bondAmount\<close> for a COMMITTED task (a sum that
  must fit 256 bits, as it does when the escrow holds both), and the new world is the
  old one with the task REFUNDED, the refund event and the token state after that one
  transfer; (2) the call gives the same result whoever sends it; (3) on the balance
  ledger the requester's balance grows by the amount, and by the bond for a COMMITTED
  task, while the caller's balance does not move; (4) on the balance ledger, in a world
  reached from the fresh contract by an admissible history where the escrow's balance
  fits 256 bits, neither the overflow nor a refused transfer can occur: the state and
  the timing conditions alone make the call succeed, and the amount, with the bond for a
  COMMITTED task, moves from the escrow to the requester.
\<close>

theorem timeout_refunds_requester:
  "((state (tasks s i) = OPEN \<or> state (tasks s i) = COMMITTED) \<and>
    deadline (tasks s i) < timestamp m \<and>
    (state (tasks s i) = COMMITTED \<longrightarrow>
       revealDeadline (tasks s i) < timestamp m \<and>
       unat (amount (tasks s i)) + unat (bondAmount (tasks s i)) < 2 ^ 256) \<and>
    transfer (mnee d) (escrowAddress d) (requester (tasks s i))
      (if state (tasks s i) = COMMITTED then amount (tasks s i) + bondAmount (tasks s i)
       else amount (tasks s i)) (ledger s) = Some l \<longrightarrow>
      claimTimeout d m i s =
        Inr (s\<lparr>tasks := (tasks s)(i := (tasks s i)\<lparr>state := REFUNDED\<rparr>), ledger := l,
               events := events s @ [TaskRefunded i (requester (tasks s i)) (amount (tasks s i))
                 (if state (tasks s i) = COMMITTED then bondAmount (tasks s i) else 0)]\<rparr>)) \<and>
   claimTimeout d (m\<lparr>sender := a\<rparr>) i s = claimTimeout d m i s \<and>
   (mnee d = simple_ledger \<and> claimTimeout d m i s = Inr s' \<and>
    requester (tasks s i) \<noteq> escrowAddress d \<and> sender m \<noteq> escrowAddress d \<and>
    sender m \<noteq> requester (tasks s i) \<longrightarrow>
      balanceOf (ledger s') (requester (tasks s i)) =
        balanceOf (ledger s) (requester (tasks s i)) + unat (amount (tasks s i)) +
        (if state (tasks s i) = COMMITTED then unat (bondAmount (tasks s i)) else 0) \<and>
      balanceOf (ledger s') (sender m) = balanceOf (ledger s) (sender m)) \<and>
   (mnee d = simple_ledger \<and> list_all (admissible d) txs \<and> s = run d txs (init l0) \<and>
    balanceOf (ledger s) (escrowAddress d) < 2 ^ 256 \<and>
    (state (tasks s i) = OPEN \<or> state (tasks s i) = COMMITTED) \<and>
    deadline (tasks s i) < timestamp m \<and>
    (state (tasks s i) = COMMITTED \<longrightarrow> revealDeadline (tasks s i) < timestamp m) \<longrightarrow>
      claimTimeout d m i s =
        Inr (s\<lparr>tasks := (tasks s)(i := (tasks s i)\<lparr>state := REFUNDED\<rparr>),
               ledger := (ledger s)\<lparr>balanceOf := move (escrowAddress d)
                 (requester (tasks s i))
                 (unat (amount (tasks s i)) +
                  (if state (tasks s i) = COMMITTED then unat (bondAmount (tasks s i)) else 0))
                 (balanceOf (ledger s))\<rparr>,
               events := events s @ [TaskRefunded i (requester (tasks s i)) (amount (tasks s i))
                 (if state (tasks s i) = COMMITTED then bondAmount (tasks s i) else 0)]\<rparr>))"
proof (intro conjI impI)
  assume "(state (tasks s i) = OPEN \<or> state (tasks s i) = COMMITTED) \<and>
    deadline (tasks s i) < timestamp m \<and>
    (state (tasks s i) = COMMITTED \<longrightarrow>
       revealDeadline (tasks s i) < timestamp m \<and>
       unat (amount (tasks s i)) + unat (bondAmount (tasks s i)) < 2 ^ 256) \<and>
    transfer (mnee d) (escrowAddress d) (requester (tasks s i))
      (if state (tasks s i) = COMMITTED then amount (tasks s i) + bondAmount (tasks s i)
       else amount (tasks s i)) (ledger s) = Some l"
  then show "claimTimeout d m i s =
        Inr (s\<lparr>tasks := (tasks s)(i := (tasks s i)\<lparr>state := REFUNDED\<rparr>), ledger := l,
               events := events s @ [TaskRefunded i (requester (tasks s i)) (amount (tasks s i))
                 (if state (tasks s i) = COMMITTED then bondAmount (tasks s i) else 0)]\<rparr>)"
    unfolding claimTimeout_Inr_iff by auto
next
  show "claimTimeout d (m\<lparr>sender := a\<rparr>) i s = claimTimeout d m i s"
    by (rule claimTimeout_any_caller)
next
  assume a: "mnee d = simple_ledger \<and> claimTimeout d m i s = Inr s' \<and>
    requester (tasks s i) \<noteq> escrowAddress d \<and> sender m \<noteq> escrowAddress d \<and>
    sender m \<noteq> requester (tasks s i)"
  then have tr: "ledger_transfer (escrowAddress d) (requester (tasks s i))
      (if state (tasks s i) = COMMITTED then amount (tasks s i) + bondAmount (tasks s i)
       else amount (tasks s i)) (ledger s) = Some (ledger s')"
    and ov: "state (tasks s i) = COMMITTED \<longrightarrow>
        unat (amount (tasks s i)) + unat (bondAmount (tasks s i)) < 2 ^ 256"
    unfolding claimTimeout_Inr_iff by (auto simp: simple_ledger_def)
  have v: "unat (if state (tasks s i) = COMMITTED then amount (tasks s i) + bondAmount (tasks s i)
       else amount (tasks s i)) = unat (amount (tasks s i)) +
        (if state (tasks s i) = COMMITTED then unat (bondAmount (tasks s i)) else 0)"
    using ov by (simp add: unat_plus_no_wrap)
  from ledger_transfer_balances [OF tr] a v
  show "balanceOf (ledger s') (requester (tasks s i)) =
        balanceOf (ledger s) (requester (tasks s i)) + unat (amount (tasks s i)) +
        (if state (tasks s i) = COMMITTED then unat (bondAmount (tasks s i)) else 0)"
    and "balanceOf (ledger s') (sender m) = balanceOf (ledger s) (sender m)"
    by auto
next
  assume a: "mnee d = simple_ledger \<and> list_all (admissible d) txs \<and> s = run d txs (init l0) \<and>
    balanceOf (ledger s) (escrowAddress d) < 2 ^ 256 \<and>
    (state (tasks s i) = OPEN \<or> state (tasks s i) = COMMITTED) \<and>
    deadline (tasks s i) < timestamp m \<and>
    (state (tasks s i) = COMMITTED \<longrightarrow> revealDeadline (tasks s i) < timestamp m)"
  then have h: "held (tasks s i) = unat (amount (tasks s i)) +
      (if state (tasks s i) = COMMITTED then unat (bondAmount (tasks s i)) else 0)"
    by (auto simp: held_def)
  from a have "claimTimeout d m i s =
        Inr (s\<lparr>tasks := (tasks s)(i := (tasks s i)\<lparr>state := REFUNDED\<rparr>),
               ledger := (ledger s)\<lparr>balanceOf := move (escrowAddress d)
                 (requester (tasks s i)) (held (tasks s i)) (balanceOf (ledger s))\<rparr>,
               events := events s @ [TaskRefunded i (requester (tasks s i)) (amount (tasks s i))
                 (if state (tasks s i) = COMMITTED then bondAmount (tasks s i) else 0)]\<rparr>)"
    by (intro claimTimeout_on_ledger [of d txs s l0 i m]) blast+
  then show "claimTimeout d m i s =
        Inr (s\<lparr>tasks := (tasks s)(i := (tasks s i)\<lparr>state := REFUNDED\<rparr>),
               ledger := (ledger s)\<lparr>balanceOf := move (escrowAddress d)
                 (requester (tasks s i))
                 (unat (amount (tasks s i)) +
                  (if state (tasks s i) = COMMITTED then unat (bondAmount (tasks s i)) else 0))
                 (balanceOf (ledger s))\<rparr>,
               events := events s @ [TaskRefunded i (requester (tasks s i)) (amount (tasks s i))
                 (if state (tasks s i) = COMMITTED then bondAmount (tasks s i) else 0)]\<rparr>)"
    by (simp only: h)
qed

text \<open>
  The witness: mallory claims the timeout of alice's task at 5000, once with bob's
  commitment on it (alice receives 11) and once with no commitment (alice receives 10).
\<close>

theorem timeout_refunds_requester_witness:
  "state (tasks committed 0) = COMMITTED \<and>
   deadline (tasks committed 0) < timestamp (at mallory 5000) \<and>
   revealDeadline (tasks committed 0) < timestamp (at mallory 5000) \<and>
   unat (amount (tasks committed 0)) + unat (bondAmount (tasks committed 0)) < 2 ^ 256 \<and>
   transfer (mnee demo) (escrowAddress demo) (requester (tasks committed 0))
     (amount (tasks committed 0) + bondAmount (tasks committed 0)) (ledger committed)
     = Some (ledger refunded) \<and>
   claimTimeout demo (at mallory 5000) 0 committed =
     Inr (committed\<lparr>tasks := (tasks committed)(0 := (tasks committed 0)\<lparr>state := REFUNDED\<rparr>),
            ledger := ledger refunded,
            events := events committed @ [TaskRefunded 0 (requester (tasks committed 0))
              (amount (tasks committed 0)) (bondAmount (tasks committed 0))]\<rparr>) \<and>
   claimTimeout demo (at mallory 5000) 0 committed = Inr refunded \<and>
   state (tasks created 0) = OPEN \<and>
   deadline (tasks created 0) < timestamp (at mallory 5000) \<and>
   transfer (mnee demo) (escrowAddress demo) (requester (tasks created 0))
     (amount (tasks created 0)) (ledger created) = Some (ledger timed_out) \<and>
   claimTimeout demo (at mallory 5000) 0 created =
     Inr (created\<lparr>tasks := (tasks created)(0 := (tasks created 0)\<lparr>state := REFUNDED\<rparr>),
            ledger := ledger timed_out,
            events := events created @ [TaskRefunded 0 (requester (tasks created 0))
              (amount (tasks created 0)) 0]\<rparr>) \<and>
   claimTimeout demo (at mallory 5000) 0 created = Inr timed_out \<and>
   claimTimeout demo ((at mallory 5000)\<lparr>sender := bob\<rparr>) 0 committed =
     claimTimeout demo (at mallory 5000) 0 committed \<and>
   mnee demo = simple_ledger \<and>
   requester (tasks committed 0) \<noteq> escrowAddress demo \<and>
   sender (at mallory 5000) \<noteq> escrowAddress demo \<and>
   sender (at mallory 5000) \<noteq> requester (tasks committed 0) \<and>
   balanceOf (ledger refunded) (requester (tasks committed 0)) =
     balanceOf (ledger committed) (requester (tasks committed 0)) +
     unat (amount (tasks committed 0)) + unat (bondAmount (tasks committed 0)) \<and>
   balanceOf (ledger refunded) (sender (at mallory 5000)) =
     balanceOf (ledger committed) (sender (at mallory 5000)) \<and>
   balanceOf (ledger committed) alice = 990 \<and> balanceOf (ledger refunded) alice = 1001 \<and>
   balanceOf (ledger committed) mallory = 1000 \<and> balanceOf (ledger refunded) mallory = 1000 \<and>
   list_all (admissible demo)
     [(at alice 1000, CreateTask [1, 2, 3] (toy_keccak output_X) 5 10 1 4600),
      (at bob 1010, Commit 0 commitment_XS)] \<and>
   committed = run demo
     [(at alice 1000, CreateTask [1, 2, 3] (toy_keccak output_X) 5 10 1 4600),
      (at bob 1010, Commit 0 commitment_XS)] (init funded) \<and>
   balanceOf (ledger committed) (escrowAddress demo) < 2 ^ 256 \<and>
   claimTimeout demo (at mallory 5000) 0 committed =
        Inr (committed\<lparr>tasks := (tasks committed)(0 := (tasks committed 0)\<lparr>state := REFUNDED\<rparr>),
               ledger := (ledger committed)\<lparr>balanceOf := move (escrowAddress demo)
                 (requester (tasks committed 0))
                 (unat (amount (tasks committed 0)) +
                  (if state (tasks committed 0) = COMMITTED then unat (bondAmount (tasks committed 0)) else 0))
                 (balanceOf (ledger committed))\<rparr>,
               events := events committed @ [TaskRefunded 0 (requester (tasks committed 0)) (amount (tasks committed 0))
                 (if state (tasks committed 0) = COMMITTED then bondAmount (tasks committed 0) else 0)]\<rparr>)"
proof -
  have pay: "transfer (mnee demo) (escrowAddress demo) (requester (tasks committed 0))
     (amount (tasks committed 0) + bondAmount (tasks committed 0)) (ledger committed)
     = Some (ledger refunded)"
    by (simp add: refunded_eq committed_eq created_eq demo_def funded_def ledger_defs party_defs)
  have facts: "state (tasks committed 0) = COMMITTED \<and>
    deadline (tasks committed 0) < timestamp (at mallory 5000) \<and>
    revealDeadline (tasks committed 0) < timestamp (at mallory 5000) \<and>
    unat (amount (tasks committed 0)) + unat (bondAmount (tasks committed 0)) < 2 ^ 256"
    by (simp add: committed_task at_def)
  have guards: "(state (tasks committed 0) = OPEN \<or> state (tasks committed 0) = COMMITTED) \<and>
    deadline (tasks committed 0) < timestamp (at mallory 5000) \<and>
    (state (tasks committed 0) = COMMITTED \<longrightarrow>
       revealDeadline (tasks committed 0) < timestamp (at mallory 5000) \<and>
       unat (amount (tasks committed 0)) + unat (bondAmount (tasks committed 0)) < 2 ^ 256) \<and>
    transfer (mnee demo) (escrowAddress demo) (requester (tasks committed 0))
      (if state (tasks committed 0) = COMMITTED
       then amount (tasks committed 0) + bondAmount (tasks committed 0)
       else amount (tasks committed 0)) (ledger committed) = Some (ledger refunded)"
    using pay facts by simp
  have slashed: "claimTimeout demo (at mallory 5000) 0 committed =
     Inr (committed\<lparr>tasks := (tasks committed)(0 := (tasks committed 0)\<lparr>state := REFUNDED\<rparr>),
            ledger := ledger refunded,
            events := events committed @ [TaskRefunded 0 (requester (tasks committed 0))
              (amount (tasks committed 0)) (bondAmount (tasks committed 0))]\<rparr>)"
    using timeout_refunds_requester [where d = demo and m = "at mallory 5000"
      and i = 0 and s = committed and l = "ledger refunded", THEN conjunct1, rule_format,
      OF guards] facts by simp
  have pay': "transfer (mnee demo) (escrowAddress demo) (requester (tasks created 0))
     (amount (tasks created 0)) (ledger created) = Some (ledger timed_out)"
    by (simp add: timed_out_eq created_eq demo_def funded_def ledger_defs party_defs)
  have facts': "state (tasks created 0) = OPEN \<and>
    deadline (tasks created 0) < timestamp (at mallory 5000)"
    by (simp add: created_task at_def)
  have guards': "(state (tasks created 0) = OPEN \<or> state (tasks created 0) = COMMITTED) \<and>
    deadline (tasks created 0) < timestamp (at mallory 5000) \<and>
    (state (tasks created 0) = COMMITTED \<longrightarrow>
       revealDeadline (tasks created 0) < timestamp (at mallory 5000) \<and>
       unat (amount (tasks created 0)) + unat (bondAmount (tasks created 0)) < 2 ^ 256) \<and>
    transfer (mnee demo) (escrowAddress demo) (requester (tasks created 0))
      (if state (tasks created 0) = COMMITTED
       then amount (tasks created 0) + bondAmount (tasks created 0)
       else amount (tasks created 0)) (ledger created) = Some (ledger timed_out)"
    using pay' facts' by simp
  have plain: "claimTimeout demo (at mallory 5000) 0 created =
     Inr (created\<lparr>tasks := (tasks created)(0 := (tasks created 0)\<lparr>state := REFUNDED\<rparr>),
            ledger := ledger timed_out,
            events := events created @ [TaskRefunded 0 (requester (tasks created 0))
              (amount (tasks created 0)) 0]\<rparr>)"
    using timeout_refunds_requester [where d = demo and m = "at mallory 5000"
      and i = 0 and s = created and l = "ledger timed_out", THEN conjunct1, rule_format,
      OF guards'] facts' by simp
  note anyone = timeout_refunds_requester [where d = demo and m = "at mallory 5000"
      and i = 0 and s = committed and a = bob, THEN conjunct2, THEN conjunct1]
  have roles: "mnee demo = simple_ledger \<and>
    claimTimeout demo (at mallory 5000) 0 committed = Inr refunded \<and>
    requester (tasks committed 0) \<noteq> escrowAddress demo \<and>
    sender (at mallory 5000) \<noteq> escrowAddress demo \<and>
    sender (at mallory 5000) \<noteq> requester (tasks committed 0)"
    using claimTimeout_committed by (simp add: committed_task demo_def party_defs)
  have flows: "balanceOf (ledger refunded) (requester (tasks committed 0)) =
     balanceOf (ledger committed) (requester (tasks committed 0)) +
     unat (amount (tasks committed 0)) + unat (bondAmount (tasks committed 0)) \<and>
   balanceOf (ledger refunded) (sender (at mallory 5000)) =
     balanceOf (ledger committed) (sender (at mallory 5000))"
    using timeout_refunds_requester [where d = demo and m = "at mallory 5000"
      and i = 0 and s = committed and s' = refunded, THEN conjunct2, THEN conjunct2,
      THEN conjunct1, rule_format, OF roles] facts by simp
  have fits: "balanceOf (ledger committed) (escrowAddress demo) < 2 ^ 256"
    by (simp add: escrow_balances)
  have solvent: "mnee demo = simple_ledger \<and>
    list_all (admissible demo)
      [(at alice 1000, CreateTask [1, 2, 3] (toy_keccak output_X) 5 10 1 4600),
      (at bob 1010, Commit 0 commitment_XS)] \<and>
    committed = run demo
      [(at alice 1000, CreateTask [1, 2, 3] (toy_keccak output_X) 5 10 1 4600),
      (at bob 1010, Commit 0 commitment_XS)] (init funded) \<and>
    balanceOf (ledger committed) (escrowAddress demo) < 2 ^ 256 \<and>
    (state (tasks committed 0) = OPEN \<or> state (tasks committed 0) = COMMITTED) \<and>
    deadline (tasks committed 0) < timestamp (at mallory 5000) \<and>
    (state (tasks committed 0) = COMMITTED \<longrightarrow>
       revealDeadline (tasks committed 0) < timestamp (at mallory 5000))"
    using facts roles fits admissible_history(2) committed_history [symmetric] by blast
  note unaided = timeout_refunds_requester [where d = demo and m = "at mallory 5000"
      and i = 0 and s = committed and l0 = funded
      and txs = "[(at alice 1000, CreateTask [1, 2, 3] (toy_keccak output_X) 5 10 1 4600),
      (at bob 1010, Commit 0 commitment_XS)]",
      THEN conjunct2, THEN conjunct2, THEN conjunct2, rule_format, OF solvent]
  show ?thesis
    using facts pay slashed claimTimeout_committed facts' pay' plain claimTimeout_created
      anyone roles flows more_balances(1,2,4) scenario_balances(9) fits
      admissible_history(2) committed_history [symmetric] unaided
    by (intro conjI) blast+
qed

subsection \<open>C8: the checks of a creation\<close>

text \<open>
  Claim C8, as stated, says that a creation whose bond is below 10 percent of the amount,
  and in particular one whose bond is 5 percent of it, fails with
  \<open>InvalidBondAmount\<close>. The bond check multiplies the amount by 1000 in checked
  arithmetic before dividing by 10000. For the amount \<open>5 * 2 ^ 252\<close> and the bond
  \<open>2 ^ 250\<close>, exactly 5 percent of it, the product exceeds 256 bits and the creation
  fails with the arithmetic panic instead.
\<close>

theorem huge_amount_panics:
  "20 * unat (2 ^ 250 :: uint256) = unat (5 * 2 ^ 252 :: uint256) \<and>
   createTask demo (at alice 1000) [] 0 0 (5 * 2 ^ 252) (2 ^ 250) 4600 (init funded)
     = Inl Panic \<and>
   createTask demo (at alice 1000) [] 0 0 (5 * 2 ^ 252) (2 ^ 250) 4600 (init funded)
     \<noteq> Inl InvalidBondAmount"
  by (simp add: createTask_def checked_mul_def MAX_INPUT_SIZE_def MIN_BOND_BPS_def)

text \<open>
  Claim C8, amended. (1) A creation that succeeds stores, under the id \<open>nextTaskId\<close>, a
  task whose \<open>bondAmount\<close> is at least \<open>amount div 10\<close> (the value of
  \<open>(amount * 1000) / 10000\<close> in integer arithmetic) and whose \<open>deadline\<close> is beyond
  the creation time plus 600. (2, 3) A creation with an input of at most 4096 bytes and a
  nonzero amount whose thousandfold fits 256 bits fails with \<open>InvalidBondAmount\<close> when
  the bond is below \<open>amount div 10\<close>, in particular when the bond is exactly 5 percent
  of the amount; (4) and, with a sufficient bond, it fails with \<open>InvalidDeadline\<close> when
  the deadline is at most the creation time plus 600. (5) When the thousandfold of the
  amount does not fit 256 bits the creation fails with the arithmetic panic, whatever the
  bond. (6) A failed creation leaves the world as it was: no task record and no funds
  moved.
\<close>

theorem creation_checks:
  "(createTask d m inputBytes eoh sph a b dl s = Inr (tid, s') \<longrightarrow>
      tid = nextTaskId s \<and>
      tasks s' tid = \<lparr>requester = sender m, inputHash = keccak256 d inputBytes,
        expectedOutputHash = eoh, specHash = sph, amount = a, bondAmount = b, deadline = dl,
        state = OPEN, committedWorker = 0, commitHash = 0, revealDeadline = 0\<rparr> \<and>
      unat (amount (tasks s' tid)) div 10 \<le> unat (bondAmount (tasks s' tid)) \<and>
      unat (timestamp m) + 600 < unat (deadline (tasks s' tid))) \<and>
   (length inputBytes \<le> 4096 \<and> a \<noteq> 0 \<and> unat a * 1000 < 2 ^ 256 \<and>
    unat b < unat a div 10 \<longrightarrow>
      createTask d m inputBytes eoh sph a b dl s = Inl InvalidBondAmount) \<and>
   (length inputBytes \<le> 4096 \<and> a \<noteq> 0 \<and> unat a * 1000 < 2 ^ 256 \<and>
    20 * unat b = unat a \<longrightarrow>
      createTask d m inputBytes eoh sph a b dl s = Inl InvalidBondAmount) \<and>
   (length inputBytes \<le> 4096 \<and> a \<noteq> 0 \<and> unat a * 1000 < 2 ^ 256 \<and>
    unat a div 10 \<le> unat b \<and> unat (timestamp m) + 600 < 2 ^ 256 \<and>
    unat dl \<le> unat (timestamp m) + 600 \<longrightarrow>
      createTask d m inputBytes eoh sph a b dl s = Inl InvalidDeadline) \<and>
   (length inputBytes \<le> 4096 \<and> 2 ^ 256 \<le> unat a * 1000 \<longrightarrow>
      createTask d m inputBytes eoh sph a b dl s = Inl Panic) \<and>
   (createTask d m inputBytes eoh sph a b dl s = Inl e \<longrightarrow>
      step d (m, CreateTask inputBytes eoh sph a b dl) s = s)"
proof (intro conjI impI)
  assume ok: "createTask d m inputBytes eoh sph a b dl s = Inr (tid, s')"
  then show "tid = nextTaskId s"
    unfolding createTask_Inr_iff by simp
  from ok show t: "tasks s' tid = \<lparr>requester = sender m, inputHash = keccak256 d inputBytes,
        expectedOutputHash = eoh, specHash = sph, amount = a, bondAmount = b, deadline = dl,
        state = OPEN, committedWorker = 0, commitHash = 0, revealDeadline = 0\<rparr>"
    unfolding createTask_Inr_iff by auto
  from ok show "unat (amount (tasks s' tid)) div 10 \<le> unat (bondAmount (tasks s' tid))"
    unfolding t using ok [unfolded createTask_Inr_iff] by simp
  from ok show "unat (timestamp m) + 600 < unat (deadline (tasks s' tid))"
    unfolding t using ok [unfolded createTask_Inr_iff] by simp
next
  assume "length inputBytes \<le> 4096 \<and> a \<noteq> 0 \<and> unat a * 1000 < 2 ^ 256 \<and>
    unat b < unat a div 10"
  then show "createTask d m inputBytes eoh sph a b dl s = Inl InvalidBondAmount"
    by (simp add: createTask_bond_too_small)
next
  assume a: "length inputBytes \<le> 4096 \<and> a \<noteq> 0 \<and> unat a * 1000 < 2 ^ 256 \<and>
    20 * unat b = unat a"
  then have "unat a \<noteq> 0" and "20 * unat b = unat a"
    by (simp_all add: unat_eq_0)
  then have "unat b < unat a div 10" by (rule five_percent_is_short [rotated])
  with a show "createTask d m inputBytes eoh sph a b dl s = Inl InvalidBondAmount"
    by (simp add: createTask_bond_too_small)
next
  assume "length inputBytes \<le> 4096 \<and> a \<noteq> 0 \<and> unat a * 1000 < 2 ^ 256 \<and>
    unat a div 10 \<le> unat b \<and> unat (timestamp m) + 600 < 2 ^ 256 \<and>
    unat dl \<le> unat (timestamp m) + 600"
  then show "createTask d m inputBytes eoh sph a b dl s = Inl InvalidDeadline"
    by (simp add: createTask_deadline_too_close)
next
  assume "length inputBytes \<le> 4096 \<and> 2 ^ 256 \<le> unat a * 1000"
  then show "createTask d m inputBytes eoh sph a b dl s = Inl Panic"
    by (simp add: createTask_amount_overflow)
next
  assume "createTask d m inputBytes eoh sph a b dl s = Inl e"
  then show "step d (m, CreateTask inputBytes eoh sph a b dl) s = s"
    by (rule failed_creation_changes_nothing)
qed

text \<open>
  The witness: alice's task of amount 10 and bond 1; an amount of 100 with bond 9, with
  bond 5, and with bond 10 but a deadline only 600 ahead; and the amount \<open>5 * 2 ^ 252\<close>.
\<close>

theorem creation_checks_witness:
  "createTask demo (at alice 1000) [1, 2, 3] (toy_keccak output_X) 5 10 1 4600 (init funded)
     = Inr (0, created) \<and>
   nextTaskId (init funded) = 0 \<and>
   unat (amount (tasks created 0)) div 10 \<le> unat (bondAmount (tasks created 0)) \<and>
   unat (timestamp (at alice 1000)) + 600 < unat (deadline (tasks created 0)) \<and>
   length ([] :: bytes) \<le> 4096 \<and> (100 :: uint256) \<noteq> 0 \<and>
   unat (100 :: uint256) * 1000 < 2 ^ 256 \<and>
   unat (9 :: uint256) < unat (100 :: uint256) div 10 \<and>
   createTask demo (at alice 1000) [] 0 0 100 9 4600 (init funded) = Inl InvalidBondAmount \<and>
   20 * unat (5 :: uint256) = unat (100 :: uint256) \<and>
   createTask demo (at alice 1000) [] 0 0 100 5 4600 (init funded) = Inl InvalidBondAmount \<and>
   step demo (at alice 1000, CreateTask [] 0 0 100 5 4600) (init funded) = init funded \<and>
   unat (100 :: uint256) div 10 \<le> unat (10 :: uint256) \<and>
   unat (timestamp (at alice 1000)) + 600 < 2 ^ 256 \<and>
   unat (1600 :: uint256) \<le> unat (timestamp (at alice 1000)) + 600 \<and>
   createTask demo (at alice 1000) [] 0 0 100 10 1600 (init funded) = Inl InvalidDeadline \<and>
   2 ^ 256 \<le> unat (5 * 2 ^ 252 :: uint256) * 1000 \<and>
   createTask demo (at alice 1000) [] 0 0 (5 * 2 ^ 252) (2 ^ 250) 4600 (init funded)
     = Inl Panic"
proof -
  note stored = creation_checks [where d = demo and m = "at alice 1000"
      and inputBytes = "[1, 2, 3]" and eoh = "toy_keccak output_X" and sph = 5 and a = 10
      and b = 1 and dl = 4600 and s = "init funded" and tid = 0 and s' = created,
      THEN conjunct1, rule_format, OF createTask_init]
  have small: "length ([] :: bytes) \<le> 4096 \<and> (100 :: uint256) \<noteq> 0 \<and>
      unat (100 :: uint256) * 1000 < 2 ^ 256 \<and>
      unat (9 :: uint256) < unat (100 :: uint256) div 10"
    by simp
  note short = creation_checks [where d = demo and m = "at alice 1000"
      and inputBytes = "[]" and eoh = 0 and sph = 0 and a = 100 and b = 9 and dl = 4600
      and s = "init funded", THEN conjunct2, THEN conjunct1, rule_format, OF small]
  have five: "length ([] :: bytes) \<le> 4096 \<and> (100 :: uint256) \<noteq> 0 \<and>
      unat (100 :: uint256) * 1000 < 2 ^ 256 \<and> 20 * unat (5 :: uint256) = unat (100 :: uint256)"
    by simp
  note cheap = creation_checks [where d = demo and m = "at alice 1000"
      and inputBytes = "[]" and eoh = 0 and sph = 0 and a = 100 and b = 5 and dl = 4600
      and s = "init funded", THEN conjunct2, THEN conjunct2, THEN conjunct1, rule_format,
      OF five]
  note untouched = creation_checks [where d = demo and m = "at alice 1000"
      and inputBytes = "[]" and eoh = 0 and sph = 0 and a = 100 and b = 5 and dl = 4600
      and s = "init funded" and e = InvalidBondAmount, THEN conjunct2, THEN conjunct2,
      THEN conjunct2, THEN conjunct2, THEN conjunct2, rule_format, OF cheap]
  have close: "length ([] :: bytes) \<le> 4096 \<and> (100 :: uint256) \<noteq> 0 \<and>
      unat (100 :: uint256) * 1000 < 2 ^ 256 \<and>
      unat (100 :: uint256) div 10 \<le> unat (10 :: uint256) \<and>
      unat (timestamp (at alice 1000)) + 600 < 2 ^ 256 \<and>
      unat (1600 :: uint256) \<le> unat (timestamp (at alice 1000)) + 600"
    by (simp add: at_def)
  note early = creation_checks [where d = demo and m = "at alice 1000"
      and inputBytes = "[]" and eoh = 0 and sph = 0 and a = 100 and b = 10 and dl = 1600
      and s = "init funded", THEN conjunct2, THEN conjunct2, THEN conjunct2, THEN conjunct1,
      rule_format, OF close]
  have huge: "length ([] :: bytes) \<le> 4096 \<and> 2 ^ 256 \<le> unat (5 * 2 ^ 252 :: uint256) * 1000"
    by simp
  note panic = creation_checks [where d = demo and m = "at alice 1000"
      and inputBytes = "[]" and eoh = 0 and sph = 0 and a = "5 * 2 ^ 252" and b = "2 ^ 250"
      and dl = 4600 and s = "init funded", THEN conjunct2, THEN conjunct2, THEN conjunct2,
      THEN conjunct2, THEN conjunct1, rule_format, OF huge]
  have first: "nextTaskId (init funded) = 0"
    by (simp add: init_def)
  show ?thesis
    using createTask_init stored first small short five cheap untouched close early huge panic
    by (intro conjI) blast+
qed

subsection \<open>C9: committing to a task that was never created\<close>




subsection \<open>C10: claiming the timeout of a task that was never created\<close>




end
